theory Spec2Isabelle
  imports Main
begin

section \<open>Data model\<close>

text \<open>
  The two inventory views, \<^verbatim>\<open>confirm_checkout\<close> (inventory_confirm_checkout.py) and
  \<^verbatim>\<open>add_inventory\<close> (inventory_upload.py), work on relational tables through an
  object-relational mapper. A table is a list of rows in primary-key order (the order in
  which \<^verbatim>\<open>.first()\<close> and iteration see the rows); a row that is created is appended.
  An exception that leaves the view is the left summand of the result; what the view had
  written before it was raised is not followed up. Reading the upload (the copy saved to
  disk, the workbook, its images) and rendering the mail template are left to the caller:
  the views start from the parsed rows and produce the template context.
\<close>

datatype exn = DoesNotExist | MultipleObjectsReturned | TypeError | ValueError | OutOfDraws

text \<open>\<^verbatim>\<open>ItemsU\<close>: one physical unit. The stage is the source's string tag
  (\<^verbatim>\<open>"a"\<close>, \<^verbatim>\<open>"r"\<close>, \<^verbatim>\<open>"m"\<close>, \<^verbatim>\<open>"c"\<close>, or anything else the column holds).\<close>

record items_u =
  item_u_id :: int
  iu_item_id :: int
  stage :: string
  iu_project_id :: "int option"

text \<open>\<^verbatim>\<open>Items\<close>: the catalogue row. Text columns hold strings (the source reads a NULL as
  the empty string through \<^verbatim>\<open>norm\<close>); the two prices are kept as the value
  \<^verbatim>\<open>round(float(x), 2)\<close> in hundredths; the quantity columns are nullable.\<close>

record items =
  item_id :: int
  sku_num :: string
  studio_id :: string
  description :: string
  sale_price :: int
  unit_cost :: int
  vendor :: string
  dimensions :: string
  sales_code :: string
  location :: string
  item_code_1 :: string
  item_code_2 :: string
  category :: string
  available_quantity :: "int option"
  reserved_quantity :: "int option"
  total_quantity :: "int option"
  previous_total_quantity :: "int option"

record room =
  room_id :: int
  r_project_id :: int
  room_name :: string
  details :: string

record item_room =
  ir_item_id :: int
  ir_room_id :: int
  item_quantity :: int
  item_quantity_holder :: int
  all_reserved :: int

record item_project =
  ip_item_id :: int
  ip_project_id :: int
  ip_reserved_quantity :: int
  checked_out_quantity :: int
  checked_out_quantity_holder :: int

record project =
  project_id :: int
  project_name :: string
  completed_date :: "string option"

record user =
  user_id :: int
  email :: string
  is_superuser :: bool

record user_project =
  up_user_id :: int
  up_project_id :: int

text \<open>An audit-log row written by \<^verbatim>\<open>create_item_log(code, item_u, project)\<close>.\<close>

record item_log =
  log_code :: string
  log_item_u_id :: int
  log_project_id :: int

record database =
  items_us :: "items_u list"
  items_tbl :: "items list"
  rooms :: "room list"
  item_rooms :: "item_room list"
  item_projects :: "item_project list"
  projects :: "project list"
  users :: "user list"
  user_projects :: "user_project list"
  item_logs :: "item_log list"
  action_logs :: "string list"

subsection \<open>Query primitives\<close>

text \<open>\<^verbatim>\<open>Model.objects.get(...)\<close>: exactly one matching row, else an exception.\<close>

definition objects_get :: "('a \<Rightarrow> bool) \<Rightarrow> 'a list \<Rightarrow> exn + 'a" where
  "objects_get P xs =
     (case filter P xs of
        [] \<Rightarrow> Inl DoesNotExist
      | [x] \<Rightarrow> Inr x
      | _ # _ # _ \<Rightarrow> Inl MultipleObjectsReturned)"

text \<open>\<^verbatim>\<open>obj.save()\<close> and \<^verbatim>\<open>obj.delete()\<close> of an object obtained with \<^verbatim>\<open>.first()\<close>: the
  object is the first matching row of the table, and that row is replaced or removed.\<close>

fun save_first :: "('a \<Rightarrow> bool) \<Rightarrow> ('a \<Rightarrow> 'a) \<Rightarrow> 'a list \<Rightarrow> 'a list" where
  "save_first P f [] = []"
| "save_first P f (x # xs) = (if P x then f x # xs else x # save_first P f xs)"

fun delete_first :: "('a \<Rightarrow> bool) \<Rightarrow> 'a list \<Rightarrow> 'a list" where
  "delete_first P [] = []"
| "delete_first P (x # xs) = (if P x then xs else x # delete_first P xs)"

text \<open>The next value of an auto-increment key: larger than every key in the table.\<close>

definition next_id :: "int list \<Rightarrow> int" where
  "next_id ks = fold max ks 0 + 1"

text \<open>The join \<^verbatim>\<open>room__project_id = p\<close>: the room a row points to belongs to project p.\<close>

definition room_in_project :: "room list \<Rightarrow> int \<Rightarrow> int \<Rightarrow> bool" where
  "room_in_project rs p rid = list_ex (\<lambda>r. room_id r = rid \<and> r_project_id r = p) rs"

text \<open>\<^verbatim>\<open>ItemRoom.objects.filter(item=i, room__project=p)\<close>.\<close>

definition item_rooms_of :: "room list \<Rightarrow> item_room list \<Rightarrow> int \<Rightarrow> int \<Rightarrow> item_room list" where
  "item_rooms_of rs irs i p =
     filter (\<lambda>ir. ir_item_id ir = i \<and> room_in_project rs p (ir_room_id ir)) irs"

section \<open>Checkout confirmation\<close>

subsection \<open>Ledger operations of the loop body\<close>

text \<open>Lines 33-38 and 136-141: \<^verbatim>\<open>Room.objects.get_or_create(project_id=p,
  room_name="Unassigned", defaults=...)\<close>. Returns the room and the table.\<close>

definition unassigned_get_or_create :: "int \<Rightarrow> room list \<Rightarrow> exn + (room \<times> room list)" where
  "unassigned_get_or_create p rs =
     (case filter (\<lambda>r. r_project_id r = p \<and> room_name r = ''Unassigned'') rs of
        [] \<Rightarrow>
          (let r = \<lparr>room_id = next_id (map room_id rs), r_project_id = p,
                    room_name = ''Unassigned'', details = ''Auto-created unassigned room''\<rparr>
           in Inr (r, rs @ [r]))
      | [r] \<Rightarrow> Inr (r, rs)
      | _ # _ # _ \<Rightarrow> Inl MultipleObjectsReturned)"

text \<open>Lines 41-55 and 143-157: \<^verbatim>\<open>ItemRoom.objects.get_or_create(item_id=i, room_id=r)\<close>,
  then the three counters are set to 1 on a created row and incremented on an existing
  one, and the row is saved.\<close>

definition item_room_add_unit :: "int \<Rightarrow> int \<Rightarrow> item_room list \<Rightarrow> exn + item_room list" where
  "item_room_add_unit i r irs =
     (case filter (\<lambda>ir. ir_item_id ir = i \<and> ir_room_id ir = r) irs of
        [] \<Rightarrow>
          Inr (irs @ [\<lparr>ir_item_id = i, ir_room_id = r, item_quantity = 1,
                        item_quantity_holder = 1, all_reserved = 1\<rparr>])
      | [_] \<Rightarrow>
          Inr (map (\<lambda>ir. if ir_item_id ir = i \<and> ir_room_id ir = r
                          then ir\<lparr>item_quantity := item_quantity ir + 1,
                                  item_quantity_holder := item_quantity_holder ir + 1,
                                  all_reserved := all_reserved ir + 1\<rparr>
                          else ir) irs)
      | _ # _ # _ \<Rightarrow> Inl MultipleObjectsReturned)"

text \<open>Lines 57-63 and 85-97: \<^verbatim>\<open>ItemProject.objects.get_or_create(item, project)\<close>, then
  \<^verbatim>\<open>reserved_quantity\<close> is set to the sum of \<^verbatim>\<open>item_quantity\<close> over the item's rows in the
  project's rooms, and the row is saved. The other columns of a created row take the
  value 0.\<close>

definition sync_item_project :: "int \<Rightarrow> int \<Rightarrow> database \<Rightarrow> exn + database" where
  "sync_item_project i p d =
     (let total = sum_list (map item_quantity (item_rooms_of (rooms d) (item_rooms d) i p))
      in case filter (\<lambda>ip. ip_item_id ip = i \<and> ip_project_id ip = p) (item_projects d) of
        [] \<Rightarrow>
          Inr (d\<lparr>item_projects := item_projects d @
                 [\<lparr>ip_item_id = i, ip_project_id = p, ip_reserved_quantity = total,
                   checked_out_quantity = 0, checked_out_quantity_holder = 0\<rparr>]\<rparr>)
      | [_] \<Rightarrow>
          Inr (d\<lparr>item_projects :=
                 map (\<lambda>ip. if ip_item_id ip = i \<and> ip_project_id ip = p
                            then ip\<lparr>ip_reserved_quantity := total\<rparr> else ip)
                     (item_projects d)\<rparr>)
      | _ # _ # _ \<Rightarrow> Inl MultipleObjectsReturned)"

text \<open>Lines 33-55 and 136-157 together: the unit lands in the Unassigned room of p.\<close>

definition place_in_unassigned :: "int \<Rightarrow> int \<Rightarrow> database \<Rightarrow> exn + database" where
  "place_in_unassigned p i d =
     (case unassigned_get_or_create p (rooms d) of
        Inl e \<Rightarrow> Inl e
      | Inr (unassigned_room, rs) \<Rightarrow>
          (case item_room_add_unit i (room_id unassigned_room) (item_rooms d) of
             Inl e \<Rightarrow> Inl e
           | Inr irs \<Rightarrow> Inr (d\<lparr>rooms := rs, item_rooms := irs\<rparr>)))"

text \<open>Line 66: \<^verbatim>\<open>ItemRoom.objects.filter(item_quantity__lt=1).delete()\<close>.\<close>

definition delete_empty_item_rooms :: "database \<Rightarrow> database" where
  "delete_empty_item_rooms d =
     d\<lparr>item_rooms := filter (\<lambda>ir. \<not> item_quantity ir < 1) (item_rooms d)\<rparr>"

text \<open>Lines 70-99: the compensation on the project q the unit was reserved on (the
  \<^verbatim>\<open>item.save()\<close> of line 99 writes the item back as it was read). The first
  row of the item in a room of q loses one unit; it is deleted when its
  \<^verbatim>\<open>item_quantity\<close> falls below 1 and saved otherwise; then
  \<^verbatim>\<open>previous_item_room.room.project\<close> is fetched (the room is the one the join matched, so
  its project is q) and its \<^verbatim>\<open>ItemProject\<close> row is recomputed. Without such a row nothing
  happens.\<close>

definition back_out_previous :: "int \<Rightarrow> int \<Rightarrow> database \<Rightarrow> exn + database" where
  "back_out_previous i q d =
     (let belongs = (\<lambda>ir. ir_item_id ir = i \<and> room_in_project (rooms d) q (ir_room_id ir))
      in case find belongs (item_rooms d) of
        None \<Rightarrow> Inr d
      | Some previous_item_room \<Rightarrow>
          (let irs = (if item_quantity previous_item_room - 1 < 1
                      then delete_first belongs (item_rooms d)
                      else save_first belongs
                             (\<lambda>ir. ir\<lparr>item_quantity := item_quantity ir - 1,
                                      item_quantity_holder := item_quantity_holder ir - 1,
                                      all_reserved := all_reserved ir - 1\<rparr>)
                             (item_rooms d))
           in case objects_get (\<lambda>pr. project_id pr = q) (projects d) of
                Inl e \<Rightarrow> Inl e
              | Inr prev_project \<Rightarrow>
                  sync_item_project i (project_id prev_project) (d\<lparr>item_rooms := irs\<rparr>)))"

text \<open>Lines 101-125: the stolen-reservation bookkeeping. \<^verbatim>\<open>stolen_projects\<close> is a list of
  \<^verbatim>\<open>{"project_id": q, "items": [{"sku_num": s, "quantity": n}, ...]}\<close>; the inner loop
  stops at the first entry of the sku, the outer loop at the first entry of the project.\<close>

type_synonym stolen_project = "int \<times> (string \<times> int) list"

fun stolen_item_add :: "string \<Rightarrow> (string \<times> int) list \<Rightarrow> (string \<times> int) list" where
  "stolen_item_add s [] = [(s, 1)]"
| "stolen_item_add s ((s', n) # its) =
     (if s' = s then (s', n + 1) # its else (s', n) # stolen_item_add s its)"

fun stolen_add :: "int \<Rightarrow> string \<Rightarrow> stolen_project list \<Rightarrow> stolen_project list" where
  "stolen_add q s [] = [(q, [(s, 1)])]"
| "stolen_add q s ((q', its) # sps) =
     (if q' = q then (q', stolen_item_add s its) # sps else (q', its) # stolen_add q s sps)"

subsection \<open>The loop body\<close>

record loop_state =
  ls_db :: database
  item_id_list :: "int list"
  stolen_projects :: "stolen_project list"

text \<open>The body either returns from the view with a response, or goes on to the next
  unit.\<close>

datatype json_response =
    Success_False string
  | Success_True
  | File_Processed bool "string option"

datatype 'a step = Return json_response 'a | Continue 'a

text \<open>Modelled from the spec: \<^verbatim>\<open>create_item_log\<close> is not under src/. It records
  \<^verbatim>\<open>(actionCode, unit, project)\<close> in the audit log; the source ignores a failure of it.\<close>

definition create_item_log :: "string \<Rightarrow> items_u \<Rightarrow> int \<Rightarrow> database \<Rightarrow> database" where
  "create_item_log code u p d =
     d\<lparr>item_logs := item_logs d @
        [\<lparr>log_code = code, log_item_u_id = item_u_id u, log_project_id = p\<rparr>]\<rparr>"

text \<open>Lines 167-178: the audit log entry, then the unit is marked checked out to p and
  saved (an update of the row with the unit's primary key).\<close>

definition mark_checked_out :: "int \<Rightarrow> items_u \<Rightarrow> database \<Rightarrow> database" where
  "mark_checked_out p u d =
     (let d1 = create_item_log ''c'' u p d
      in d1\<lparr>items_us :=
            map (\<lambda>v. if item_u_id v = item_u_id u
                      then u\<lparr>stage := ''c'', iu_project_id := Some p\<rparr> else v)
                (items_us d1)\<rparr>)"

text \<open>Lines 28-126, the first case: the unit is available, or reserved on another
  project.\<close>

definition checkout_available_or_stolen ::
    "int \<Rightarrow> items_u \<Rightarrow> items \<Rightarrow> bool \<Rightarrow> loop_state \<Rightarrow> exn + loop_state" where
  "checkout_available_or_stolen p u it steal ls =
     (case place_in_unassigned p (item_id it) (ls_db ls) of
        Inl e \<Rightarrow> Inl e
      | Inr d1 \<Rightarrow>
          (case sync_item_project (item_id it) p d1 of
             Inl e \<Rightarrow> Inl e
           | Inr d2 \<Rightarrow>
               (let d3 = delete_empty_item_rooms d2
                in if steal
                   then (case back_out_previous (iu_item_id u) (the (iu_project_id u)) d3 of
                           Inl e \<Rightarrow> Inl e
                         | Inr d4 \<Rightarrow>
                             Inr (ls\<lparr>ls_db := d4,
                                     stolen_projects :=
                                       stolen_add (the (iu_project_id u)) (sku_num it)
                                         (stolen_projects ls)\<rparr>))
                   else Inr (ls\<lparr>ls_db := d3\<rparr>))))"

text \<open>Lines 127-157, the second case: the unit is in the move stage. The first available
  unit of the same item, if there is one, takes its place.\<close>

definition checkout_moving :: "int \<Rightarrow> items_u \<Rightarrow> items \<Rightarrow> loop_state \<Rightarrow> exn + loop_state" where
  "checkout_moving p u it ls =
     (let d = ls_db ls;
          d1 = d\<lparr>items_us :=
                 save_first (\<lambda>v. iu_item_id v = iu_item_id u \<and> stage v = ''a'')
                   (\<lambda>v. v\<lparr>stage := ''m'', iu_project_id := None\<rparr>) (items_us d)\<rparr>
      in case place_in_unassigned p (item_id it) d1 of
           Inl e \<Rightarrow> Inl e
         | Inr d2 \<Rightarrow> Inr (ls\<lparr>ls_db := d2\<rparr>))"

text \<open>Lines 22-178: one iteration. \<^verbatim>\<open>int(item_u.project_id)\<close> raises on a reserved unit
  without project.\<close>

definition checkout_item_u :: "int \<Rightarrow> int \<Rightarrow> loop_state \<Rightarrow> exn + loop_state step" where
  "checkout_item_u p uid ls0 =
     (case objects_get (\<lambda>u. item_u_id u = uid) (items_us (ls_db ls0)) of
        Inl e \<Rightarrow> Inl e
      | Inr u \<Rightarrow>
          (let ls = ls0\<lparr>item_id_list := item_id_list ls0 @ [iu_item_id u]\<rparr>
           in case objects_get (\<lambda>it. item_id it = iu_item_id u) (items_tbl (ls_db ls)) of
                Inl e \<Rightarrow> Inl e
              | Inr it \<Rightarrow>
                  if stage u = ''r'' \<and> iu_project_id u = None then Inl TypeError
                  else
                    (let steal = (stage u = ''r'' \<and> the (iu_project_id u) \<noteq> p);
                         branch =
                           (if stage u = ''a'' \<or> steal
                            then (case checkout_available_or_stolen p u it steal ls of
                                    Inl e \<Rightarrow> Inl e | Inr ls1 \<Rightarrow> Inr (Continue ls1))
                            else if stage u = ''m''
                            then (case checkout_moving p u it ls of
                                    Inl e \<Rightarrow> Inl e | Inr ls1 \<Rightarrow> Inr (Continue ls1))
                            else if stage u \<noteq> ''r''
                            then Inr (Return
                                   (Success_False
                                      ''There was an issue confirming this checkout session.'')
                                   ls)
                            else Inr (Continue ls))
                     in case branch of
                          Inl e \<Rightarrow> Inl e
                        | Inr (Return resp ls1) \<Rightarrow> Inr (Return resp ls1)
                        | Inr (Continue ls1) \<Rightarrow>
                            Inr (Continue (ls1\<lparr>ls_db := mark_checked_out p u (ls_db ls1)\<rparr>)))))"

text \<open>Line 22: the loop over the staged unit ids, in order.\<close>

fun checkout_loop :: "int \<Rightarrow> int list \<Rightarrow> loop_state \<Rightarrow> exn + loop_state step" where
  "checkout_loop p [] ls = Inr (Continue ls)"
| "checkout_loop p (uid # uids) ls =
     (case checkout_item_u p uid ls of
        Inl e \<Rightarrow> Inl e
      | Inr (Return resp ls1) \<Rightarrow> Inr (Return resp ls1)
      | Inr (Continue ls1) \<Rightarrow> checkout_loop p uids ls1)"

subsection \<open>Session, outbox and the view\<close>

text \<open>A value staged for a field of an item: a text or a price in hundredths.\<close>

datatype field_value = Str string | Num int

text \<open>The payload staged for a brand-new item (lines 252-273 of inventory_upload.py).\<close>

record new_item =
  n_description :: string
  n_studio_id :: string
  n_sale_price :: int
  n_unit_cost :: int
  n_vendor :: string
  n_dimensions :: string
  n_sales_code :: string
  n_location :: string
  n_item_code_1 :: string
  n_item_code_2 :: string
  n_category :: string
  n_available_quantity :: int
  n_available_quantity_holder :: int
  n_total_quantity :: int
  n_total_quantity_holder :: int
  n_previous_total_quantity :: int
  n_previous_total_quantity_holder :: int
  n_image :: "string option"

text \<open>The session: a key that is absent is \<open>None\<close>. Dictionaries keep their insertion
  order, so they are association lists.\<close>

record session =
  checkout_session_item_us :: "int list option"
  checkout_session_items :: "int list option"
  s_new_items :: "(string \<times> new_item) list option"
  s_items_to_change :: "(string \<times> (string \<times> field_value) list) list option"
  s_items_to_delete :: "string list option"
  s_items_to_subtract :: "(string \<times> int) list option"

text \<open>One \<^verbatim>\<open>EmailMessage\<close> that was sent: the subject, the recipients (the source builds
  them as a set) and the template context (lines 196-216).\<close>

record email_message =
  subject :: string
  recipients :: "string set"
  new_project_name :: string
  e_project_name :: string
  e_item_name :: string
  e_sku :: string
  adjusted_by :: string
  adjusted_quantity :: int

text \<open>One QR label asset returned by \<^verbatim>\<open>qr_code_generator\<close>.\<close>

record qr_label =
  q_description :: string
  q_sku :: string
  q_location :: string

text \<open>What the views act on: the tables, the session of the request's user, the mails
  sent so far, and the label sheet \<^verbatim>\<open>qr_stickers.pdf\<close> (absent until one is written).\<close>

record world =
  db :: database
  session :: session
  outbox :: "email_message list"
  qr_stickers :: "qr_label list option"

record checkout_request =
  body_project_id :: int
  user_full_name :: string

text \<open>Lines 182-190: the users linked to project q through \<^verbatim>\<open>UserProject\<close>, united with
  the superusers.\<close>

definition recipient_emails :: "database \<Rightarrow> int \<Rightarrow> string set" where
  "recipient_emails d q =
     set (map email
            (filter (\<lambda>u. user_id u \<in>
                       set (map up_user_id
                              (filter (\<lambda>up. up_project_id up = q) (user_projects d))))
               (users d)))
     \<union> set (map email (filter is_superuser (users d)))"

text \<open>Lines 194-216: one message for every item entry of a stolen project.\<close>

fun send_item_emails ::
    "database \<Rightarrow> string \<Rightarrow> string \<Rightarrow> string \<Rightarrow> string set \<Rightarrow> (string \<times> int) list \<Rightarrow>
     email_message list \<Rightarrow> exn + email_message list" where
  "send_item_emails d new_name stolen_name full_name rcpts [] out = Inr out"
| "send_item_emails d new_name stolen_name full_name rcpts ((s, n) # its) out =
     (case objects_get (\<lambda>it. sku_num it = s) (items_tbl d) of
        Inl e \<Rightarrow> Inl e
      | Inr it \<Rightarrow>
          send_item_emails d new_name stolen_name full_name rcpts its
            (out @ [\<lparr>subject = ''Alert: Item Reservation Adjusted'', recipients = rcpts,
                      new_project_name = new_name, e_project_name = stolen_name,
                      e_item_name = studio_id it, e_sku = sku_num it,
                      adjusted_by = full_name, adjusted_quantity = n\<rparr>]))"

text \<open>Lines 180-216: the loop over \<^verbatim>\<open>stolen_projects\<close>.\<close>

fun send_stolen_emails ::
    "database \<Rightarrow> string \<Rightarrow> string \<Rightarrow> stolen_project list \<Rightarrow> email_message list \<Rightarrow>
     exn + email_message list" where
  "send_stolen_emails d new_name full_name [] out = Inr out"
| "send_stolen_emails d new_name full_name ((q, its) # sps) out =
     (case objects_get (\<lambda>pr. project_id pr = q) (projects d) of
        Inl e \<Rightarrow> Inl e
      | Inr stolen_project \<Rightarrow>
          (case send_item_emails d new_name (project_name stolen_project) full_name
                  (recipient_emails d q) its out of
             Inl e \<Rightarrow> Inl e
           | Inr out1 \<Rightarrow> send_stolen_emails d new_name full_name sps out1))"

text \<open>Modelled from the spec: \<^verbatim>\<open>update_item_quantities(item_id, project_id)\<close> is not under
  src/. The spec has it recompute \<^verbatim>\<open>Item.total_quantity\<close> of the item from its current
  \<^verbatim>\<open>available_quantity + reserved_quantity\<close>. The view below takes the helper as a
  parameter; this definition is the instance used where a concrete one is needed.\<close>

definition update_item_quantities :: "int \<Rightarrow> int \<Rightarrow> database \<Rightarrow> database" where
  "update_item_quantities i p d =
     d\<lparr>items_tbl :=
        map (\<lambda>it. if item_id it = i
                  then (case (available_quantity it, reserved_quantity it) of
                          (Some a, Some r) \<Rightarrow> it\<lparr>total_quantity := Some (a + r)\<rparr>
                        | _ \<Rightarrow> it)
                  else it)
            (items_tbl d)\<rparr>"

text \<open>Line 230: \<^verbatim>\<open>ItemRoom.objects.filter(all_reserved__lt=1).delete()\<close>.\<close>

definition prune_zero_reservations :: "database \<Rightarrow> database" where
  "prune_zero_reservations d =
     d\<lparr>item_rooms := filter (\<lambda>ir. \<not> all_reserved ir < 1) (item_rooms d)\<rparr>"

text \<open>Lines 17-223: the part of the view that runs when the session holds a staged unit
  list. It returns early with the failure response of the loop, or goes on with the
  emails sent, the item quantities recomputed and the staged list removed.\<close>

definition checkout_staged ::
    "(int \<Rightarrow> int \<Rightarrow> database \<Rightarrow> database) \<Rightarrow> checkout_request \<Rightarrow> project \<Rightarrow> int list \<Rightarrow>
     world \<Rightarrow> exn + world step" where
  "checkout_staged uiq req new_project uids w =
     (case checkout_loop (body_project_id req) uids
             \<lparr>ls_db = db w, item_id_list = [], stolen_projects = []\<rparr> of
        Inl e \<Rightarrow> Inl e
      | Inr (Return resp ls) \<Rightarrow> Inr (Return resp (w\<lparr>db := ls_db ls\<rparr>))
      | Inr (Continue ls) \<Rightarrow>
          (case send_stolen_emails (ls_db ls) (project_name new_project) (user_full_name req)
                  (stolen_projects ls) (outbox w) of
             Inl e \<Rightarrow> Inl e
           | Inr out \<Rightarrow>
               Inr (Continue
                 (w\<lparr>db := fold (\<lambda>i. uiq i (body_project_id req)) (item_id_list ls) (ls_db ls),
                    session := (session w)\<lparr>checkout_session_item_us := None\<rparr>,
                    outbox := out\<rparr>))))"

text \<open>The view \<^verbatim>\<open>confirm_checkout(request)\<close>. The request body gives the target project;
  \<open>uiq\<close> stands for \<^verbatim>\<open>update_item_quantities\<close>.\<close>

definition confirm_checkout ::
    "(int \<Rightarrow> int \<Rightarrow> database \<Rightarrow> database) \<Rightarrow> checkout_request \<Rightarrow> world \<Rightarrow>
     exn + (json_response \<times> world)" where
  "confirm_checkout uiq req w =
     (case objects_get (\<lambda>pr. project_id pr = body_project_id req) (projects (db w)) of
        Inl e \<Rightarrow> Inl e
      | Inr new_project \<Rightarrow>
          (case (case checkout_session_item_us (session w) of
                   None \<Rightarrow> Inr (Continue w)
                 | Some uids \<Rightarrow> checkout_staged uiq req new_project uids w) of
             Inl e \<Rightarrow> Inl e
           | Inr (Return resp w1) \<Rightarrow> Inr (resp, w1)
           | Inr (Continue w1) \<Rightarrow>
               Inr (Success_True,
                    w1\<lparr>session := (session w1)\<lparr>checkout_session_items := None\<rparr>,
                       db := prune_zero_reservations (db w1)\<rparr>)))"

section \<open>Inventory upload\<close>

subsection \<open>The report and its text helpers\<close>

text \<open>One row of the data frame read from the Studio report. A cell left blank is
  \<open>None\<close> (pandas reads it as NaN and \<^verbatim>\<open>fillna("")\<close> turns it into the empty string; for
  the text columns other than the identifier the row already holds the empty string). The
  two prices are the value \<^verbatim>\<open>round(float(x), 2)\<close> in hundredths, the available quantity is
  \<^verbatim>\<open>int(float(x))\<close>, and \<open>row_image\<close> is \<^verbatim>\<open>image_data_map.get(row["excel_row"])\<close>, the
  image anchored at the row.\<close>

record snapshot_row =
  inventory_id :: "string option"
  row_description :: string
  selling_price :: "int option"
  total_cost :: "int option"
  row_vendor :: string
  row_dimensions :: string
  row_sales_code :: string
  row_location :: string
  row_item_code_1 :: string
  row_item_code_2 :: string
  sub_category :: string
  quantity_ordered :: "int option"
  quantity_available :: "int option"
  row_image :: "string option"

text \<open>\<^verbatim>\<open>str.strip()\<close> and \<^verbatim>\<open>str.lower()\<close> on ASCII text.\<close>

definition is_space :: "char \<Rightarrow> bool" where
  "is_space c \<longleftrightarrow> c \<in> set [CHR 0x20, CHR 0x09, CHR 0x0A, CHR 0x0B, CHR 0x0C, CHR 0x0D,
                               CHR 0x1C, CHR 0x1D, CHR 0x1E, CHR 0x1F]"

definition strip :: "string \<Rightarrow> string" where
  "strip s = rev (dropWhile is_space (rev (dropWhile is_space s)))"

definition lower_char :: "char \<Rightarrow> char" where
  "lower_char c =
     (case map_of (zip ''ABCDEFGHIJKLMNOPQRSTUVWXYZ'' ''abcdefghijklmnopqrstuvwxyz'') c of
        None \<Rightarrow> c
      | Some l \<Rightarrow> l)"

definition lower :: "string \<Rightarrow> string" where
  "lower s = map lower_char s"

text \<open>\<^verbatim>\<open>sep.join(xs)\<close>, \<^verbatim>\<open>Series.unique()\<close> (first occurrences, in order) and \<^verbatim>\<open>str(n)\<close>
  for an integer.\<close>

fun join :: "string \<Rightarrow> string list \<Rightarrow> string" where
  "join sep [] = []"
| "join sep [x] = x"
| "join sep (x # y # ys) = x @ sep @ join sep (y # ys)"

definition unique :: "'a list \<Rightarrow> 'a list" where
  "unique xs = rev (remdups (rev xs))"

fun str_nat :: "nat \<Rightarrow> string" where
  "str_nat n =
     (if n < 10 then [''0123456789'' ! n]
      else str_nat (n div 10) @ [''0123456789'' ! (n mod 10)])"

definition str_int :: "int \<Rightarrow> string" where
  "str_int i = (if i < 0 then CHR ''-'' # str_nat (nat (- i)) else str_nat (nat i))"

text \<open>The identifier cell after \<^verbatim>\<open>fillna("")\<close>, and line 83: the normalised identifier,
  which stays missing on a blank cell.\<close>

definition id_text :: "snapshot_row \<Rightarrow> string" where
  "id_text r = (case inventory_id r of None \<Rightarrow> [] | Some s \<Rightarrow> s)"

definition normalized :: "snapshot_row \<Rightarrow> string option" where
  "normalized r = map_option (\<lambda>s. strip (lower s)) (inventory_id r)"

text \<open>Line 84: \<^verbatim>\<open>df[df["normalized"].duplicated(keep=False)]\<close>, every row whose normalised
  identifier occurs more than once (blank cells count as equal to each other).\<close>

definition dupes :: "snapshot_row list \<Rightarrow> snapshot_row list" where
  "dupes rs = filter (\<lambda>r. 1 < count_list (map normalized rs) (normalized r)) rs"

subsection \<open>Gates before the diff\<close>

record upload_request =
  http_method :: string
  has_inventory_file :: bool
  manual_changes_pending :: bool
  report_rows :: "snapshot_row list"
  random_draws :: "int list"

text \<open>Lines 13-17: the two bulk updates of \<^verbatim>\<open>Items\<close>. In SQL a sum with a NULL is NULL and
  a comparison with a NULL selects nothing.\<close>

definition rollup_total :: "items \<Rightarrow> items" where
  "rollup_total it =
     it\<lparr>total_quantity :=
          (case (available_quantity it, reserved_quantity it) of
             (Some a, Some r) \<Rightarrow> Some (a + r)
           | _ \<Rightarrow> None)\<rparr>"

definition raise_previous_total :: "items \<Rightarrow> items" where
  "raise_previous_total it =
     (case (previous_total_quantity it, total_quantity it) of
        (Some p, Some t) \<Rightarrow> if p < t then it\<lparr>previous_total_quantity := Some t\<rparr> else it
      | _ \<Rightarrow> it)"

definition rollup_items :: "database \<Rightarrow> database" where
  "rollup_items d = d\<lparr>items_tbl := map raise_previous_total (map rollup_total (items_tbl d))\<rparr>"

text \<open>Lines 28-36: a completed project with an item project whose checked-out quantity is
  positive, and with no item project whose holder is 99999.\<close>

definition blocking_projects :: "database \<Rightarrow> project list" where
  "blocking_projects d =
     filter (\<lambda>pr. completed_date pr \<noteq> None \<and>
                  list_ex (\<lambda>ip. ip_project_id ip = project_id pr \<and> 0 < checked_out_quantity ip)
                    (item_projects d) \<and>
                  \<not> list_ex (\<lambda>ip. ip_project_id ip = project_id pr \<and>
                                   checked_out_quantity_holder ip = 99999)
                      (item_projects d))
       (projects d)"

subsection \<open>First pass: items that are no longer in the report\<close>

definition irreconcilable_message :: "string \<Rightarrow> string" where
  "irreconcilable_message sid =
     sid @ '' is not found in Studio upload, and at least one '' @
     ''of this item is currently reserved to a project. '' @
     ''This issue is irreconcilable.''"

text \<open>Lines 118-132: the items of one studio id that is not in the report.
  \<^verbatim>\<open>item.available_quantity + item.reserved_quantity\<close> raises on a NULL.\<close>

fun first_pass_items ::
    "items_u list \<Rightarrow> string \<Rightarrow> items list \<Rightarrow> string list \<Rightarrow> exn + string list step" where
  "first_pass_items us sid [] items_to_delete = Inr (Continue items_to_delete)"
| "first_pass_items us sid (it # its) items_to_delete =
     (case (available_quantity it, reserved_quantity it) of
        (Some a, Some r) \<Rightarrow>
          if 0 < a + r
          then (case find (\<lambda>u. iu_item_id u = item_id it \<and> stage u = ''r'') us of
                  Some item_u \<Rightarrow>
                    Inr (Return (Success_False (irreconcilable_message sid)) items_to_delete)
                | None \<Rightarrow> first_pass_items us sid its (items_to_delete @ [sku_num it]))
          else first_pass_items us sid its items_to_delete
      | _ \<Rightarrow> Inl TypeError)"

text \<open>Lines 115-132: the loop over the distinct studio ids of \<^verbatim>\<open>Items\<close>; \<open>ext\<close> is
  \<^verbatim>\<open>df["Inventory Id"].str.strip().unique().tolist()\<close>.\<close>

fun first_pass ::
    "database \<Rightarrow> string list \<Rightarrow> string list \<Rightarrow> string list \<Rightarrow> exn + string list step" where
  "first_pass d ext [] items_to_delete = Inr (Continue items_to_delete)"
| "first_pass d ext (sid # sids) items_to_delete =
     (if sid \<notin> set ext
      then (case first_pass_items (items_us d) sid
                   (filter (\<lambda>it. studio_id it = sid) (items_tbl d)) items_to_delete of
              Inl e \<Rightarrow> Inl e
            | Inr (Return resp dels) \<Rightarrow> Inr (Return resp dels)
            | Inr (Continue dels) \<Rightarrow> first_pass d ext sids dels)
      else first_pass d ext sids items_to_delete)"

subsection \<open>Second pass: the rows of the report\<close>

text \<open>\<^verbatim>\<open>d[k] = v\<close> on a dictionary: the value of an existing key is replaced in place, a new
  key goes to the end.\<close>

fun dict_set :: "'k \<Rightarrow> 'v \<Rightarrow> ('k \<times> 'v) list \<Rightarrow> ('k \<times> 'v) list" where
  "dict_set k v [] = [(k, v)]"
| "dict_set k v ((k', v') # kvs) =
     (if k' = k then (k', v) # kvs else (k', v') # dict_set k v kvs)"

type_synonym field_changes = "(string \<times> (string \<times> field_value) list) list"

text \<open>Lines 182-183: \<^verbatim>\<open>items_to_change.setdefault(item.sku_num, {})[field_name] =
  new_value\<close>.\<close>

definition register_change ::
    "string \<Rightarrow> string \<Rightarrow> field_value \<Rightarrow> field_changes \<Rightarrow> field_changes" where
  "register_change sku field_name new_value ch =
     dict_set sku
       (dict_set field_name new_value (case map_of ch sku of None \<Rightarrow> [] | Some fs \<Rightarrow> fs)) ch"

text \<open>Lines 137-139: \<^verbatim>\<open>norm\<close>; a NULL column is already the empty string here.\<close>

definition norm :: "string \<Rightarrow> string" where
  "norm val = strip val"

definition unquote :: "string \<Rightarrow> string" where
  "unquote s = filter (\<lambda>c. c \<noteq> CHR 0x22) s"

text \<open>Lines 186-205: the field comparisons, in the source's order. \<^verbatim>\<open>float("")\<close> raises
  on a blank price cell.\<close>

definition compare_fields :: "items \<Rightarrow> snapshot_row \<Rightarrow> field_changes \<Rightarrow> exn + field_changes" where
  "compare_fields it r ch0 =
     (let sku = sku_num it;
          ch1 = (if norm (description it) \<noteq> strip (row_description r)
                 then register_change sku ''description'' (Str (strip (row_description r))) ch0
                 else ch0)
      in case selling_price r of
           None \<Rightarrow> Inl ValueError
         | Some sp \<Rightarrow>
             (let ch2 = (if sale_price it \<noteq> sp
                         then register_change sku ''sale_price'' (Num sp) ch1 else ch1)
              in case total_cost r of
                   None \<Rightarrow> Inl ValueError
                 | Some tc \<Rightarrow>
                     (let ch3 = (if unit_cost it \<noteq> tc
                                 then register_change sku ''unit_cost'' (Num tc) ch2 else ch2);
                          ch4 = (if norm (vendor it) \<noteq> strip (row_vendor r)
                                 then register_change sku ''vendor'' (Str (strip (row_vendor r))) ch3
                                 else ch3);
                          ch5 = (if unquote (norm (dimensions it)) \<noteq>
                                    unquote (strip (row_dimensions r))
                                 then register_change sku ''dimensions''
                                        (Str (strip (row_dimensions r))) ch4
                                 else ch4);
                          ch6 = (if norm (sales_code it) \<noteq> strip (row_sales_code r)
                                 then register_change sku ''sales_code''
                                        (Str (strip (row_sales_code r))) ch5
                                 else ch5);
                          ch7 = (if norm (location it) \<noteq> strip (row_location r)
                                 then register_change sku ''location''
                                        (Str (strip (row_location r))) ch6
                                 else ch6);
                          ch8 = (if norm (item_code_1 it) \<noteq> strip (row_item_code_1 r)
                                 then register_change sku ''item_code_1''
                                        (Str (strip (row_item_code_1 r))) ch7
                                 else ch7);
                          ch9 = (if norm (item_code_2 it) \<noteq> strip (row_item_code_2 r)
                                 then register_change sku ''item_code_2''
                                        (Str (strip (row_item_code_2 r))) ch8
                                 else ch8);
                          ch10 = (if norm (category it) \<noteq> strip (sub_category r)
                                  then register_change sku ''category''
                                         (Str (strip (sub_category r))) ch9
                                  else ch9)
                      in Inr ch10)))"

text \<open>Lines 162-176: the quantity columns of a matched item are made non-null and
  consistent. The result is the item and the flag \<^verbatim>\<open>item_fixes\<close>.\<close>

definition fix_quantities :: "items \<Rightarrow> items \<times> bool" where
  "fix_quantities it =
     (let it1 = (if available_quantity it = None then it\<lparr>available_quantity := Some 0\<rparr> else it);
          it2 = (if reserved_quantity it1 = None then it1\<lparr>reserved_quantity := Some 0\<rparr>
                 else it1);
          s = the (available_quantity it2) + the (reserved_quantity it2);
          it3 = (if total_quantity it2 = None then it2\<lparr>total_quantity := Some s\<rparr> else it2);
          it4 = (if Some s \<noteq> total_quantity it3 then it3\<lparr>total_quantity := Some s\<rparr> else it3)
      in (it4, available_quantity it = None \<or> reserved_quantity it1 = None \<or>
               total_quantity it2 = None \<or> Some s \<noteq> total_quantity it3))"

text \<open>Modelled from the spec: \<^verbatim>\<open>qr_code_generator\<close> is not under src/. The spec has
  \<^verbatim>\<open>generate(description, sku, location, count)\<close> return one asset for each of the
  \<open>count\<close> units.\<close>

definition qr_code_generator :: "string \<Rightarrow> string \<Rightarrow> string \<Rightarrow> int \<Rightarrow> qr_label list" where
  "qr_code_generator desc sku loc labels_needed =
     replicate (nat labels_needed) \<lparr>q_description = desc, q_sku = sku, q_location = loc\<rparr>"

record diff_state =
  d_items :: "items list"
  d_new_items :: "(string \<times> new_item) list"
  d_items_to_change :: field_changes
  d_items_to_subtract :: "(string \<times> int) list"
  all_qr_codes :: "qr_label list"
  d_draws :: "int list"

text \<open>Lines 160-225: a row that matches an item. \<^verbatim>\<open>int(float(""))\<close> raises on a blank
  quantity cell, and the comparison with a NULL \<^verbatim>\<open>previous_total_quantity\<close> raises.\<close>

definition existing_item_row :: "items \<Rightarrow> snapshot_row \<Rightarrow> diff_state \<Rightarrow> exn + diff_state" where
  "existing_item_row it0 r st =
     (let (it, item_fixes) = fix_quantities it0;
          st1 = (if item_fixes
                 then st\<lparr>d_items := map (\<lambda>x. if item_id x = item_id it then it else x)
                                        (d_items st)\<rparr>
                 else st)
      in case compare_fields it r (d_items_to_change st1) of
           Inl e \<Rightarrow> Inl e
         | Inr ch \<Rightarrow>
             (case quantity_available r of
                None \<Rightarrow> Inl ValueError
              | Some studio_available \<Rightarrow>
                  (case previous_total_quantity it of
                     None \<Rightarrow> Inl TypeError
                   | Some prev \<Rightarrow>
                       if prev < studio_available
                       then Inr (st1\<lparr>d_items_to_change := ch,
                                     all_qr_codes := all_qr_codes st1 @
                                       qr_code_generator (strip (row_description r)) (sku_num it)
                                         (strip (row_location r)) (studio_available - prev)\<rparr>)
                       else if studio_available < the (total_quantity it)
                       then Inr (st1\<lparr>d_items_to_change := ch,
                                     d_items_to_subtract :=
                                       dict_set (sku_num it)
                                         (the (total_quantity it) - studio_available)
                                         (d_items_to_subtract st1)\<rparr>)
                       else Inr (st1\<lparr>d_items_to_change := ch\<rparr>))))"

text \<open>Lines 232-237: a random eight-digit sku is drawn until one is not among the studio
  ids. The draws of \<^verbatim>\<open>random.randint(10_000_000, 99_999_999)\<close> are given as a list; a
  list that runs out before a free sku is drawn stands for the loop going on.\<close>

fun draw_sku :: "string list \<Rightarrow> int list \<Rightarrow> (string \<times> int list) option" where
  "draw_sku studio_ids [] = None"
| "draw_sku studio_ids (n # ns) =
     (if str_int n \<notin> set studio_ids then Some (str_int n, ns) else draw_sku studio_ids ns)"

text \<open>Lines 228-273: a row that matches no item is staged as a new item.\<close>

definition new_item_row :: "string list \<Rightarrow> snapshot_row \<Rightarrow> diff_state \<Rightarrow> exn + diff_state" where
  "new_item_row studio_ids r st =
     (case quantity_available r of
        None \<Rightarrow> Inl ValueError
      | Some labels_needed \<Rightarrow>
          (case draw_sku studio_ids (d_draws st) of
             None \<Rightarrow> Inl OutOfDraws
           | Some (sku, ns) \<Rightarrow>
               (case selling_price r of
                  None \<Rightarrow> Inl ValueError
                | Some sp \<Rightarrow>
                    (case total_cost r of
                       None \<Rightarrow> Inl ValueError
                     | Some tc \<Rightarrow>
                         Inr (st\<lparr>d_draws := ns,
                                 all_qr_codes := all_qr_codes st @
                                   (if 0 < labels_needed
                                    then qr_code_generator (strip (row_description r)) sku
                                           (strip (row_location r)) labels_needed
                                    else []),
                                 d_new_items :=
                                   dict_set sku
                                     \<lparr>n_description = strip (row_description r),
                                      n_studio_id = strip (id_text r),
                                      n_sale_price = sp, n_unit_cost = tc,
                                      n_vendor = strip (row_vendor r),
                                      n_dimensions = strip (row_dimensions r),
                                      n_sales_code = strip (row_sales_code r),
                                      n_location = strip (row_location r),
                                      n_item_code_1 = strip (row_item_code_1 r),
                                      n_item_code_2 = strip (row_item_code_2 r),
                                      n_category = strip (sub_category r),
                                      n_available_quantity = labels_needed,
                                      n_available_quantity_holder = labels_needed,
                                      n_total_quantity = labels_needed,
                                      n_total_quantity_holder = labels_needed,
                                      n_previous_total_quantity = labels_needed,
                                      n_previous_total_quantity_holder = labels_needed,
                                      n_image = (case row_image r of
                                                   None \<Rightarrow> None
                                                 | Some img \<Rightarrow> if img = [] then None else Some img)\<rparr>
                                     (d_new_items st)\<rparr>)))))"

text \<open>Lines 142-273: one row, then the loop over the rows that were kept.\<close>

definition second_pass_row :: "string list \<Rightarrow> snapshot_row \<Rightarrow> diff_state \<Rightarrow> exn + diff_state" where
  "second_pass_row studio_ids r st =
     (case find (\<lambda>it. studio_id it = strip (id_text r)) (d_items st) of
        Some it \<Rightarrow> existing_item_row it r st
      | None \<Rightarrow> new_item_row studio_ids r st)"

fun second_pass :: "string list \<Rightarrow> snapshot_row list \<Rightarrow> diff_state \<Rightarrow> exn + diff_state" where
  "second_pass studio_ids [] st = Inr st"
| "second_pass studio_ids (r # rs) st =
     (case second_pass_row studio_ids r st of
        Inl e \<Rightarrow> Inl e
      | Inr st1 \<Rightarrow> second_pass studio_ids rs st1)"

subsection \<open>The view\<close>

definition duplicate_message :: "snapshot_row list \<Rightarrow> string" where
  "duplicate_message ds =
     ''Duplicate Inventory Ids found: '' @ join '', '' (unique (map id_text ds)) @ ''. '' @
     ''Please review Studio report and resolve duplicates before proceeding.''"

text \<open>Lines 99-304: the diff proper, once the report has passed the duplicate check.
  Comparing a blank \<^verbatim>\<open>Quantity Ordered\<close> cell with 0 raises. The helpers \<^verbatim>\<open>create_log\<close>
  and \<^verbatim>\<open>qr_pdf_generator\<close> are not under src/: the log entry is kept as its action code
  \<^verbatim>\<open>"NI"\<close>, the label sheet as the list of the labels collected, and \<^verbatim>\<open>pdf_path\<close> as the
  file name below \<^verbatim>\<open>MEDIA_URL\<close>.\<close>

definition diff_report :: "upload_request \<Rightarrow> world \<Rightarrow> exn + (json_response \<times> world)" where
  "diff_report req w =
     (if list_ex (\<lambda>r. quantity_ordered r = None) (report_rows req) then Inl TypeError
      else
        (let df = filter (\<lambda>r. 0 < the (quantity_ordered r)) (report_rows req);
             studio_ids = unique (map studio_id (items_tbl (db w)));
             ext = unique (map (\<lambda>r. strip (id_text r)) df)
         in case first_pass (db w) ext studio_ids [] of
              Inl e \<Rightarrow> Inl e
            | Inr (Return resp dels) \<Rightarrow> Inr (resp, w)
            | Inr (Continue items_to_delete) \<Rightarrow>
                (case second_pass studio_ids df
                        \<lparr>d_items = items_tbl (db w), d_new_items = [], d_items_to_change = [],
                         d_items_to_subtract = [], all_qr_codes = [],
                         d_draws = random_draws req\<rparr> of
                   Inl e \<Rightarrow> Inl e
                 | Inr st \<Rightarrow>
                     Inr (File_Processed
                            (\<not> (length (d_new_items st) = 0 \<and> length (d_items_to_change st) = 0 \<and>
                                length items_to_delete = 0 \<and>
                                length (d_items_to_subtract st) = 0))
                            (if 0 < length (all_qr_codes st) then Some ''qr_stickers.pdf''
                             else None),
                          w\<lparr>db := (db w)\<lparr>items_tbl := d_items st,
                                          action_logs := action_logs (db w) @ [''NI'']\<rparr>,
                            session := (session w)
                              \<lparr>s_new_items := Some (d_new_items st),
                               s_items_to_change := Some (d_items_to_change st),
                               s_items_to_delete := Some items_to_delete,
                               s_items_to_subtract := Some (d_items_to_subtract st)\<rparr>,
                            qr_stickers := (if 0 < length (all_qr_codes st)
                                            then Some (all_qr_codes st)
                                            else qr_stickers w)\<rparr>))))"

text \<open>The view \<^verbatim>\<open>add_inventory(request)\<close>: the rollup of \<^verbatim>\<open>Items\<close>, the gates, the
  duplicate check (joining the identifiers raises when one of them is a blank cell), and
  the diff.\<close>

definition add_inventory :: "upload_request \<Rightarrow> world \<Rightarrow> exn + (json_response \<times> world)" where
  "add_inventory req w0 =
     (let w = w0\<lparr>db := rollup_items (db w0)\<rparr>
      in if http_method req \<noteq> ''POST'' \<or> \<not> has_inventory_file req
         then Inr (Success_False ''Invalid Request'', w)
         else if blocking_projects (db w) \<noteq> []
         then Inr (Success_False
                ''Please update Studio with necessary changes before uploading a new report.'',
                w)
         else if manual_changes_pending req
         then Inr (Success_False
                ''Please finish updating items to Studio before uploading a new report.'', w)
         else if 0 < length (dupes (report_rows req))
         then (if list_ex (\<lambda>r. inventory_id r = None) (dupes (report_rows req))
               then Inl TypeError
               else Inr (Success_False (duplicate_message (dupes (report_rows req))), w))
         else diff_report req w)"

section \<open>Notions used in the statements\<close>

text \<open>The stolen-reservation events of a batch, one triple (project, sku, quantity) for
  every item entry of every project entry, in the order of \<^verbatim>\<open>stolen_projects\<close>.\<close>

definition stolen_pairs :: "stolen_project list \<Rightarrow> (int \<times> string \<times> int) list" where
  "stolen_pairs sps = concat (map (\<lambda>(q, its). map (\<lambda>(s, n). (q, s, n)) its) sps)"

text \<open>No project occurs twice in \<^verbatim>\<open>stolen_projects\<close>, and no sku twice under a project.\<close>

definition stolen_keys_distinct :: "stolen_project list \<Rightarrow> bool" where
  "stolen_keys_distinct sps \<longleftrightarrow>
     distinct (map fst sps) \<and> list_all (\<lambda>(q, its). distinct (map fst its)) sps"

text \<open>The mail e is the notification of the event (q, s, n): it goes to the users of
  project q and the superusers, names the claiming project and project q, and carries the
  sku s with the quantity n.\<close>

definition notifies :: "database \<Rightarrow> string \<Rightarrow> email_message \<Rightarrow> int \<times> string \<times> int \<Rightarrow> bool" where
  "notifies d new_name e ev =
     (case ev of (q, s, n) \<Rightarrow>
        e_sku e = s \<and> adjusted_quantity e = n \<and> recipients e = recipient_emails d q \<and>
        new_project_name e = new_name \<and>
        (case objects_get (\<lambda>pr. project_id pr = q) (projects d) of
           Inl _ \<Rightarrow> False
         | Inr pr \<Rightarrow> e_project_name e = project_name pr))"

text \<open>The rows the diff keeps (line 100), and an item of \<^verbatim>\<open>Items\<close> that is unmatched: its
  studio id is not the stripped identifier of any kept row.\<close>

definition kept_rows :: "snapshot_row list \<Rightarrow> snapshot_row list" where
  "kept_rows rs = filter (\<lambda>r. 0 < the (quantity_ordered r)) rs"

definition unmatched :: "snapshot_row list \<Rightarrow> items \<Rightarrow> bool" where
  "unmatched rs it \<longleftrightarrow> studio_id it \<notin> set (map (\<lambda>r. strip (id_text r)) (kept_rows rs))"

text \<open>The total of an item, \<^verbatim>\<open>available_quantity + reserved_quantity\<close>, is positive; and
  the item has a positive total and a unit in stage \<^verbatim>\<open>"r"\<close>.\<close>

definition positive_total :: "items \<Rightarrow> bool" where
  "positive_total it \<longleftrightarrow>
     (case (available_quantity it, reserved_quantity it) of
        (Some a, Some r) \<Rightarrow> 0 < a + r
      | _ \<Rightarrow> False)"

definition strands_reservation :: "items_u list \<Rightarrow> items \<Rightarrow> bool" where
  "strands_reservation us it \<longleftrightarrow>
     positive_total it \<and> list_ex (\<lambda>u. iu_item_id u = item_id it \<and> stage u = ''r'') us"

text \<open>The key constraints of the tables: room ids and project ids are primary keys, every
  \<^verbatim>\<open>ItemRoom\<close> row points to a room, there is one \<^verbatim>\<open>ItemRoom\<close> row for an item and a room,
  one \<^verbatim>\<open>ItemProject\<close> row for an item and a project, and one Unassigned room for a
  project.\<close>

definition schema_ok :: "database \<Rightarrow> bool" where
  "schema_ok d \<longleftrightarrow>
     distinct (map room_id (rooms d)) \<and>
     list_all (\<lambda>ir. ir_room_id ir \<in> set (map room_id (rooms d))) (item_rooms d) \<and>
     distinct (map (\<lambda>ir. (ir_item_id ir, ir_room_id ir)) (item_rooms d)) \<and>
     distinct (map (\<lambda>ip. (ip_item_id ip, ip_project_id ip)) (item_projects d)) \<and>
     distinct (map project_id (projects d)) \<and>
     distinct (map r_project_id (filter (\<lambda>r. room_name r = ''Unassigned'') (rooms d)))"

text \<open>The sum of \<^verbatim>\<open>item_quantity\<close> over the rows of item i in the rooms of project p, and
  \<^verbatim>\<open>ItemProject.reserved_quantity\<close> of item i and project p (0 when there is no row).\<close>

definition room_total :: "database \<Rightarrow> int \<Rightarrow> int \<Rightarrow> int" where
  "room_total d i p =
     sum_list (map item_quantity (item_rooms_of (rooms d) (item_rooms d) i p))"

definition reserved_quantity_of :: "database \<Rightarrow> int \<Rightarrow> int \<Rightarrow> int" where
  "reserved_quantity_of d i p =
     sum_list (map ip_reserved_quantity
       (filter (\<lambda>ip. ip_item_id ip = i \<and> ip_project_id ip = p) (item_projects d)))"

text \<open>The quantities of the stolen-reservation events recorded for project q and sku s.\<close>

definition stolen_quantities :: "stolen_project list \<Rightarrow> int \<Rightarrow> string \<Rightarrow> int list" where
  "stolen_quantities sps q s =
     map (\<lambda>(q', s', n). n) (filter (\<lambda>(q', s', n). q' = q \<and> s' = s) (stolen_pairs sps))"

section \<open>Example states\<close>

text \<open>Concrete tables and requests on which the theorems below are instantiated.\<close>

definition mk_item ::
    "int \<Rightarrow> string \<Rightarrow> string \<Rightarrow> int option \<Rightarrow> int option \<Rightarrow> int option \<Rightarrow> items" where
  "mk_item i sku sid av rs tot =
     \<lparr>item_id = i, sku_num = sku, studio_id = sid, description = [], sale_price = 0,
      unit_cost = 0, vendor = [], dimensions = [], sales_code = [], location = [],
      item_code_1 = [], item_code_2 = [], category = [],
      available_quantity = av, reserved_quantity = rs, total_quantity = tot,
      previous_total_quantity = tot\<rparr>"

definition empty_session :: session where
  "empty_session =
     \<lparr>checkout_session_item_us = None, checkout_session_items = None, s_new_items = None,
      s_items_to_change = None, s_items_to_delete = None, s_items_to_subtract = None\<rparr>"

definition ex_projects :: "project list" where
  "ex_projects = [\<lparr>project_id = 1, project_name = ''Alpha'', completed_date = None\<rparr>,
                  \<lparr>project_id = 2, project_name = ''Beta'', completed_date = None\<rparr>]"

definition ex_users :: "user list" where
  "ex_users = [\<lparr>user_id = 7, email = ''bea@beta.example'', is_superuser = False\<rparr>,
               \<lparr>user_id = 8, email = ''root@studio.example'', is_superuser = True\<rparr>,
               \<lparr>user_id = 9, email = ''al@alpha.example'', is_superuser = False\<rparr>]"

definition ex_user_projects :: "user_project list" where
  "ex_user_projects = [\<lparr>up_user_id = 7, up_project_id = 2\<rparr>,
                       \<lparr>up_user_id = 9, up_project_id = 1\<rparr>]"

definition ex_db :: database where
  "ex_db =
     \<lparr>items_us = [], items_tbl = [], rooms = [], item_rooms = [], item_projects = [],
      projects = ex_projects, users = ex_users, user_projects = ex_user_projects,
      item_logs = [], action_logs = []\<rparr>"

definition ex_world :: "database \<Rightarrow> int list \<Rightarrow> world" where
  "ex_world d uids =
     \<lparr>db = d, session = empty_session\<lparr>checkout_session_item_us := Some uids\<rparr>,
      outbox = [], qr_stickers = None\<rparr>"

text \<open>A checkout into project 1 (Alpha).\<close>

definition req1 :: checkout_request where
  "req1 = \<lparr>body_project_id = 1, user_full_name = ''Ann Lee''\<rparr>"

text \<open>One available unit of item 10; a row of the item in a room of project 2 whose
  \<^verbatim>\<open>all_reserved\<close> is 0 while its \<^verbatim>\<open>item_quantity\<close> is 3.\<close>

definition sweep_db :: database where
  "sweep_db =
     ex_db\<lparr>items_us := [\<lparr>item_u_id = 1, iu_item_id = 10, stage = ''a'', iu_project_id = None\<rparr>],
           items_tbl := [mk_item 10 ''SKU10'' ''ST10'' (Some 1) (Some 0) (Some 1)],
           rooms := [\<lparr>room_id = 5, r_project_id = 2, room_name = ''Kitchen'', details = []\<rparr>],
           item_rooms := [\<lparr>ir_item_id = 10, ir_room_id = 5, item_quantity = 3,
                           item_quantity_holder = 3, all_reserved = 0\<rparr>]\<rparr>"

text \<open>A batch of three units of item 10, the second of which is already checked out.\<close>

definition halt_db :: database where
  "halt_db =
     ex_db\<lparr>items_us := [\<lparr>item_u_id = 1, iu_item_id = 10, stage = ''a'', iu_project_id = None\<rparr>,
                        \<lparr>item_u_id = 2, iu_item_id = 10, stage = ''c'', iu_project_id = Some 2\<rparr>,
                        \<lparr>item_u_id = 3, iu_item_id = 10, stage = ''a'', iu_project_id = None\<rparr>],
           items_tbl := [mk_item 10 ''SKU10'' ''ST10'' (Some 2) (Some 0) (Some 2)]\<rparr>"

definition halt_db_after :: database where
  "halt_db_after =
     halt_db\<lparr>items_us := [\<lparr>item_u_id = 1, iu_item_id = 10, stage = ''c'', iu_project_id = Some 1\<rparr>,
                        \<lparr>item_u_id = 2, iu_item_id = 10, stage = ''c'', iu_project_id = Some 2\<rparr>,
                        \<lparr>item_u_id = 3, iu_item_id = 10, stage = ''a'', iu_project_id = None\<rparr>],
           rooms := [\<lparr>room_id = 1, r_project_id = 1, room_name = ''Unassigned'',
                      details = ''Auto-created unassigned room''\<rparr>],
           item_rooms := [\<lparr>ir_item_id = 10, ir_room_id = 1, item_quantity = 1,
                           item_quantity_holder = 1, all_reserved = 1\<rparr>],
           item_projects := [\<lparr>ip_item_id = 10, ip_project_id = 1, ip_reserved_quantity = 1,
                              checked_out_quantity = 0, checked_out_quantity_holder = 0\<rparr>],
           item_logs := [\<lparr>log_code = ''c'', log_item_u_id = 1, log_project_id = 1\<rparr>]\<rparr>"

text \<open>A single unit of item 10 in a given stage and on a given project.\<close>

definition unit_db :: "string \<Rightarrow> int option \<Rightarrow> database" where
  "unit_db st pr =
     ex_db\<lparr>items_us := [\<lparr>item_u_id = 1, iu_item_id = 10, stage = st, iu_project_id = pr\<rparr>],
           items_tbl := [mk_item 10 ''SKU10'' ''ST10'' (Some 1) (Some 0) (Some 1)]\<rparr>"

text \<open>A unit of item 10 in the move stage and an available unit of the same item.\<close>

definition moving_db :: database where
  "moving_db =
     ex_db\<lparr>items_us := [\<lparr>item_u_id = 1, iu_item_id = 10, stage = ''m'', iu_project_id = None\<rparr>,
                        \<lparr>item_u_id = 2, iu_item_id = 10, stage = ''a'', iu_project_id = None\<rparr>],
           items_tbl := [mk_item 10 ''SKU10'' ''ST10'' (Some 2) (Some 0) (Some 2)]\<rparr>"

text \<open>One unit of item 10 and one of item 11, both reserved on project 2 (Beta) and held
  in its room 5.\<close>

definition steal_db :: database where
  "steal_db =
     ex_db\<lparr>items_us := [\<lparr>item_u_id = 1, iu_item_id = 10, stage = ''r'', iu_project_id = Some 2\<rparr>,
                        \<lparr>item_u_id = 2, iu_item_id = 11, stage = ''r'', iu_project_id = Some 2\<rparr>],
           items_tbl := [mk_item 10 ''SKU10'' ''ST10'' (Some 0) (Some 1) (Some 1),
                         mk_item 11 ''SKU11'' ''ST11'' (Some 0) (Some 1) (Some 1)],
           rooms := [\<lparr>room_id = 5, r_project_id = 2, room_name = ''Kitchen'', details = []\<rparr>],
           item_rooms := [\<lparr>ir_item_id = 10, ir_room_id = 5, item_quantity = 1,
                           item_quantity_holder = 1, all_reserved = 1\<rparr>,
                          \<lparr>ir_item_id = 11, ir_room_id = 5, item_quantity = 1,
                           item_quantity_holder = 1, all_reserved = 1\<rparr>],
           item_projects := [\<lparr>ip_item_id = 10, ip_project_id = 2, ip_reserved_quantity = 1,
                              checked_out_quantity = 0, checked_out_quantity_holder = 0\<rparr>,
                             \<lparr>ip_item_id = 11, ip_project_id = 2, ip_reserved_quantity = 1,
                              checked_out_quantity = 0, checked_out_quantity_holder = 0\<rparr>]\<rparr>"

definition moving_db_after :: database where
  "moving_db_after =
     moving_db\<lparr>
       items_us := [\<lparr>item_u_id = 1, iu_item_id = 10, stage = ''c'', iu_project_id = Some 1\<rparr>,
                    \<lparr>item_u_id = 2, iu_item_id = 10, stage = ''m'', iu_project_id = None\<rparr>],
       rooms := [\<lparr>room_id = 1, r_project_id = 1, room_name = ''Unassigned'',
                  details = ''Auto-created unassigned room''\<rparr>],
       item_rooms := [\<lparr>ir_item_id = 10, ir_room_id = 1, item_quantity = 1,
                       item_quantity_holder = 1, all_reserved = 1\<rparr>],
       item_projects := [],
       item_logs := [\<lparr>log_code = ''c'', log_item_u_id = 1, log_project_id = 1\<rparr>]\<rparr>"

definition steal_db_after :: database where
  "steal_db_after =
     steal_db\<lparr>
       items_us := [\<lparr>item_u_id = 1, iu_item_id = 10, stage = ''c'', iu_project_id = Some 1\<rparr>,
                    \<lparr>item_u_id = 2, iu_item_id = 11, stage = ''c'', iu_project_id = Some 1\<rparr>],
       rooms := [\<lparr>room_id = 5, r_project_id = 2, room_name = ''Kitchen'', details = []\<rparr>,
                 \<lparr>room_id = 6, r_project_id = 1, room_name = ''Unassigned'',
                  details = ''Auto-created unassigned room''\<rparr>],
       item_rooms := [\<lparr>ir_item_id = 10, ir_room_id = 6, item_quantity = 1,
                       item_quantity_holder = 1, all_reserved = 1\<rparr>,
                      \<lparr>ir_item_id = 11, ir_room_id = 6, item_quantity = 1,
                       item_quantity_holder = 1, all_reserved = 1\<rparr>],
       item_projects := [\<lparr>ip_item_id = 10, ip_project_id = 2, ip_reserved_quantity = 0,
                          checked_out_quantity = 0, checked_out_quantity_holder = 0\<rparr>,
                         \<lparr>ip_item_id = 11, ip_project_id = 2, ip_reserved_quantity = 0,
                          checked_out_quantity = 0, checked_out_quantity_holder = 0\<rparr>,
                         \<lparr>ip_item_id = 10, ip_project_id = 1, ip_reserved_quantity = 1,
                          checked_out_quantity = 0, checked_out_quantity_holder = 0\<rparr>,
                         \<lparr>ip_item_id = 11, ip_project_id = 1, ip_reserved_quantity = 1,
                          checked_out_quantity = 0, checked_out_quantity_holder = 0\<rparr>],
       item_logs := [\<lparr>log_code = ''c'', log_item_u_id = 1, log_project_id = 1\<rparr>,
                     \<lparr>log_code = ''c'', log_item_u_id = 2, log_project_id = 1\<rparr>]\<rparr>"

definition steal_outbox :: "email_message list" where
  "steal_outbox =
     [\<lparr>subject = ''Alert: Item Reservation Adjusted'',
       recipients = {''bea@beta.example'', ''root@studio.example''},
       new_project_name = ''Alpha'', e_project_name = ''Beta'', e_item_name = ''ST10'',
       e_sku = ''SKU10'', adjusted_by = ''Ann Lee'', adjusted_quantity = 1\<rparr>,
      \<lparr>subject = ''Alert: Item Reservation Adjusted'',
       recipients = {''bea@beta.example'', ''root@studio.example''},
       new_project_name = ''Alpha'', e_project_name = ''Beta'', e_item_name = ''ST11'',
       e_sku = ''SKU11'', adjusted_by = ''Ann Lee'', adjusted_quantity = 1\<rparr>]"

text \<open>A unit of item 10 in the move stage and a unit of the same item reserved on
  project 2 (Beta), which holds it in room 5. The \<^verbatim>\<open>ItemProject\<close> quantities agree with the
  \<^verbatim>\<open>ItemRoom\<close> sums: 1 for project 2, and nothing for project 1. Then the tables after
  the first unit, and after both.\<close>

definition mixed_db :: database where
  "mixed_db =
     ex_db\<lparr>items_us := [\<lparr>item_u_id = 1, iu_item_id = 10, stage = ''m'', iu_project_id = None\<rparr>,
                        \<lparr>item_u_id = 2, iu_item_id = 10, stage = ''r'', iu_project_id = Some 2\<rparr>],
           items_tbl := [mk_item 10 ''SKU10'' ''ST10'' (Some 0) (Some 1) (Some 1)],
           rooms := [\<lparr>room_id = 5, r_project_id = 2, room_name = ''Kitchen'', details = []\<rparr>],
           item_rooms := [\<lparr>ir_item_id = 10, ir_room_id = 5, item_quantity = 1,
                           item_quantity_holder = 1, all_reserved = 1\<rparr>],
           item_projects := [\<lparr>ip_item_id = 10, ip_project_id = 2, ip_reserved_quantity = 1,
                              checked_out_quantity = 0, checked_out_quantity_holder = 0\<rparr>]\<rparr>"

definition mixed_db_mid :: database where
  "mixed_db_mid =
     mixed_db\<lparr>
       items_us := [\<lparr>item_u_id = 1, iu_item_id = 10, stage = ''c'', iu_project_id = Some 1\<rparr>,
                    \<lparr>item_u_id = 2, iu_item_id = 10, stage = ''r'', iu_project_id = Some 2\<rparr>],
       rooms := [\<lparr>room_id = 5, r_project_id = 2, room_name = ''Kitchen'', details = []\<rparr>,
                 \<lparr>room_id = 6, r_project_id = 1, room_name = ''Unassigned'',
                  details = ''Auto-created unassigned room''\<rparr>],
       item_rooms := [\<lparr>ir_item_id = 10, ir_room_id = 5, item_quantity = 1,
                       item_quantity_holder = 1, all_reserved = 1\<rparr>,
                      \<lparr>ir_item_id = 10, ir_room_id = 6, item_quantity = 1,
                       item_quantity_holder = 1, all_reserved = 1\<rparr>],
       item_logs := [\<lparr>log_code = ''c'', log_item_u_id = 1, log_project_id = 1\<rparr>]\<rparr>"

definition mixed_db_after :: database where
  "mixed_db_after =
     mixed_db\<lparr>
       items_us := [\<lparr>item_u_id = 1, iu_item_id = 10, stage = ''c'', iu_project_id = Some 1\<rparr>,
                    \<lparr>item_u_id = 2, iu_item_id = 10, stage = ''c'', iu_project_id = Some 1\<rparr>],
       rooms := [\<lparr>room_id = 5, r_project_id = 2, room_name = ''Kitchen'', details = []\<rparr>,
                 \<lparr>room_id = 6, r_project_id = 1, room_name = ''Unassigned'',
                  details = ''Auto-created unassigned room''\<rparr>],
       item_rooms := [\<lparr>ir_item_id = 10, ir_room_id = 6, item_quantity = 2,
                       item_quantity_holder = 2, all_reserved = 2\<rparr>],
       item_projects := [\<lparr>ip_item_id = 10, ip_project_id = 2, ip_reserved_quantity = 0,
                          checked_out_quantity = 0, checked_out_quantity_holder = 0\<rparr>,
                         \<lparr>ip_item_id = 10, ip_project_id = 1, ip_reserved_quantity = 2,
                          checked_out_quantity = 0, checked_out_quantity_holder = 0\<rparr>],
       item_logs := [\<lparr>log_code = ''c'', log_item_u_id = 1, log_project_id = 1\<rparr>,
                     \<lparr>log_code = ''c'', log_item_u_id = 2, log_project_id = 1\<rparr>]\<rparr>"

text \<open>Upload requests: a POST with a file and no pending manual changes.\<close>

definition mk_row :: "string option \<Rightarrow> int option \<Rightarrow> int option \<Rightarrow> snapshot_row" where
  "mk_row ident ordered avail =
     \<lparr>inventory_id = ident, row_description = [], selling_price = Some 0, total_cost = Some 0,
      row_vendor = [], row_dimensions = [], row_sales_code = [], row_location = [],
      row_item_code_1 = [], row_item_code_2 = [], sub_category = [],
      quantity_ordered = ordered, quantity_available = avail, row_image = None\<rparr>"

definition upload :: "snapshot_row list \<Rightarrow> upload_request" where
  "upload rs =
     \<lparr>http_method = ''POST'', has_inventory_file = True, manual_changes_pending = False,
      report_rows = rs, random_draws = [12345678]\<rparr>"

definition upload_world :: "database \<Rightarrow> world" where
  "upload_world d = \<lparr>db = d, session = empty_session, outbox = [], qr_stickers = None\<rparr>"

text \<open>Item 10 with two available and one reserved unit, and a stored total of 0.\<close>

definition stale_db :: database where
  "stale_db = ex_db\<lparr>items_tbl := [mk_item 10 ''SKU10'' ''ST10'' (Some 2) (Some 1) (Some 0)]\<rparr>"

text \<open>Items 10 (three units), 11 (one unit) and 12 (no unit left), and one unit of item 10
  in a given stage on project 2. The report below has a row for item 11 only.\<close>

definition absent_db :: "string \<Rightarrow> database" where
  "absent_db st =
     ex_db\<lparr>items_us := [\<lparr>item_u_id = 1, iu_item_id = 10, stage = st, iu_project_id = Some 2\<rparr>],
           items_tbl := [mk_item 10 ''SKU10'' ''ST10'' (Some 2) (Some 1) (Some 3),
                         mk_item 11 ''SKU11'' ''ST11'' (Some 1) (Some 0) (Some 1),
                         mk_item 12 ''SKU12'' ''ST12'' (Some 0) (Some 0) (Some 0)]\<rparr>"

definition report_11 :: "snapshot_row list" where
  "report_11 = [mk_row (Some ''ST11'') (Some 1) (Some 1)]"

text \<open>A unit of item 10 reserved on project 2, which holds no row of the item; its
  \<^verbatim>\<open>ItemProject\<close> row says 5.\<close>

definition norow_db :: database where
  "norow_db =
     ex_db\<lparr>items_us := [\<lparr>item_u_id = 1, iu_item_id = 10, stage = ''r'', iu_project_id = Some 2\<rparr>],
           items_tbl := [mk_item 10 ''SKU10'' ''ST10'' (Some 0) (Some 1) (Some 1)],
           item_projects := [\<lparr>ip_item_id = 10, ip_project_id = 2, ip_reserved_quantity = 5,
                              checked_out_quantity = 0, checked_out_quantity_holder = 0\<rparr>]\<rparr>"

definition norow_db_after :: database where
  "norow_db_after =
     norow_db\<lparr>
       items_us := [\<lparr>item_u_id = 1, iu_item_id = 10, stage = ''c'', iu_project_id = Some 1\<rparr>],
       rooms := [\<lparr>room_id = 1, r_project_id = 1, room_name = ''Unassigned'',
                  details = ''Auto-created unassigned room''\<rparr>],
       item_rooms := [\<lparr>ir_item_id = 10, ir_room_id = 1, item_quantity = 1,
                       item_quantity_holder = 1, all_reserved = 1\<rparr>],
       item_projects := [\<lparr>ip_item_id = 10, ip_project_id = 2, ip_reserved_quantity = 5,
                          checked_out_quantity = 0, checked_out_quantity_holder = 0\<rparr>,
                         \<lparr>ip_item_id = 10, ip_project_id = 1, ip_reserved_quantity = 1,
                          checked_out_quantity = 0, checked_out_quantity_holder = 0\<rparr>],
       item_logs := [\<lparr>log_code = ''c'', log_item_u_id = 1, log_project_id = 1\<rparr>]\<rparr>"

definition norow_outbox :: "email_message list" where
  "norow_outbox =
     [\<lparr>subject = ''Alert: Item Reservation Adjusted'',
       recipients = {''bea@beta.example'', ''root@studio.example''},
       new_project_name = ''Alpha'', e_project_name = ''Beta'', e_item_name = ''ST10'',
       e_sku = ''SKU10'', adjusted_by = ''Ann Lee'', adjusted_quantity = 1\<rparr>]"

section \<open>Properties of the checkout confirmation\<close>

lemmas checkout_defs = confirm_checkout_def checkout_staged_def checkout_item_u_def
  checkout_available_or_stolen_def checkout_moving_def mark_checked_out_def create_item_log_def
  back_out_previous_def delete_empty_item_rooms_def place_in_unassigned_def sync_item_project_def
  item_room_add_unit_def unassigned_get_or_create_def item_rooms_of_def room_in_project_def
  next_id_def objects_get_def prune_zero_reservations_def update_item_quantities_def
  recipient_emails_def Let_def

lemmas example_defs = mk_item_def empty_session_def ex_projects_def ex_users_def
  ex_user_projects_def ex_db_def ex_world_def req1_def

subsection \<open>The failure response\<close>

lemma checkout_item_u_Return:
  "checkout_item_u p uid ls = Inr (Return resp ls1) \<Longrightarrow>
   resp = Success_False ''There was an issue confirming this checkout session.''"
  by (auto simp: checkout_item_u_def Let_def split: sum.splits if_splits step.splits)

lemma checkout_loop_Return:
  "checkout_loop p uids ls = Inr (Return resp ls1) \<Longrightarrow>
   resp = Success_False ''There was an issue confirming this checkout session.''"
proof (induction uids arbitrary: ls)
  case Nil
  then show ?case by simp
next
  case (Cons uid uids)
  then show ?case
    by (auto split: sum.splits step.splits dest: checkout_item_u_Return)
qed

lemma checkout_staged_Return:
  "checkout_staged uiq req np uids w = Inr (Return resp w1) \<Longrightarrow>
   resp = Success_False ''There was an issue confirming this checkout session.''"
  by (auto simp: checkout_staged_def split: sum.splits step.splits dest: checkout_loop_Return)

subsection \<open>The end-of-batch sweep\<close>

text \<open>Claim C8. Whenever \<^verbatim>\<open>confirm_checkout\<close> answers with success, whatever the helper
  \<^verbatim>\<open>update_item_quantities\<close> does to the tables, every \<^verbatim>\<open>ItemRoom\<close> row that is left has
  \<^verbatim>\<open>all_reserved\<close> of at least 1: the last statement of the view deletes the others,
  whatever their \<^verbatim>\<open>item_quantity\<close>.\<close>

theorem sweep_after_successful_batch:
  assumes "confirm_checkout uiq req w = Inr (Success_True, w')"
  shows "\<forall>ir \<in> set (item_rooms (db w')). 1 \<le> all_reserved ir"
  using assms
  by (auto simp: confirm_checkout_def prune_zero_reservations_def
      split: sum.splits step.splits option.splits dest: checkout_staged_Return)

lemma sweep_example_run:
  "confirm_checkout update_item_quantities req1 (ex_world sweep_db [1]) =
   Inr (Success_True,
        \<lparr>db = sweep_db\<lparr>
           items_us := [\<lparr>item_u_id = 1, iu_item_id = 10, stage = ''c'', iu_project_id = Some 1\<rparr>],
           rooms := [\<lparr>room_id = 5, r_project_id = 2, room_name = ''Kitchen'', details = []\<rparr>,
                     \<lparr>room_id = 6, r_project_id = 1, room_name = ''Unassigned'',
                      details = ''Auto-created unassigned room''\<rparr>],
           item_rooms := [\<lparr>ir_item_id = 10, ir_room_id = 6, item_quantity = 1,
                           item_quantity_holder = 1, all_reserved = 1\<rparr>],
           item_projects := [\<lparr>ip_item_id = 10, ip_project_id = 1, ip_reserved_quantity = 1,
                              checked_out_quantity = 0, checked_out_quantity_holder = 0\<rparr>],
           item_logs := [\<lparr>log_code = ''c'', log_item_u_id = 1, log_project_id = 1\<rparr>]\<rparr>,
         session = empty_session, outbox = [], qr_stickers = None\<rparr>)"
  by (simp add: checkout_defs example_defs sweep_db_def)

theorem sweep_after_successful_batch_witness:
  "list_all (\<lambda>ir. 1 \<le> all_reserved ir)
     (item_rooms (db (snd (projr (confirm_checkout update_item_quantities req1
                                    (ex_world sweep_db [1]))))))"
  using sweep_after_successful_batch [OF sweep_example_run]
  by (simp add: sweep_example_run list_all_iff)

subsection \<open>A unit in an unexpected stage\<close>

lemma checkout_loop_append:
  "checkout_loop p (xs @ ys) ls =
     (case checkout_loop p xs ls of
        Inl e \<Rightarrow> Inl e
      | Inr (Return resp ls1) \<Rightarrow> Inr (Return resp ls1)
      | Inr (Continue ls1) \<Rightarrow> checkout_loop p ys ls1)"
  by (induction xs arbitrary: ls) (auto split: sum.splits step.splits)

lemma checkout_item_u_unexpected:
  assumes "objects_get (\<lambda>u. item_u_id u = uid) (items_us (ls_db ls)) = Inr u"
    and "objects_get (\<lambda>it. item_id it = iu_item_id u) (items_tbl (ls_db ls)) = Inr it"
    and "stage u \<notin> {''a'', ''r'', ''m''}"
  shows "checkout_item_u p uid ls =
         Inr (Return (Success_False ''There was an issue confirming this checkout session.'')
                (ls\<lparr>item_id_list := item_id_list ls @ [iu_item_id u]\<rparr>))"
  using assms by (simp add: checkout_item_u_def Let_def)

text \<open>Claim C3. Let the staged list be \<open>before @ uid # after\<close>, let the loop run through
  \<open>before\<close> without returning and reach the loop state \<open>ls\<close>, and let the unit \<open>uid\<close>
  (which exists, as its item does) be in a stage other than \<^verbatim>\<open>"a"\<close>, \<^verbatim>\<open>"r"\<close>, \<^verbatim>\<open>"m"\<close>. Then
  the view answers with the failure response; the tables are those reached after
  \<open>before\<close> (the earlier units keep their mutations, nothing of \<open>after\<close> is processed, and
  neither the mails, the item quantity recomputation nor the final sweep run), and the
  session, with its staged list, is as it was.\<close>

theorem unexpected_stage_halts_batch:
  assumes "objects_get (\<lambda>pr. project_id pr = body_project_id req) (projects (db w)) = Inr np"
    and "checkout_session_item_us (session w) = Some (before @ uid # after)"
    and "checkout_loop (body_project_id req) before
           \<lparr>ls_db = db w, item_id_list = [], stolen_projects = []\<rparr> = Inr (Continue ls)"
    and "objects_get (\<lambda>u. item_u_id u = uid) (items_us (ls_db ls)) = Inr u"
    and "objects_get (\<lambda>it. item_id it = iu_item_id u) (items_tbl (ls_db ls)) = Inr it"
    and "stage u \<notin> {''a'', ''r'', ''m''}"
  shows "confirm_checkout uiq req w =
         Inr (Success_False ''There was an issue confirming this checkout session.'',
              w\<lparr>db := ls_db ls\<rparr>)"
proof -
  have "checkout_loop (body_project_id req) (before @ uid # after)
          \<lparr>ls_db = db w, item_id_list = [], stolen_projects = []\<rparr> =
        Inr (Return (Success_False ''There was an issue confirming this checkout session.'')
               (ls\<lparr>item_id_list := item_id_list ls @ [iu_item_id u]\<rparr>))"
    using assms(3) checkout_item_u_unexpected [OF assms(4-6)]
    by (simp add: checkout_loop_append)
  then show ?thesis
    using assms(1,2) by (simp add: confirm_checkout_def checkout_staged_def)
qed

lemma halt_example_before:
  "checkout_loop 1 [1] \<lparr>ls_db = halt_db, item_id_list = [], stolen_projects = []\<rparr> =
   Inr (Continue \<lparr>ls_db = halt_db_after, item_id_list = [10], stolen_projects = []\<rparr>)"
  by (simp add: checkout_defs example_defs halt_db_def halt_db_after_def)

theorem unexpected_stage_halts_batch_witness:
  "confirm_checkout update_item_quantities req1 (ex_world halt_db [1, 2, 3]) =
   Inr (Success_False ''There was an issue confirming this checkout session.'',
        (ex_world halt_db [1, 2, 3])\<lparr>db := halt_db_after\<rparr>)"
  using unexpected_stage_halts_batch [of req1 "ex_world halt_db [1, 2, 3]"
      "\<lparr>project_id = 1, project_name = ''Alpha'', completed_date = None\<rparr>"
      "[1]" 2 "[3]" "\<lparr>ls_db = halt_db_after, item_id_list = [10], stolen_projects = []\<rparr>"
      "\<lparr>item_u_id = 2, iu_item_id = 10, stage = ''c'', iu_project_id = Some 2\<rparr>"
      "mk_item 10 ''SKU10'' ''ST10'' (Some 2) (Some 0) (Some 2)" update_item_quantities]
    halt_example_before
  by (simp add: objects_get_def example_defs halt_db_def halt_db_after_def)

subsection \<open>A unit reserved on the target project\<close>

lemma filter_map_replace:
  "filter P xs = [u] \<Longrightarrow> P u' \<Longrightarrow> filter P (map (\<lambda>v. if P v then u' else v) xs) = [u']"
proof (induction xs)
  case Nil
  then show ?case by simp
next
  case (Cons x xs)
  show ?case
  proof (cases "P x")
    case True
    with Cons.prems have "filter P xs = []" by simp
    then have "\<forall>v \<in> set xs. \<not> P v" by (simp add: filter_empty_conv)
    then have "filter P (map (\<lambda>v. if P v then u' else v) xs) = []"
      by (simp add: filter_empty_conv)
    with True Cons.prems show ?thesis by simp
  next
    case False
    with Cons show ?thesis by simp
  qed
qed

lemma objects_get_Inr_iff: "objects_get P xs = Inr x \<longleftrightarrow> filter P xs = [x]"
  by (auto simp: objects_get_def split: list.splits)

lemma objects_get_holds: "objects_get P xs = Inr x \<Longrightarrow> P x"
  by (metis objects_get_Inr_iff filter_eq_ConsD)

lemma mark_checked_out_get:
  assumes "objects_get (\<lambda>v. item_u_id v = uid) (items_us d) = Inr u"
  shows "objects_get (\<lambda>v. item_u_id v = uid) (items_us (mark_checked_out p u d)) =
         Inr (u\<lparr>stage := ''c'', iu_project_id := Some p\<rparr>)"
proof -
  have id: "item_u_id u = uid" using objects_get_holds [OF assms] .
  have "filter (\<lambda>v. item_u_id v = uid) (items_us d) = [u]"
    using assms by (simp add: objects_get_Inr_iff)
  then have "filter (\<lambda>v. item_u_id v = uid)
      (map (\<lambda>v. if item_u_id v = uid then u\<lparr>stage := ''c'', iu_project_id := Some p\<rparr> else v)
         (items_us d)) = [u\<lparr>stage := ''c'', iu_project_id := Some p\<rparr>]"
    by (rule filter_map_replace) (simp add: id)
  then show ?thesis
    by (simp add: objects_get_Inr_iff mark_checked_out_def create_item_log_def id)
qed

lemma mark_checked_out_frame:
  "rooms (mark_checked_out p u d) = rooms d"
  "item_rooms (mark_checked_out p u d) = item_rooms d"
  "item_projects (mark_checked_out p u d) = item_projects d"
  "projects (mark_checked_out p u d) = projects d"
  "users (mark_checked_out p u d) = users d"
  "user_projects (mark_checked_out p u d) = user_projects d"
  "items_tbl (mark_checked_out p u d) = items_tbl d"
  by (simp_all add: mark_checked_out_def create_item_log_def)

text \<open>Claim C1, as amended. A unit that is reserved on the target project itself takes
  none of the branches of the loop body: the rooms, the \<^verbatim>\<open>ItemRoom\<close> rows and the
  \<^verbatim>\<open>ItemProject\<close> rows stay as they are and no stolen-reservation event is recorded; the
  unit is logged and saved with stage \<^verbatim>\<open>"c"\<close> and the target project.\<close>

theorem reserved_same_project_is_only_claimed:
  assumes "objects_get (\<lambda>u. item_u_id u = uid) (items_us (ls_db ls)) = Inr u"
    and "objects_get (\<lambda>it. item_id it = iu_item_id u) (items_tbl (ls_db ls)) = Inr it"
    and "stage u = ''r''"
    and "iu_project_id u = Some p"
  shows "\<exists>ls'. checkout_item_u p uid ls = Inr (Continue ls') \<and>
           rooms (ls_db ls') = rooms (ls_db ls) \<and>
           item_rooms (ls_db ls') = item_rooms (ls_db ls) \<and>
           item_projects (ls_db ls') = item_projects (ls_db ls) \<and>
           stolen_projects ls' = stolen_projects ls \<and>
           objects_get (\<lambda>v. item_u_id v = uid) (items_us (ls_db ls')) =
             Inr (u\<lparr>stage := ''c'', iu_project_id := Some p\<rparr>)"
proof -
  have "checkout_item_u p uid ls =
        Inr (Continue (ls\<lparr>item_id_list := item_id_list ls @ [iu_item_id u],
                          ls_db := mark_checked_out p u (ls_db ls)\<rparr>))"
    using assms by (simp add: checkout_item_u_def Let_def)
  then show ?thesis
    using mark_checked_out_get [OF assms(1), of p]
    by (simp add: mark_checked_out_frame)
qed

text \<open>The claim C1 as stated fails: checking out the one unit of item 10 that is reserved
  on project 1 into project 1 leaves no room, no \<^verbatim>\<open>ItemRoom\<close> row and no \<^verbatim>\<open>ItemProject\<close>
  row, while the same unit in stage \<^verbatim>\<open>"a"\<close> gets the Unassigned room, an \<^verbatim>\<open>ItemRoom\<close> row
  with quantity 1 and an \<^verbatim>\<open>ItemProject\<close> row with reserved quantity 1.\<close>

theorem reserved_same_project_counterexample:
  "confirm_checkout update_item_quantities req1 (ex_world (unit_db ''r'' (Some 1)) [1]) =
     Inr (Success_True,
          \<lparr>db = \<lparr>items_us = [\<lparr>item_u_id = 1, iu_item_id = 10, stage = ''c'',
                               iu_project_id = Some 1\<rparr>],
                 items_tbl = [mk_item 10 ''SKU10'' ''ST10'' (Some 1) (Some 0) (Some 1)],
                 rooms = [], item_rooms = [], item_projects = [],
                 projects = ex_projects, users = ex_users, user_projects = ex_user_projects,
                 item_logs = [\<lparr>log_code = ''c'', log_item_u_id = 1, log_project_id = 1\<rparr>],
                 action_logs = []\<rparr>,
           session = empty_session, outbox = [], qr_stickers = None\<rparr>) \<and>
   confirm_checkout update_item_quantities req1 (ex_world (unit_db ''a'' None) [1]) =
     Inr (Success_True,
          \<lparr>db = \<lparr>items_us = [\<lparr>item_u_id = 1, iu_item_id = 10, stage = ''c'',
                               iu_project_id = Some 1\<rparr>],
                 items_tbl = [mk_item 10 ''SKU10'' ''ST10'' (Some 1) (Some 0) (Some 1)],
                 rooms = [\<lparr>room_id = 1, r_project_id = 1, room_name = ''Unassigned'',
                           details = ''Auto-created unassigned room''\<rparr>],
                 item_rooms = [\<lparr>ir_item_id = 10, ir_room_id = 1, item_quantity = 1,
                                item_quantity_holder = 1, all_reserved = 1\<rparr>],
                 item_projects = [\<lparr>ip_item_id = 10, ip_project_id = 1, ip_reserved_quantity = 1,
                                   checked_out_quantity = 0, checked_out_quantity_holder = 0\<rparr>],
                 projects = ex_projects, users = ex_users, user_projects = ex_user_projects,
                 item_logs = [\<lparr>log_code = ''c'', log_item_u_id = 1, log_project_id = 1\<rparr>],
                 action_logs = []\<rparr>,
           session = empty_session, outbox = [], qr_stickers = None\<rparr>)"
  by (simp add: checkout_defs example_defs unit_db_def)

theorem reserved_same_project_is_only_claimed_witness:
  "\<exists>ls'. checkout_item_u 1 1
            \<lparr>ls_db = unit_db ''r'' (Some 1), item_id_list = [], stolen_projects = []\<rparr> =
          Inr (Continue ls') \<and>
          rooms (ls_db ls') = [] \<and> item_rooms (ls_db ls') = [] \<and>
          item_projects (ls_db ls') = [] \<and> stolen_projects ls' = [] \<and>
          objects_get (\<lambda>v. item_u_id v = 1) (items_us (ls_db ls')) =
            Inr \<lparr>item_u_id = 1, iu_item_id = 10, stage = ''c'', iu_project_id = Some 1\<rparr>"
  using reserved_same_project_is_only_claimed [of 1
      "\<lparr>ls_db = unit_db ''r'' (Some 1), item_id_list = [], stolen_projects = []\<rparr>"
      "\<lparr>item_u_id = 1, iu_item_id = 10, stage = ''r'', iu_project_id = Some 1\<rparr>"
      "mk_item 10 ''SKU10'' ''ST10'' (Some 1) (Some 0) (Some 1)" 1]
  by (simp add: objects_get_def example_defs unit_db_def)

subsection \<open>A unit in the move stage\<close>

text \<open>Claim C6. The code at the failing input: the unit 1 of item 10 is in the move
  stage and unit 2 of the item is available. Unit 2 is promoted to the move stage with no
  project and unit 1 lands in the new Unassigned room of project 1 with an \<^verbatim>\<open>ItemRoom\<close> row
  of quantity 1, but no \<^verbatim>\<open>ItemProject\<close> row of item 10 and project 1 is created or
  recomputed, neither by the loop body nor by the rest of the view, so that the reserved
  quantity of the project (none) differs from the sum over its \<^verbatim>\<open>ItemRoom\<close> rows (1).\<close>

theorem moving_unit_skips_item_project:
  "checkout_item_u 1 1 \<lparr>ls_db = moving_db, item_id_list = [], stolen_projects = []\<rparr> =
     Inr (Continue \<lparr>ls_db = moving_db_after, item_id_list = [10], stolen_projects = []\<rparr>) \<and>
   confirm_checkout update_item_quantities req1 (ex_world moving_db [1]) =
     Inr (Success_True,
          \<lparr>db = moving_db_after, session = empty_session, outbox = [], qr_stickers = None\<rparr>) \<and>
   item_projects moving_db_after = [] \<and>
   sum_list (map item_quantity
     (item_rooms_of (rooms moving_db_after) (item_rooms moving_db_after) 10 1)) = 1"
  by (simp add: checkout_defs example_defs moving_db_def moving_db_after_def)

subsection \<open>Notifications\<close>

text \<open>The claim C4 as stated fails: the batch steals one unit of item 10 and one unit of
  item 11 from project 2, the only project stolen from, and two mails are sent for it,
  one for each sku.\<close>

theorem one_notification_per_project_counterexample:
  "confirm_checkout update_item_quantities req1 (ex_world steal_db [1, 2]) =
     Inr (Success_True,
          \<lparr>db = steal_db_after, session = empty_session, outbox = steal_outbox,
           qr_stickers = None\<rparr>) \<and>
   map e_project_name steal_outbox = [''Beta'', ''Beta''] \<and>
   map e_sku steal_outbox = [''SKU10'', ''SKU11''] \<and>
   map adjusted_quantity steal_outbox = [1, 1]"
  by (simp add: checkout_defs example_defs steal_db_def steal_db_after_def steal_outbox_def
      insert_commute)

lemma send_item_emails_result:
  "send_item_emails d nn sn fn rc its out = Inr out' \<Longrightarrow>
   \<exists>es. out' = out @ es \<and>
        list_all2 (\<lambda>e (s, n). e_sku e = s \<and> adjusted_quantity e = n \<and> recipients e = rc \<and>
                     new_project_name e = nn \<and> e_project_name e = sn) es its"
proof (induction its arbitrary: out)
  case Nil
  then show ?case by simp
next
  case (Cons sn' its)
  obtain s n where sn': "sn' = (s, n)" by (cases sn')
  from Cons.prems obtain it where
    it: "objects_get (\<lambda>it. sku_num it = s) (items_tbl d) = Inr it"
    and rest: "send_item_emails d nn sn fn rc its
        (out @ [\<lparr>subject = ''Alert: Item Reservation Adjusted'', recipients = rc,
                  new_project_name = nn, e_project_name = sn, e_item_name = studio_id it,
                  e_sku = sku_num it, adjusted_by = fn, adjusted_quantity = n\<rparr>]) = Inr out'"
    by (auto simp: sn' split: sum.splits)
  have sku: "sku_num it = s" using objects_get_holds [OF it] .
  from Cons.IH [OF rest] obtain es where
    es: "out' = (out @ [\<lparr>subject = ''Alert: Item Reservation Adjusted'', recipients = rc,
                  new_project_name = nn, e_project_name = sn, e_item_name = studio_id it,
                  e_sku = sku_num it, adjusted_by = fn, adjusted_quantity = n\<rparr>]) @ es"
    and all: "list_all2 (\<lambda>e (s, n). e_sku e = s \<and> adjusted_quantity e = n \<and> recipients e = rc \<and>
                     new_project_name e = nn \<and> e_project_name e = sn) es its"
    by blast
  show ?case
    by (rule exI [of _ "\<lparr>subject = ''Alert: Item Reservation Adjusted'', recipients = rc,
                  new_project_name = nn, e_project_name = sn, e_item_name = studio_id it,
                  e_sku = sku_num it, adjusted_by = fn, adjusted_quantity = n\<rparr> # es"])
       (simp add: es all sn' sku)
qed

lemma stolen_pairs_Cons:
  "stolen_pairs ((q, its) # sps) = map (\<lambda>(s, n). (q, s, n)) its @ stolen_pairs sps"
  by (simp add: stolen_pairs_def)

lemma send_stolen_emails_result:
  "send_stolen_emails d nn fn sps out = Inr out' \<Longrightarrow>
   \<exists>es. out' = out @ es \<and> list_all2 (notifies d nn) es (stolen_pairs sps)"
proof (induction sps arbitrary: out)
  case Nil
  then show ?case by (simp add: stolen_pairs_def)
next
  case (Cons sp sps)
  obtain q its where sp: "sp = (q, its)" by (cases sp)
  from Cons.prems obtain pr out1 where
    pr: "objects_get (\<lambda>pr. project_id pr = q) (projects d) = Inr pr"
    and items: "send_item_emails d nn (project_name pr) fn (recipient_emails d q) its out = Inr out1"
    and rest: "send_stolen_emails d nn fn sps out1 = Inr out'"
    by (auto simp: sp split: sum.splits)
  from send_item_emails_result [OF items] obtain es1 where
    es1: "out1 = out @ es1"
    and all1: "list_all2 (\<lambda>e (s, n). e_sku e = s \<and> adjusted_quantity e = n \<and>
                 recipients e = recipient_emails d q \<and> new_project_name e = nn \<and>
                 e_project_name e = project_name pr) es1 its"
    by blast
  from Cons.IH [OF rest] obtain es2 where
    es2: "out' = out1 @ es2" and all2: "list_all2 (notifies d nn) es2 (stolen_pairs sps)"
    by blast
  have "list_all2 (notifies d nn) es1 (map (\<lambda>(s, n). (q, s, n)) its)"
    using all1 by (auto simp: list_all2_map2 notifies_def pr elim!: list_all2_mono)
  then have "list_all2 (notifies d nn) (es1 @ es2) (stolen_pairs (sp # sps))"
    using all2 by (simp add: sp stolen_pairs_Cons list_all2_appendI)
  then show ?case using es1 es2 by auto
qed

subsection \<open>Tables the loop body leaves alone\<close>

lemma sync_item_project_frame:
  assumes "sync_item_project i p d = Inr d'"
  shows "rooms d' = rooms d" "item_rooms d' = item_rooms d" "projects d' = projects d"
    "users d' = users d" "user_projects d' = user_projects d" "items_tbl d' = items_tbl d"
    "items_us d' = items_us d"
  using assms by (auto simp: sync_item_project_def Let_def split: list.splits)

lemma place_in_unassigned_frame:
  assumes "place_in_unassigned p i d = Inr d'"
  shows "item_projects d' = item_projects d" "projects d' = projects d"
    "users d' = users d" "user_projects d' = user_projects d" "items_tbl d' = items_tbl d"
    "items_us d' = items_us d"
  using assms by (auto simp: place_in_unassigned_def split: sum.splits prod.splits)

lemma delete_empty_item_rooms_frame:
  "rooms (delete_empty_item_rooms d) = rooms d"
  "item_projects (delete_empty_item_rooms d) = item_projects d"
  "projects (delete_empty_item_rooms d) = projects d"
  "users (delete_empty_item_rooms d) = users d"
  "user_projects (delete_empty_item_rooms d) = user_projects d"
  "items_tbl (delete_empty_item_rooms d) = items_tbl d"
  "items_us (delete_empty_item_rooms d) = items_us d"
  by (simp_all add: delete_empty_item_rooms_def)

lemma back_out_previous_frame:
  assumes "back_out_previous i q d = Inr d'"
  shows "rooms d' = rooms d" "projects d' = projects d"
    "users d' = users d" "user_projects d' = user_projects d" "items_tbl d' = items_tbl d"
    "items_us d' = items_us d"
  using assms
  by (auto simp: back_out_previous_def Let_def split: option.splits sum.splits
      dest: sync_item_project_frame)

lemma checkout_available_or_stolen_cases:
  assumes "checkout_available_or_stolen p u it steal ls = Inr ls'"
  obtains d1 d2 where "place_in_unassigned p (item_id it) (ls_db ls) = Inr d1"
    and "sync_item_project (item_id it) p d1 = Inr d2"
    and "(\<not> steal \<and> ls' = ls\<lparr>ls_db := delete_empty_item_rooms d2\<rparr>) \<or>
         (steal \<and> (\<exists>d4. back_out_previous (iu_item_id u) (the (iu_project_id u))
                             (delete_empty_item_rooms d2) = Inr d4 \<and>
                           ls' = ls\<lparr>ls_db := d4,
                                     stolen_projects :=
                                       stolen_add (the (iu_project_id u)) (sku_num it)
                                         (stolen_projects ls)\<rparr>))"
  using assms
  by (auto simp: checkout_available_or_stolen_def Let_def split: sum.splits if_splits)

lemma checkout_available_or_stolen_frame:
  assumes "checkout_available_or_stolen p u it steal ls = Inr ls'"
  shows "projects (ls_db ls') = projects (ls_db ls)" "users (ls_db ls') = users (ls_db ls)"
    "user_projects (ls_db ls') = user_projects (ls_db ls)"
    "items_tbl (ls_db ls') = items_tbl (ls_db ls)"
    "items_us (ls_db ls') = items_us (ls_db ls)"
    "item_id_list ls' = item_id_list ls"
proof -
  from assms obtain d1 d2 where
    d1: "place_in_unassigned p (item_id it) (ls_db ls) = Inr d1"
    and d2: "sync_item_project (item_id it) p d1 = Inr d2"
    and fin: "(\<not> steal \<and> ls' = ls\<lparr>ls_db := delete_empty_item_rooms d2\<rparr>) \<or>
         (steal \<and> (\<exists>d4. back_out_previous (iu_item_id u) (the (iu_project_id u))
                             (delete_empty_item_rooms d2) = Inr d4 \<and>
                           ls' = ls\<lparr>ls_db := d4,
                                     stolen_projects :=
                                       stolen_add (the (iu_project_id u)) (sku_num it)
                                         (stolen_projects ls)\<rparr>))"
    by (rule checkout_available_or_stolen_cases)
  note f1 = place_in_unassigned_frame [OF d1] and f2 = sync_item_project_frame [OF d2]
  have base: "projects (delete_empty_item_rooms d2) = projects (ls_db ls)"
    "users (delete_empty_item_rooms d2) = users (ls_db ls)"
    "user_projects (delete_empty_item_rooms d2) = user_projects (ls_db ls)"
    "items_tbl (delete_empty_item_rooms d2) = items_tbl (ls_db ls)"
    "items_us (delete_empty_item_rooms d2) = items_us (ls_db ls)"
    by (simp_all add: delete_empty_item_rooms_frame f1 f2)
  from fin show "projects (ls_db ls') = projects (ls_db ls)"
    by (auto simp: base dest: back_out_previous_frame)
  from fin show "users (ls_db ls') = users (ls_db ls)"
    by (auto simp: base dest: back_out_previous_frame)
  from fin show "user_projects (ls_db ls') = user_projects (ls_db ls)"
    by (auto simp: base dest: back_out_previous_frame)
  from fin show "items_tbl (ls_db ls') = items_tbl (ls_db ls)"
    by (auto simp: base dest: back_out_previous_frame)
  from fin show "items_us (ls_db ls') = items_us (ls_db ls)"
    by (auto simp: base dest: back_out_previous_frame)
  from fin show "item_id_list ls' = item_id_list ls"
    by auto
qed

lemma checkout_moving_frame:
  assumes "checkout_moving p u it ls = Inr ls'"
  shows "projects (ls_db ls') = projects (ls_db ls)" "users (ls_db ls') = users (ls_db ls)"
    "user_projects (ls_db ls') = user_projects (ls_db ls)"
    "items_tbl (ls_db ls') = items_tbl (ls_db ls)"
    "item_projects (ls_db ls') = item_projects (ls_db ls)"
    "stolen_projects ls' = stolen_projects ls"
    "item_id_list ls' = item_id_list ls"
  using assms
  by (auto simp: checkout_moving_def Let_def split: sum.splits
      dest: place_in_unassigned_frame)

lemma checkout_item_u_frame:
  assumes "checkout_item_u p uid ls = Inr (Continue ls')"
  shows "projects (ls_db ls') = projects (ls_db ls)" "users (ls_db ls') = users (ls_db ls)"
    "user_projects (ls_db ls') = user_projects (ls_db ls)"
    "items_tbl (ls_db ls') = items_tbl (ls_db ls)"
proof -
  from assms obtain u it where
    u: "objects_get (\<lambda>u. item_u_id u = uid) (items_us (ls_db ls)) = Inr u"
    and it: "objects_get (\<lambda>it. item_id it = iu_item_id u) (items_tbl (ls_db ls)) = Inr it"
    by (auto simp: checkout_item_u_def Let_def split: sum.splits)
  let ?ls = "ls\<lparr>item_id_list := item_id_list ls @ [iu_item_id u]\<rparr>"
  from assms u it obtain ls1 where
    ls': "ls' = ls1\<lparr>ls_db := mark_checked_out p u (ls_db ls1)\<rparr>"
    and ls1: "checkout_available_or_stolen p u it
                (stage u = ''r'' \<and> the (iu_project_id u) \<noteq> p) ?ls = Inr ls1 \<or>
              checkout_moving p u it ?ls = Inr ls1 \<or> ls1 = ?ls"
    by (auto simp: checkout_item_u_def Let_def split: sum.splits if_splits step.splits)
  from ls1 have "projects (ls_db ls1) = projects (ls_db ls) \<and>
      users (ls_db ls1) = users (ls_db ls) \<and>
      user_projects (ls_db ls1) = user_projects (ls_db ls) \<and>
      items_tbl (ls_db ls1) = items_tbl (ls_db ls)"
    by (auto dest: checkout_available_or_stolen_frame checkout_moving_frame)
  then show "projects (ls_db ls') = projects (ls_db ls)" "users (ls_db ls') = users (ls_db ls)"
    "user_projects (ls_db ls') = user_projects (ls_db ls)"
    "items_tbl (ls_db ls') = items_tbl (ls_db ls)"
    by (simp_all add: ls' mark_checked_out_frame)
qed

lemma checkout_loop_frame:
  "checkout_loop p uids ls = Inr (Continue ls') \<Longrightarrow>
   projects (ls_db ls') = projects (ls_db ls) \<and> users (ls_db ls') = users (ls_db ls) \<and>
   user_projects (ls_db ls') = user_projects (ls_db ls) \<and>
   items_tbl (ls_db ls') = items_tbl (ls_db ls)"
proof (induction uids arbitrary: ls)
  case Nil
  then show ?case by simp
next
  case (Cons uid uids)
  from Cons.prems obtain ls1 where
    step: "checkout_item_u p uid ls = Inr (Continue ls1)"
    and rest: "checkout_loop p uids ls1 = Inr (Continue ls')"
    by (auto split: sum.splits step.splits)
  show ?case
    using Cons.IH [OF rest] checkout_item_u_frame [OF step] by simp
qed

subsection \<open>The stolen-reservation bookkeeping\<close>

lemma map_fst_stolen_item_add:
  "map fst (stolen_item_add s its) =
     (if s \<in> fst ` set its then map fst its else map fst its @ [s])"
  by (induction its) force+

lemma map_fst_stolen_add:
  "map fst (stolen_add q s sps) =
     (if q \<in> fst ` set sps then map fst sps else map fst sps @ [q])"
  by (induction sps) force+

lemma distinct_stolen_item_add:
  "distinct (map fst its) \<Longrightarrow> distinct (map fst (stolen_item_add s its))"
  by (simp add: map_fst_stolen_item_add)

lemma list_all_stolen_add:
  "list_all (\<lambda>(q, its). distinct (map fst its)) sps \<Longrightarrow>
   list_all (\<lambda>(q, its). distinct (map fst its)) (stolen_add q s sps)"
  by (induction sps) (auto simp: distinct_stolen_item_add)

lemma stolen_keys_distinct_add:
  "stolen_keys_distinct sps \<Longrightarrow> stolen_keys_distinct (stolen_add q s sps)"
  by (simp add: stolen_keys_distinct_def map_fst_stolen_add list_all_stolen_add)

lemma checkout_item_u_stolen:
  assumes "checkout_item_u p uid ls = Inr (Continue ls')"
  shows "stolen_projects ls' = stolen_projects ls \<or>
         (\<exists>q s. stolen_projects ls' = stolen_add q s (stolen_projects ls))"
proof -
  from assms obtain u it where
    u: "objects_get (\<lambda>u. item_u_id u = uid) (items_us (ls_db ls)) = Inr u"
    and it: "objects_get (\<lambda>it. item_id it = iu_item_id u) (items_tbl (ls_db ls)) = Inr it"
    by (auto simp: checkout_item_u_def Let_def split: sum.splits)
  let ?ls = "ls\<lparr>item_id_list := item_id_list ls @ [iu_item_id u]\<rparr>"
  from assms u it obtain ls1 where
    ls': "ls' = ls1\<lparr>ls_db := mark_checked_out p u (ls_db ls1)\<rparr>"
    and ls1: "checkout_available_or_stolen p u it
                (stage u = ''r'' \<and> the (iu_project_id u) \<noteq> p) ?ls = Inr ls1 \<or>
              checkout_moving p u it ?ls = Inr ls1 \<or> ls1 = ?ls"
    by (auto simp: checkout_item_u_def Let_def split: sum.splits if_splits step.splits)
  from ls1 have "stolen_projects ls1 = stolen_projects ls \<or>
         (\<exists>q s. stolen_projects ls1 = stolen_add q s (stolen_projects ls))"
  proof (elim disjE)
    assume "checkout_available_or_stolen p u it
              (stage u = ''r'' \<and> the (iu_project_id u) \<noteq> p) ?ls = Inr ls1"
    then show ?thesis
      by (rule checkout_available_or_stolen_cases) fastforce
  next
    assume "checkout_moving p u it ?ls = Inr ls1"
    then show ?thesis by (auto dest: checkout_moving_frame)
  next
    assume "ls1 = ?ls"
    then show ?thesis by simp
  qed
  then show ?thesis by (simp add: ls')
qed

lemma checkout_loop_stolen_keys_distinct:
  "checkout_loop p uids ls = Inr (Continue ls') \<Longrightarrow> stolen_keys_distinct (stolen_projects ls)
   \<Longrightarrow> stolen_keys_distinct (stolen_projects ls')"
proof (induction uids arbitrary: ls)
  case Nil
  then show ?case by simp
next
  case (Cons uid uids)
  from Cons.prems obtain ls1 where
    step: "checkout_item_u p uid ls = Inr (Continue ls1)"
    and rest: "checkout_loop p uids ls1 = Inr (Continue ls')"
    by (auto split: sum.splits step.splits)
  have "stolen_keys_distinct (stolen_projects ls1)"
    using checkout_item_u_stolen [OF step] Cons.prems(2)
    by (auto simp: stolen_keys_distinct_add)
  then show ?case by (rule Cons.IH [OF rest])
qed

lemma distinct_stolen_pairs:
  "stolen_keys_distinct sps \<Longrightarrow> distinct (map (\<lambda>(q, s, n). (q, s)) (stolen_pairs sps))"
proof (induction sps)
  case Nil
  then show ?case by (simp add: stolen_pairs_def)
next
  case (Cons sp sps)
  obtain q its where sp: "sp = (q, its)" by (cases sp)
  from Cons.prems have q: "q \<notin> fst ` set sps" and its: "distinct (map fst its)"
    and rest: "stolen_keys_distinct sps"
    by (auto simp: stolen_keys_distinct_def sp)
  have m: "map (\<lambda>(q, s, n). (q, s)) (map (\<lambda>(s, n). (q, s, n)) its) = map (\<lambda>s. (q, s)) (map fst its)"
    by (induction its) auto
  have d1: "distinct (map (\<lambda>(q, s, n). (q, s)) (map (\<lambda>(s, n). (q, s, n)) its))"
    unfolding m using its by (simp add: distinct_map inj_on_def)
  have fst_pairs: "fst ` set (stolen_pairs sps) \<subseteq> fst ` set sps"
    by (auto simp: stolen_pairs_def image_iff) force
  have disj: "set (map (\<lambda>(q, s, n). (q, s)) (map (\<lambda>(s, n). (q, s, n)) its)) \<inter>
              set (map (\<lambda>(q, s, n). (q, s)) (stolen_pairs sps)) = {}"
    using q fst_pairs by (auto simp: image_iff) force
  show ?case
    using d1 Cons.IH [OF rest] disj by (simp add: sp stolen_pairs_Cons)
qed

lemma notifies_cong:
  "users d' = users d \<Longrightarrow> user_projects d' = user_projects d \<Longrightarrow> projects d' = projects d
   \<Longrightarrow> notifies d' = notifies d"
  by (simp add: notifies_def recipient_emails_def fun_eq_iff)

lemma confirm_checkout_outbox:
  assumes "confirm_checkout uiq req w = Inr (Success_True, w')"
    and "checkout_session_item_us (session w) = Some uids"
  shows "\<exists>ls np es.
           objects_get (\<lambda>pr. project_id pr = body_project_id req) (projects (db w)) = Inr np \<and>
           checkout_loop (body_project_id req) uids
             \<lparr>ls_db = db w, item_id_list = [], stolen_projects = []\<rparr> = Inr (Continue ls) \<and>
           outbox w' = outbox w @ es \<and>
           list_all2 (notifies (db w) (project_name np)) es (stolen_pairs (stolen_projects ls))"
proof -
  from assms obtain np w1 where
    np: "objects_get (\<lambda>pr. project_id pr = body_project_id req) (projects (db w)) = Inr np"
    and staged: "checkout_staged uiq req np uids w = Inr (Continue w1)"
    and w': "w' = w1\<lparr>session := (session w1)\<lparr>checkout_session_items := None\<rparr>,
                     db := prune_zero_reservations (db w1)\<rparr>"
    by (auto simp: confirm_checkout_def split: sum.splits step.splits
        dest: checkout_staged_Return)
  from staged obtain ls out where
    loop: "checkout_loop (body_project_id req) uids
             \<lparr>ls_db = db w, item_id_list = [], stolen_projects = []\<rparr> = Inr (Continue ls)"
    and mails: "send_stolen_emails (ls_db ls) (project_name np) (user_full_name req)
                  (stolen_projects ls) (outbox w) = Inr out"
    and out: "outbox w1 = out"
    by (auto simp: checkout_staged_def split: sum.splits step.splits)
  from send_stolen_emails_result [OF mails] obtain es where
    es: "out = outbox w @ es"
    and all: "list_all2 (notifies (ls_db ls) (project_name np)) es
                (stolen_pairs (stolen_projects ls))"
    by blast
  have "notifies (ls_db ls) = notifies (db w)"
    using checkout_loop_frame [OF loop] by (intro notifies_cong) simp_all
  with all have "list_all2 (notifies (db w) (project_name np)) es
                (stolen_pairs (stolen_projects ls))"
    by simp
  with np loop es out show ?thesis
    by (auto simp: w')
qed

text \<open>Claim C4, as amended. When a batch with a staged list completes, the mails added to
  the outbox are, in order, exactly one for every pair of a stolen-from project and a
  sku stolen from it (no pair occurs twice); each goes to the users of that project and
  the superusers and carries the quantity stolen of that sku. They are sent after the
  loop over the units has ended.\<close>

theorem one_notification_per_stolen_project_and_sku:
  assumes "confirm_checkout uiq req w = Inr (Success_True, w')"
    and "checkout_session_item_us (session w) = Some uids"
  shows "\<exists>ls np es.
           objects_get (\<lambda>pr. project_id pr = body_project_id req) (projects (db w)) = Inr np \<and>
           checkout_loop (body_project_id req) uids
             \<lparr>ls_db = db w, item_id_list = [], stolen_projects = []\<rparr> = Inr (Continue ls) \<and>
           outbox w' = outbox w @ es \<and>
           distinct (map (\<lambda>(q, s, n). (q, s)) (stolen_pairs (stolen_projects ls))) \<and>
           list_all2 (notifies (db w) (project_name np)) es (stolen_pairs (stolen_projects ls))"
proof -
  from confirm_checkout_outbox [OF assms] obtain ls np es where
    np: "objects_get (\<lambda>pr. project_id pr = body_project_id req) (projects (db w)) = Inr np"
    and loop: "checkout_loop (body_project_id req) uids
                 \<lparr>ls_db = db w, item_id_list = [], stolen_projects = []\<rparr> = Inr (Continue ls)"
    and es: "outbox w' = outbox w @ es"
    and all: "list_all2 (notifies (db w) (project_name np)) es
                (stolen_pairs (stolen_projects ls))"
    by blast
  have "stolen_keys_distinct (stolen_projects ls)"
    using checkout_loop_stolen_keys_distinct [OF loop]
    by (simp add: stolen_keys_distinct_def)
  then have "distinct (map (\<lambda>(q, s, n). (q, s)) (stolen_pairs (stolen_projects ls)))"
    by (rule distinct_stolen_pairs)
  with np loop es all show ?thesis by blast
qed

lemma steal_example_run:
  "confirm_checkout update_item_quantities req1 (ex_world steal_db [1, 2]) =
     Inr (Success_True,
          \<lparr>db = steal_db_after, session = empty_session, outbox = steal_outbox,
           qr_stickers = None\<rparr>)"
  by (simp add: checkout_defs example_defs steal_db_def steal_db_after_def steal_outbox_def
      insert_commute)

theorem one_notification_per_stolen_project_and_sku_witness:
  "\<exists>ls np es.
     objects_get (\<lambda>pr. project_id pr = 1) (projects steal_db) = Inr np \<and>
     checkout_loop 1 [1, 2] \<lparr>ls_db = steal_db, item_id_list = [], stolen_projects = []\<rparr> =
       Inr (Continue ls) \<and>
     steal_outbox = es \<and>
     distinct (map (\<lambda>(q, s, n). (q, s)) (stolen_pairs (stolen_projects ls))) \<and>
     list_all2 (notifies steal_db (project_name np)) es (stolen_pairs (stolen_projects ls))"
  using one_notification_per_stolen_project_and_sku [OF steal_example_run, of "[1, 2]"]
  by (simp add: ex_world_def req1_def empty_session_def)

section \<open>The ledger during a cross-project steal\<close>

subsection \<open>Lists with a key\<close>

lemma filter_key_le_one:
  "distinct (map f xs) \<Longrightarrow> length (filter (\<lambda>x. f x = v) xs) \<le> 1"
proof (induction xs)
  case Nil
  then show ?case by simp
next
  case (Cons x xs)
  show ?case
  proof (cases "f x = v")
    case True
    with Cons.prems have "\<forall>y \<in> set xs. f y \<noteq> v" by (auto simp: image_iff)
    then have "filter (\<lambda>x. f x = v) xs = []" by (simp add: filter_empty_conv)
    with True show ?thesis by simp
  next
    case False
    with Cons show ?thesis by simp
  qed
qed

lemma length_le_one_cases:
  assumes "length xs \<le> 1"
  obtains "xs = []" | x where "xs = [x]"
  using assms by (cases xs) auto

lemma fold_max_ge:
  fixes a :: int
  shows "a \<le> fold max ks a" and "k \<in> set ks \<Longrightarrow> k \<le> fold max ks a"
proof (induction ks arbitrary: a)
  case Nil
  { case 1 show ?case by simp }
  { case 2 then show ?case by simp }
next
  case (Cons k' ks)
  { case 1
    have "a \<le> max k' a" by simp
    also have "\<dots> \<le> fold max ks (max k' a)" by (rule Cons.IH(1))
    finally show ?case by simp }
  { case 2
    show ?case
    proof (cases "k = k'")
      case True
      have "k' \<le> max k' a" by simp
      also have "\<dots> \<le> fold max ks (max k' a)" by (rule Cons.IH(1))
      finally show ?thesis using True by simp
    next
      case False
      with 2 have "k \<in> set ks" by simp
      then show ?thesis using Cons.IH(2) by simp
    qed }
qed

lemma next_id_fresh: "next_id ks \<notin> set ks"
proof
  assume "next_id ks \<in> set ks"
  then have "next_id ks \<le> fold max ks 0" by (rule fold_max_ge(2))
  then show False by (simp add: next_id_def)
qed

subsection \<open>The Unassigned room\<close>

lemma unassigned_get_or_create_result:
  assumes "distinct (map r_project_id (filter (\<lambda>r. room_name r = ''Unassigned'') rs))"
  shows "\<exists>r rs'. unassigned_get_or_create p rs = Inr (r, rs') \<and> r_project_id r = p \<and>
           room_name r = ''Unassigned'' \<and>
           ((rs' = rs \<and> r \<in> set rs) \<or>
            (rs' = rs @ [r] \<and> room_id r \<notin> set (map room_id rs) \<and>
             filter (\<lambda>r. r_project_id r = p \<and> room_name r = ''Unassigned'') rs = []))"
proof -
  have eq: "filter (\<lambda>r. r_project_id r = p \<and> room_name r = ''Unassigned'') rs =
        filter (\<lambda>r. r_project_id r = p) (filter (\<lambda>r. room_name r = ''Unassigned'') rs)"
    by (simp add: conj_commute)
  have "length (filter (\<lambda>r. r_project_id r = p \<and> room_name r = ''Unassigned'') rs) \<le> 1"
    unfolding eq using assms by (rule filter_key_le_one)
  then show ?thesis
  proof (cases rule: length_le_one_cases)
    case 1
    then show ?thesis
      using next_id_fresh [of "map room_id rs"]
      by (simp add: unassigned_get_or_create_def Let_def)
  next
    case (2 r)
    then have "r \<in> set (filter (\<lambda>r. r_project_id r = p \<and> room_name r = ''Unassigned'') rs)"
      by simp
    then have "r \<in> set rs" "r_project_id r = p" "room_name r = ''Unassigned''" by auto
    then show ?thesis using 2 by (simp add: unassigned_get_or_create_def)
  qed
qed

lemma room_in_project_append:
  "room_in_project (rs @ [r]) q rid \<longleftrightarrow>
   room_in_project rs q rid \<or> (room_id r = rid \<and> r_project_id r = q)"
  by (auto simp: room_in_project_def list_ex_iff)

lemma room_in_project_unique:
  assumes "distinct (map room_id rs)" and "r \<in> set rs"
  shows "room_in_project rs q (room_id r) \<longleftrightarrow> r_project_id r = q"
proof -
  have "r' = r" if "r' \<in> set rs" "room_id r' = room_id r" for r'
    using that assms by (meson distinct_map inj_on_def)
  then show ?thesis using assms(2) by (auto simp: room_in_project_def list_ex_iff)
qed

lemma room_in_project_member:
  "room_in_project rs q rid \<Longrightarrow> rid \<in> set (map room_id rs)"
  by (auto simp: room_in_project_def list_ex_iff)

subsection \<open>Adding a unit to an \<^verbatim>\<open>ItemRoom\<close> row\<close>

lemma filter_bump_unchanged:
  "(\<And>x. x \<in> set xs \<Longrightarrow> K x \<Longrightarrow> \<not> B x) \<Longrightarrow> (\<And>x. B (g x) = B x) \<Longrightarrow>
   filter B (map (\<lambda>x. if K x then g x else x) xs) = filter B xs"
  by (induction xs) auto

lemma map_bump_none:
  "filter K xs = [] \<Longrightarrow> map (\<lambda>x. if K x then g x else x) xs = xs"
  by (induction xs) (auto split: if_splits)

lemma sum_bump_one:
  fixes h :: "'a \<Rightarrow> int"
  assumes "filter K xs = [y]" and "\<And>x. K x \<Longrightarrow> B x" and "\<And>x. B (g x) = B x"
    and "\<And>x. K x \<Longrightarrow> h (g x) = h x + 1"
  shows "sum_list (map h (filter B (map (\<lambda>x. if K x then g x else x) xs))) =
         sum_list (map h (filter B xs)) + 1"
  using assms(1)
proof (induction xs)
  case Nil
  then show ?case by simp
next
  case (Cons x xs)
  show ?case
  proof (cases "K x")
    case True
    with Cons.prems have "filter K xs = []" by simp
    then have "map (\<lambda>x. if K x then g x else x) xs = xs" by (rule map_bump_none)
    then show ?thesis using True assms(2-4) by simp
  next
    case False
    with Cons.prems have "filter K xs = [y]" by simp
    then show ?thesis using False Cons.IH by simp
  qed
qed

lemma item_room_add_unit_result:
  assumes "distinct (map (\<lambda>ir. (ir_item_id ir, ir_room_id ir)) irs)"
  shows "(filter (\<lambda>ir. ir_item_id ir = i \<and> ir_room_id ir = r) irs = [] \<and>
          item_room_add_unit i r irs =
            Inr (irs @ [\<lparr>ir_item_id = i, ir_room_id = r, item_quantity = 1,
                          item_quantity_holder = 1, all_reserved = 1\<rparr>])) \<or>
         (\<exists>y. filter (\<lambda>ir. ir_item_id ir = i \<and> ir_room_id ir = r) irs = [y] \<and>
          item_room_add_unit i r irs =
            Inr (map (\<lambda>ir. if ir_item_id ir = i \<and> ir_room_id ir = r
                            then ir\<lparr>item_quantity := item_quantity ir + 1,
                                    item_quantity_holder := item_quantity_holder ir + 1,
                                    all_reserved := all_reserved ir + 1\<rparr>
                            else ir) irs))"
proof -
  have eq: "filter (\<lambda>ir. ir_item_id ir = i \<and> ir_room_id ir = r) irs =
            filter (\<lambda>ir. (ir_item_id ir, ir_room_id ir) = (i, r)) irs"
    by simp
  have "length (filter (\<lambda>ir. ir_item_id ir = i \<and> ir_room_id ir = r) irs) \<le> 1"
    unfolding eq using assms by (rule filter_key_le_one)
  then show ?thesis
    by (cases rule: length_le_one_cases) (simp_all add: item_room_add_unit_def)
qed

subsection \<open>Placing a unit in the Unassigned room\<close>

lemma place_in_unassigned_shape:
  assumes "schema_ok d"
  shows "\<exists>r rs' irs'.
           place_in_unassigned p i d = Inr (d\<lparr>rooms := rs', item_rooms := irs'\<rparr>) \<and>
           r \<in> set rs' \<and> r_project_id r = p \<and> distinct (map room_id rs') \<and>
           distinct (map r_project_id (filter (\<lambda>r. room_name r = ''Unassigned'') rs')) \<and>
           set (map room_id (rooms d)) \<subseteq> set (map room_id rs') \<and>
           (\<forall>x \<in> set (item_rooms d). \<forall>q.
              room_in_project rs' q (ir_room_id x) = room_in_project (rooms d) q (ir_room_id x)) \<and>
           ((filter (\<lambda>ir. ir_item_id ir = i \<and> ir_room_id ir = room_id r) (item_rooms d) = [] \<and>
             irs' = item_rooms d @ [\<lparr>ir_item_id = i, ir_room_id = room_id r, item_quantity = 1,
                                     item_quantity_holder = 1, all_reserved = 1\<rparr>]) \<or>
            (\<exists>y. filter (\<lambda>ir. ir_item_id ir = i \<and> ir_room_id ir = room_id r) (item_rooms d) = [y] \<and>
                 irs' = map (\<lambda>ir. if ir_item_id ir = i \<and> ir_room_id ir = room_id r
                            then ir\<lparr>item_quantity := item_quantity ir + 1,
                                    item_quantity_holder := item_quantity_holder ir + 1,
                                    all_reserved := all_reserved ir + 1\<rparr>
                            else ir) (item_rooms d)))"
proof -
  from assms have una: "distinct (map r_project_id (filter (\<lambda>r. room_name r = ''Unassigned'') (rooms d)))"
    and ids: "distinct (map room_id (rooms d))"
    and fk: "\<forall>x \<in> set (item_rooms d). ir_room_id x \<in> set (map room_id (rooms d))"
    and keys: "distinct (map (\<lambda>ir. (ir_item_id ir, ir_room_id ir)) (item_rooms d))"
    by (simp_all add: schema_ok_def list_all_iff)
  from unassigned_get_or_create_result [OF una, of p] obtain r rs' where
    get: "unassigned_get_or_create p (rooms d) = Inr (r, rs')"
    and rp: "r_project_id r = p" and rn: "room_name r = ''Unassigned''"
    and rs': "(rs' = rooms d \<and> r \<in> set (rooms d)) \<or>
              (rs' = rooms d @ [r] \<and> room_id r \<notin> set (map room_id (rooms d)) \<and>
               filter (\<lambda>r. r_project_id r = p \<and> room_name r = ''Unassigned'') (rooms d) = [])"
    by blast
  have mem: "r \<in> set rs'" using rs' by auto
  have dist': "distinct (map room_id rs')" using rs' ids by auto
  have sub: "set (map room_id (rooms d)) \<subseteq> set (map room_id rs')" using rs' by auto
  have una': "distinct (map r_project_id (filter (\<lambda>r. room_name r = ''Unassigned'') rs'))"
  proof -
    { assume new: "rs' = rooms d @ [r]"
        and none: "filter (\<lambda>r. r_project_id r = p \<and> room_name r = ''Unassigned'') (rooms d) = []"
      from none have "p \<notin> r_project_id ` set (filter (\<lambda>r. room_name r = ''Unassigned'') (rooms d))"
        by (auto simp: filter_empty_conv)
      then have ?thesis using una by (simp add: new rn rp) }
    then show ?thesis using rs' una by auto
  qed
  have same: "\<forall>x \<in> set (item_rooms d). \<forall>q.
      room_in_project rs' q (ir_room_id x) = room_in_project (rooms d) q (ir_room_id x)"
  proof (intro ballI allI)
    fix x q assume x: "x \<in> set (item_rooms d)"
    from x fk have "ir_room_id x \<in> set (map room_id (rooms d))" by blast
    then show "room_in_project rs' q (ir_room_id x) = room_in_project (rooms d) q (ir_room_id x)"
      using rs' by (auto simp: room_in_project_append)
  qed
  from item_room_add_unit_result [OF keys, of i "room_id r"] obtain irs' where
    add: "item_room_add_unit i (room_id r) (item_rooms d) = Inr irs'"
    and shape: "(filter (\<lambda>ir. ir_item_id ir = i \<and> ir_room_id ir = room_id r) (item_rooms d) = [] \<and>
             irs' = item_rooms d @ [\<lparr>ir_item_id = i, ir_room_id = room_id r, item_quantity = 1,
                                     item_quantity_holder = 1, all_reserved = 1\<rparr>]) \<or>
            (\<exists>y. filter (\<lambda>ir. ir_item_id ir = i \<and> ir_room_id ir = room_id r) (item_rooms d) = [y] \<and>
                 irs' = map (\<lambda>ir. if ir_item_id ir = i \<and> ir_room_id ir = room_id r
                            then ir\<lparr>item_quantity := item_quantity ir + 1,
                                    item_quantity_holder := item_quantity_holder ir + 1,
                                    all_reserved := all_reserved ir + 1\<rparr>
                            else ir) (item_rooms d))"
    by auto
  have "place_in_unassigned p i d = Inr (d\<lparr>rooms := rs', item_rooms := irs'\<rparr>)"
    by (simp add: place_in_unassigned_def get add)
  with mem rp dist' una' sub same shape show ?thesis by blast
qed

lemma place_in_unassigned_result:
  assumes "schema_ok d"
  shows "\<exists>d1. place_in_unassigned p i d = Inr d1 \<and> schema_ok d1 \<and>
           room_total d1 i p = room_total d i p + 1 \<and>
           (\<forall>i' q. q \<noteq> p \<longrightarrow>
              item_rooms_of (rooms d1) (item_rooms d1) i' q =
              item_rooms_of (rooms d) (item_rooms d) i' q)"
proof -
  let ?new = "\<lambda>r. \<lparr>ir_item_id = i, ir_room_id = room_id r, item_quantity = 1,
                    item_quantity_holder = 1, all_reserved = 1\<rparr>"
  let ?K = "\<lambda>r ir. ir_item_id ir = i \<and> ir_room_id ir = room_id r"
  let ?g = "\<lambda>ir. ir\<lparr>item_quantity := item_quantity ir + 1,
                      item_quantity_holder := item_quantity_holder ir + 1,
                      all_reserved := all_reserved ir + 1\<rparr>"
  from place_in_unassigned_shape [OF assms, of p i] obtain r rs' irs' where
    run: "place_in_unassigned p i d = Inr (d\<lparr>rooms := rs', item_rooms := irs'\<rparr>)"
    and mem: "r \<in> set rs'" and rp: "r_project_id r = p"
    and dist': "distinct (map room_id rs')"
    and una': "distinct (map r_project_id (filter (\<lambda>r. room_name r = ''Unassigned'') rs'))"
    and sub: "set (map room_id (rooms d)) \<subseteq> set (map room_id rs')"
    and same: "\<forall>x \<in> set (item_rooms d). \<forall>q.
        room_in_project rs' q (ir_room_id x) = room_in_project (rooms d) q (ir_room_id x)"
    and shape: "(filter (?K r) (item_rooms d) = [] \<and> irs' = item_rooms d @ [?new r]) \<or>
                (\<exists>y. filter (?K r) (item_rooms d) = [y] \<and>
                     irs' = map (\<lambda>ir. if ?K r ir then ?g ir else ir) (item_rooms d))"
    by blast
  from assms have fk: "\<forall>x \<in> set (item_rooms d). ir_room_id x \<in> set (map room_id (rooms d))"
    and keys: "distinct (map (\<lambda>ir. (ir_item_id ir, ir_room_id ir)) (item_rooms d))"
    and ipk: "distinct (map (\<lambda>ip. (ip_item_id ip, ip_project_id ip)) (item_projects d))"
    and prk: "distinct (map project_id (projects d))"
    by (simp_all add: schema_ok_def list_all_iff)
  have inr: "room_in_project rs' q (room_id r) \<longleftrightarrow> p = q" for q
    using room_in_project_unique [OF dist' mem, of q] rp by auto
  have old: "item_rooms_of rs' (item_rooms d) i' q = item_rooms_of (rooms d) (item_rooms d) i' q"
    for i' q
    unfolding item_rooms_of_def using same by (intro filter_cong) auto
  have totals: "sum_list (map item_quantity (item_rooms_of rs' irs' i p)) =
                sum_list (map item_quantity (item_rooms_of (rooms d) (item_rooms d) i p)) + 1"
    and others: "\<forall>i' q. q \<noteq> p \<longrightarrow>
                   item_rooms_of rs' irs' i' q = item_rooms_of (rooms d) (item_rooms d) i' q"
    and keys': "distinct (map (\<lambda>ir. (ir_item_id ir, ir_room_id ir)) irs')"
    and fk': "\<forall>x \<in> set irs'. ir_room_id x \<in> set (map room_id rs')"
  proof -
    from shape show "sum_list (map item_quantity (item_rooms_of rs' irs' i p)) =
                sum_list (map item_quantity (item_rooms_of (rooms d) (item_rooms d) i p)) + 1"
    proof (elim disjE conjE exE)
      assume "irs' = item_rooms d @ [?new r]"
      then have "item_rooms_of rs' irs' i p = item_rooms_of rs' (item_rooms d) i p @ [?new r]"
        by (simp add: item_rooms_of_def inr)
      then show ?thesis by (simp add: old)
    next
      fix y assume one: "filter (?K r) (item_rooms d) = [y]"
        and irs': "irs' = map (\<lambda>ir. if ?K r ir then ?g ir else ir) (item_rooms d)"
      have "sum_list (map item_quantity
              (filter (\<lambda>ir. ir_item_id ir = i \<and> room_in_project rs' p (ir_room_id ir))
                 (map (\<lambda>ir. if ?K r ir then ?g ir else ir) (item_rooms d)))) =
            sum_list (map item_quantity
              (filter (\<lambda>ir. ir_item_id ir = i \<and> room_in_project rs' p (ir_room_id ir))
                 (item_rooms d))) + 1"
        using one by (rule sum_bump_one) (simp_all add: inr)
      then show ?thesis
        using old [of i p] by (simp add: item_rooms_of_def irs')
    qed
    from shape show "\<forall>i' q. q \<noteq> p \<longrightarrow>
                   item_rooms_of rs' irs' i' q = item_rooms_of (rooms d) (item_rooms d) i' q"
    proof (elim disjE conjE exE)
      assume "irs' = item_rooms d @ [?new r]"
      then have "item_rooms_of rs' irs' i' q = item_rooms_of rs' (item_rooms d) i' q"
        if "q \<noteq> p" for i' q
        using that by (auto simp: item_rooms_of_def inr)
      then show ?thesis by (simp add: old)
    next
      fix y assume irs': "irs' = map (\<lambda>ir. if ?K r ir then ?g ir else ir) (item_rooms d)"
      have "filter (\<lambda>ir. ir_item_id ir = i' \<and> room_in_project rs' q (ir_room_id ir))
              (map (\<lambda>ir. if ?K r ir then ?g ir else ir) (item_rooms d)) =
            filter (\<lambda>ir. ir_item_id ir = i' \<and> room_in_project rs' q (ir_room_id ir))
              (item_rooms d)"
        if "q \<noteq> p" for i' q
        using that by (intro filter_bump_unchanged) (auto simp: inr)
      then show ?thesis
        using old by (simp add: item_rooms_of_def irs')
    qed
    from shape show "distinct (map (\<lambda>ir. (ir_item_id ir, ir_room_id ir)) irs')"
    proof (elim disjE conjE exE)
      assume none: "filter (?K r) (item_rooms d) = []" and irs': "irs' = item_rooms d @ [?new r]"
      from none have "(i, room_id r) \<notin> set (map (\<lambda>ir. (ir_item_id ir, ir_room_id ir)) (item_rooms d))"
        by (auto simp: filter_empty_conv)
      then show ?thesis using keys by (simp add: irs')
    next
      fix y assume irs': "irs' = map (\<lambda>ir. if ?K r ir then ?g ir else ir) (item_rooms d)"
      have "map (\<lambda>ir. (ir_item_id ir, ir_room_id ir)) irs' =
            map (\<lambda>ir. (ir_item_id ir, ir_room_id ir)) (item_rooms d)"
        by (simp add: irs')
      then show ?thesis using keys by simp
    qed
    from shape show "\<forall>x \<in> set irs'. ir_room_id x \<in> set (map room_id rs')"
      using fk sub mem by (elim disjE conjE exE) auto
  qed
  have "schema_ok (d\<lparr>rooms := rs', item_rooms := irs'\<rparr>)"
    using dist' una' keys' fk' ipk prk by (simp add: schema_ok_def list_all_iff)
  then show ?thesis
    using run totals others by (simp add: room_total_def)
qed

subsection \<open>Recomputing an \<^verbatim>\<open>ItemProject\<close> row\<close>

lemma filter_bump_one:
  assumes "filter K xs = [y]" and "\<And>x. K (g x) = K x"
  shows "filter K (map (\<lambda>x. if K x then g x else x) xs) = [g y]"
  using assms(1)
proof (induction xs)
  case Nil
  then show ?case by simp
next
  case (Cons x xs)
  show ?case
  proof (cases "K x")
    case True
    with Cons.prems have none: "filter K xs = []" and y: "y = x" by simp_all
    from none have "map (\<lambda>x. if K x then g x else x) xs = xs" by (rule map_bump_none)
    then show ?thesis using True none y assms(2) by simp
  next
    case False
    with Cons.prems have "filter K xs = [y]" by simp
    then show ?thesis using False Cons.IH by simp
  qed
qed

lemma sync_item_project_result:
  assumes "distinct (map (\<lambda>ip. (ip_item_id ip, ip_project_id ip)) (item_projects d))"
  shows "\<exists>d'. sync_item_project i p d = Inr d' \<and>
           distinct (map (\<lambda>ip. (ip_item_id ip, ip_project_id ip)) (item_projects d')) \<and>
           reserved_quantity_of d' i p = room_total d i p \<and>
           (\<forall>i' q. (i', q) \<noteq> (i, p) \<longrightarrow>
              filter (\<lambda>ip. ip_item_id ip = i' \<and> ip_project_id ip = q) (item_projects d') =
              filter (\<lambda>ip. ip_item_id ip = i' \<and> ip_project_id ip = q) (item_projects d))"
proof -
  let ?K = "\<lambda>ip. ip_item_id ip = i \<and> ip_project_id ip = p"
  let ?total = "room_total d i p"
  let ?g = "\<lambda>ip. ip\<lparr>ip_reserved_quantity := ?total\<rparr>"
  have eq: "filter ?K (item_projects d) =
            filter (\<lambda>ip. (ip_item_id ip, ip_project_id ip) = (i, p)) (item_projects d)"
    by simp
  have "length (filter ?K (item_projects d)) \<le> 1"
    unfolding eq using assms by (rule filter_key_le_one)
  then show ?thesis
  proof (cases rule: length_le_one_cases)
    case 1
    let ?new = "\<lparr>ip_item_id = i, ip_project_id = p, ip_reserved_quantity = ?total,
                 checked_out_quantity = 0, checked_out_quantity_holder = 0\<rparr>"
    have run: "sync_item_project i p d = Inr (d\<lparr>item_projects := item_projects d @ [?new]\<rparr>)"
      using 1 by (simp add: sync_item_project_def room_total_def)
    from 1 have "(i, p) \<notin> set (map (\<lambda>ip. (ip_item_id ip, ip_project_id ip)) (item_projects d))"
      by (auto simp: filter_empty_conv)
    then have "distinct (map (\<lambda>ip. (ip_item_id ip, ip_project_id ip)) (item_projects d @ [?new]))"
      using assms by simp
    then show ?thesis
      using run 1 by (auto simp: reserved_quantity_of_def)
  next
    case (2 y)
    have run: "sync_item_project i p d =
        Inr (d\<lparr>item_projects := map (\<lambda>ip. if ?K ip then ?g ip else ip) (item_projects d)\<rparr>)"
      using 2 by (simp add: sync_item_project_def room_total_def)
    have keys: "map (\<lambda>ip. (ip_item_id ip, ip_project_id ip))
                  (map (\<lambda>ip. if ?K ip then ?g ip else ip) (item_projects d)) =
                map (\<lambda>ip. (ip_item_id ip, ip_project_id ip)) (item_projects d)"
      by simp
    have this_row: "filter ?K (map (\<lambda>ip. if ?K ip then ?g ip else ip) (item_projects d)) = [?g y]"
      using 2 by (rule filter_bump_one) simp
    have other: "filter (\<lambda>ip. ip_item_id ip = i' \<and> ip_project_id ip = q)
                   (map (\<lambda>ip. if ?K ip then ?g ip else ip) (item_projects d)) =
                 filter (\<lambda>ip. ip_item_id ip = i' \<and> ip_project_id ip = q) (item_projects d)"
      if "(i', q) \<noteq> (i, p)" for i' q
      using that by (intro filter_bump_unchanged) auto
    show ?thesis
      using run assms other
      by (simp add: reserved_quantity_of_def this_row keys del: map_map)
  qed
qed

lemma reserved_quantity_of_cong:
  "filter (\<lambda>ip. ip_item_id ip = i \<and> ip_project_id ip = p) (item_projects d') =
   filter (\<lambda>ip. ip_item_id ip = i \<and> ip_project_id ip = p) (item_projects d) \<Longrightarrow>
   reserved_quantity_of d' i p = reserved_quantity_of d i p"
  by (simp add: reserved_quantity_of_def)

subsection \<open>Backing out the previous project\<close>

lemma find_filter_Cons: "filter P xs = y # ys \<Longrightarrow> find P xs = Some y"
  by (induction xs) (auto split: if_splits)

lemma find_filter_Nil: "filter P xs = [] \<Longrightarrow> find P xs = None"
  by (induction xs) (auto split: if_splits)

lemma filter_delete_first: "filter P (delete_first P xs) = tl (filter P xs)"
  by (induction xs) auto

lemma filter_save_first:
  "(\<And>x. P (g x) = P x) \<Longrightarrow>
   filter P (save_first P g xs) = (case filter P xs of [] \<Rightarrow> [] | y # ys \<Rightarrow> g y # ys)"
  by (induction xs) auto

lemma filter_delete_first_other:
  "(\<And>x. x \<in> set xs \<Longrightarrow> P x \<Longrightarrow> \<not> B x) \<Longrightarrow> filter B (delete_first P xs) = filter B xs"
  by (induction xs) auto

lemma filter_save_first_other:
  "(\<And>x. x \<in> set xs \<Longrightarrow> P x \<Longrightarrow> \<not> B x) \<Longrightarrow> (\<And>x. B (g x) = B x) \<Longrightarrow>
   filter B (save_first P g xs) = filter B xs"
  by (induction xs) auto

lemma back_out_previous_none:
  assumes "item_rooms_of (rooms d) (item_rooms d) i q = []"
  shows "back_out_previous i q d = Inr d"
  using assms by (simp add: back_out_previous_def item_rooms_of_def find_filter_Nil)

lemma back_out_previous_result:
  assumes keys: "distinct (map (\<lambda>ip. (ip_item_id ip, ip_project_id ip)) (item_projects d))"
    and rows: "item_rooms_of (rooms d) (item_rooms d) i q \<noteq> []"
    and pos: "\<forall>ir \<in> set (item_rooms_of (rooms d) (item_rooms d) i q). 1 \<le> item_quantity ir"
    and prq: "objects_get (\<lambda>pr. project_id pr = q) (projects d) = Inr prq"
  shows "\<exists>d'. back_out_previous i q d = Inr d' \<and>
           room_total d' i q = room_total d i q - 1 \<and>
           reserved_quantity_of d' i q = room_total d i q - 1 \<and>
           (\<forall>i' q'. (i', q') \<noteq> (i, q) \<longrightarrow>
              filter (\<lambda>ip. ip_item_id ip = i' \<and> ip_project_id ip = q') (item_projects d') =
              filter (\<lambda>ip. ip_item_id ip = i' \<and> ip_project_id ip = q') (item_projects d))"
proof -
  let ?B = "\<lambda>ir. ir_item_id ir = i \<and> room_in_project (rooms d) q (ir_room_id ir)"
  let ?g = "\<lambda>ir. ir\<lparr>item_quantity := item_quantity ir - 1,
                      item_quantity_holder := item_quantity_holder ir - 1,
                      all_reserved := all_reserved ir - 1\<rparr>"
  from rows obtain y ys where ys: "filter ?B (item_rooms d) = y # ys"
    by (cases "filter ?B (item_rooms d)") (auto simp: item_rooms_of_def)
  have found: "find ?B (item_rooms d) = Some y" using ys by (rule find_filter_Cons)
  have y1: "1 \<le> item_quantity y" using pos ys by (simp add: item_rooms_of_def)
  let ?irs = "if item_quantity y - 1 < 1
              then delete_first ?B (item_rooms d)
              else save_first ?B ?g (item_rooms d)"
  have total: "sum_list (map item_quantity (filter ?B ?irs)) =
               sum_list (map item_quantity (filter ?B (item_rooms d))) - 1"
  proof (cases "item_quantity y - 1 < 1")
    case True
    then have "item_quantity y = 1" using y1 by simp
    then show ?thesis using True by (simp add: filter_delete_first ys)
  next
    case False
    have "filter ?B (save_first ?B ?g (item_rooms d)) = ?g y # ys"
      by (subst filter_save_first) (simp_all add: ys)
    then show ?thesis using False by (simp add: ys)
  qed
  have q: "project_id prq = q" using objects_get_holds [OF prq] .
  let ?d = "d\<lparr>item_rooms := ?irs\<rparr>"
  have run: "back_out_previous i q d = sync_item_project i q ?d"
    by (simp add: back_out_previous_def Let_def found prq q)
  have keys': "distinct (map (\<lambda>ip. (ip_item_id ip, ip_project_id ip)) (item_projects ?d))"
    using keys by simp
  from sync_item_project_result [OF keys', of i q] obtain d' where
    sync: "sync_item_project i q ?d = Inr d'"
    and res: "reserved_quantity_of d' i q = room_total ?d i q"
    and other: "\<forall>i' q'. (i', q') \<noteq> (i, q) \<longrightarrow>
              filter (\<lambda>ip. ip_item_id ip = i' \<and> ip_project_id ip = q') (item_projects d') =
              filter (\<lambda>ip. ip_item_id ip = i' \<and> ip_project_id ip = q') (item_projects ?d)"
    by blast
  have t: "room_total ?d i q = room_total d i q - 1"
    using total by (simp add: room_total_def item_rooms_of_def)
  have "room_total d' i q = room_total ?d i q"
    using sync_item_project_frame(1,2) [OF sync] by (simp add: room_total_def)
  then show ?thesis
    using run sync res other t by simp
qed

subsection \<open>Quantities of the recorded events\<close>

lemma stolen_item_add_quantity:
  "distinct (map fst its) \<Longrightarrow>
   map snd (filter (\<lambda>(s', n). s' = s) (stolen_item_add s its)) =
     [sum_list (map snd (filter (\<lambda>(s', n). s' = s) its)) + 1]"
proof (induction its)
  case Nil
  then show ?case by simp
next
  case (Cons sn its)
  obtain s' n where sn: "sn = (s', n)" by (cases sn)
  show ?case
  proof (cases "s' = s")
    case True
    with Cons.prems have "\<forall>x \<in> set its. fst x \<noteq> s" by (auto simp: sn image_iff)
    then have "filter (\<lambda>(s', n). s' = s) its = []"
      by (auto simp: filter_empty_conv)
    then show ?thesis using True by (simp add: sn)
  next
    case False
    then show ?thesis using Cons by (simp add: sn)
  qed
qed

lemma stolen_quantities_Cons:
  "stolen_quantities ((q', its) # sps) q s =
     (if q' = q then map snd (filter (\<lambda>(s', n). s' = s) its) else []) @
     stolen_quantities sps q s"
proof -
  have "map (\<lambda>(q', s', n). n) (filter (\<lambda>(q', s', n). q' = q \<and> s' = s)
          (map (\<lambda>(s, n). (q', s, n)) its)) =
        (if q' = q then map snd (filter (\<lambda>(s', n). s' = s) its) else [])"
    by (induction its) auto
  then show ?thesis by (simp add: stolen_quantities_def stolen_pairs_Cons)
qed

lemma stolen_quantities_absent:
  "q \<notin> fst ` set sps \<Longrightarrow> stolen_quantities sps q s = []"
proof (induction sps)
  case Nil
  then show ?case by (simp add: stolen_quantities_def stolen_pairs_def)
next
  case (Cons sp sps)
  obtain q' its where sp: "sp = (q', its)" by (cases sp)
  show ?case using Cons by (simp add: sp stolen_quantities_Cons)
qed

lemma stolen_quantities_add:
  "stolen_keys_distinct sps \<Longrightarrow>
   stolen_quantities (stolen_add q s sps) q s = [sum_list (stolen_quantities sps q s) + 1]"
proof (induction sps)
  case Nil
  then show ?case by (simp add: stolen_quantities_def stolen_pairs_def)
next
  case (Cons sp sps)
  obtain q' its where sp: "sp = (q', its)" by (cases sp)
  from Cons.prems have rest: "stolen_keys_distinct sps" and its: "distinct (map fst its)"
    and q': "q' \<notin> fst ` set sps"
    by (auto simp: stolen_keys_distinct_def sp)
  show ?case
  proof (cases "q' = q")
    case True
    then have "stolen_quantities sps q s = []"
      using q' by (simp add: stolen_quantities_absent)
    then show ?thesis
      using True stolen_item_add_quantity [OF its, of s]
      by (simp add: sp stolen_quantities_Cons)
  next
    case False
    then show ?thesis using Cons.IH [OF rest] by (simp add: sp stolen_quantities_Cons)
  qed
qed

lemma item_rooms_of_filter:
  "item_rooms_of rs (filter P irs) i q = filter P (item_rooms_of rs irs i q)"
  by (auto simp: item_rooms_of_def conj_commute)

lemma filter_all: "\<forall>x \<in> set xs. P x \<Longrightarrow> filter P xs = xs"
  by (induction xs) auto

text \<open>The steps of the first branch on a unit reserved on another project q, from a
  state that meets the key constraints.\<close>

lemma steal_steps:
  assumes schema: "schema_ok d" and qp: "q \<noteq> p"
  shows "\<exists>d1 d2. place_in_unassigned p i d = Inr d1 \<and> sync_item_project i p d1 = Inr d2 \<and>
           distinct (map (\<lambda>ip. (ip_item_id ip, ip_project_id ip))
              (item_projects (delete_empty_item_rooms d2))) \<and>
           projects (delete_empty_item_rooms d2) = projects d \<and>
           items_us (delete_empty_item_rooms d2) = items_us d \<and>
           reserved_quantity_of (delete_empty_item_rooms d2) i p = room_total d i p + 1 \<and>
           filter (\<lambda>ip. ip_item_id ip = i \<and> ip_project_id ip = q)
             (item_projects (delete_empty_item_rooms d2)) =
           filter (\<lambda>ip. ip_item_id ip = i \<and> ip_project_id ip = q) (item_projects d) \<and>
           item_rooms_of (rooms (delete_empty_item_rooms d2))
             (item_rooms (delete_empty_item_rooms d2)) i q =
           filter (\<lambda>ir. \<not> item_quantity ir < 1) (item_rooms_of (rooms d) (item_rooms d) i q)"
proof -
  from place_in_unassigned_result [OF schema, of p i] obtain d1 where
    d1: "place_in_unassigned p i d = Inr d1" and s1: "schema_ok d1"
    and t1: "room_total d1 i p = room_total d i p + 1"
    and o1: "\<forall>i' q. q \<noteq> p \<longrightarrow> item_rooms_of (rooms d1) (item_rooms d1) i' q =
                                 item_rooms_of (rooms d) (item_rooms d) i' q"
    by blast
  note f1 = place_in_unassigned_frame [OF d1]
  have k1: "distinct (map (\<lambda>ip. (ip_item_id ip, ip_project_id ip)) (item_projects d1))"
    using s1 by (simp add: schema_ok_def)
  from sync_item_project_result [OF k1, of i p] obtain d2 where
    d2: "sync_item_project i p d1 = Inr d2"
    and k2: "distinct (map (\<lambda>ip. (ip_item_id ip, ip_project_id ip)) (item_projects d2))"
    and r2: "reserved_quantity_of d2 i p = room_total d1 i p"
    and o2: "\<forall>i' q. (i', q) \<noteq> (i, p) \<longrightarrow>
              filter (\<lambda>ip. ip_item_id ip = i' \<and> ip_project_id ip = q) (item_projects d2) =
              filter (\<lambda>ip. ip_item_id ip = i' \<and> ip_project_id ip = q) (item_projects d1)"
    by blast
  note f2 = sync_item_project_frame [OF d2]
  let ?d3 = "delete_empty_item_rooms d2"
  have "reserved_quantity_of ?d3 i p = room_total d i p + 1"
    using r2 t1 by (simp add: reserved_quantity_of_def delete_empty_item_rooms_frame)
  moreover have "filter (\<lambda>ip. ip_item_id ip = i \<and> ip_project_id ip = q) (item_projects ?d3) =
           filter (\<lambda>ip. ip_item_id ip = i \<and> ip_project_id ip = q) (item_projects d)"
    using o2 qp by (simp add: delete_empty_item_rooms_frame f1)
  moreover have "item_rooms_of (rooms ?d3) (item_rooms ?d3) i q =
           filter (\<lambda>ir. \<not> item_quantity ir < 1) (item_rooms_of (rooms d) (item_rooms d) i q)"
    using o1 qp
    by (simp add: delete_empty_item_rooms_def item_rooms_of_filter f2)
  ultimately show ?thesis
    using d1 d2 k2 by (simp add: delete_empty_item_rooms_frame f1 f2)
qed

subsection \<open>The steal itself\<close>

lemma checkout_item_u_steal:
  assumes u: "objects_get (\<lambda>u. item_u_id u = uid) (items_us (ls_db ls)) = Inr u"
    and it: "objects_get (\<lambda>it. item_id it = iu_item_id u) (items_tbl (ls_db ls)) = Inr it"
    and st: "stage u = ''r''" and pr: "iu_project_id u = Some q" and qp: "q \<noteq> p"
    and d1: "place_in_unassigned p (item_id it) (ls_db ls) = Inr d1"
    and d2: "sync_item_project (item_id it) p d1 = Inr d2"
    and d4: "back_out_previous (item_id it) q (delete_empty_item_rooms d2) = Inr d4"
  shows "checkout_item_u p uid ls =
         Inr (Continue \<lparr>ls_db = mark_checked_out p u d4,
                         item_id_list = item_id_list ls @ [iu_item_id u],
                         stolen_projects = stolen_add q (sku_num it) (stolen_projects ls)\<rparr>)"
proof -
  have i: "item_id it = iu_item_id u" using objects_get_holds [OF it] .
  show ?thesis
    using u it st pr qp d1 d2 d4
    by (simp add: checkout_item_u_def checkout_available_or_stolen_def Let_def i)
qed

lemma sum_list_drop_empty:
  fixes f :: "'a \<Rightarrow> int"
  shows "\<forall>x \<in> set xs. 0 \<le> f x \<Longrightarrow>
         sum_list (map f (filter (\<lambda>x. \<not> f x < 1) xs)) = sum_list (map f xs)"
  by (induction xs) auto

text \<open>Claim C2, as amended. The loop state meets the key constraints; the unit is reserved
  on a project q other than the target p; q exists and holds a row of the item with a
  quantity of at least 1, none of its rows of the item having a negative quantity. Then the
  loop body completes. The sum over the rows of q has gone down by 1, and the reserved
  quantity of q is recomputed to that sum; the reserved quantity of p is recomputed to the
  sum over the rows of p with the unit added. Against the reserved quantities stored before
  the step, that is a decrease by 1 for q exactly when the quantity of q agreed with the sum
  over its rows, and an increase by 1 for p exactly when the quantity of p agreed with the
  sum over its rows. There is exactly one event for q and the sku, whose quantity is what
  was recorded before plus 1, and the unit is in stage \<^verbatim>\<open>"c"\<close> on project p.\<close>

theorem cross_project_steal:
  assumes "schema_ok (ls_db ls)"
    and "objects_get (\<lambda>u. item_u_id u = uid) (items_us (ls_db ls)) = Inr u"
    and "objects_get (\<lambda>it. item_id it = iu_item_id u) (items_tbl (ls_db ls)) = Inr it"
    and "stage u = ''r''" and "iu_project_id u = Some q" and "q \<noteq> p"
    and "objects_get (\<lambda>pr. project_id pr = q) (projects (ls_db ls)) = Inr prq"
    and "\<exists>ir \<in> set (item_rooms_of (rooms (ls_db ls)) (item_rooms (ls_db ls)) (item_id it) q).
           1 \<le> item_quantity ir"
    and "\<forall>ir \<in> set (item_rooms_of (rooms (ls_db ls)) (item_rooms (ls_db ls)) (item_id it) q).
           0 \<le> item_quantity ir"
    and "stolen_keys_distinct (stolen_projects ls)"
  shows "\<exists>ls'. checkout_item_u p uid ls = Inr (Continue ls') \<and>
           room_total (ls_db ls') (item_id it) q = room_total (ls_db ls) (item_id it) q - 1 \<and>
           reserved_quantity_of (ls_db ls') (item_id it) q =
             room_total (ls_db ls) (item_id it) q - 1 \<and>
           reserved_quantity_of (ls_db ls') (item_id it) p =
             room_total (ls_db ls) (item_id it) p + 1 \<and>
           ((reserved_quantity_of (ls_db ls') (item_id it) q =
               reserved_quantity_of (ls_db ls) (item_id it) q - 1) =
            (reserved_quantity_of (ls_db ls) (item_id it) q =
               room_total (ls_db ls) (item_id it) q)) \<and>
           ((reserved_quantity_of (ls_db ls') (item_id it) p =
               reserved_quantity_of (ls_db ls) (item_id it) p + 1) =
            (reserved_quantity_of (ls_db ls) (item_id it) p =
               room_total (ls_db ls) (item_id it) p)) \<and>
           stolen_quantities (stolen_projects ls') q (sku_num it) =
             [sum_list (stolen_quantities (stolen_projects ls) q (sku_num it)) + 1] \<and>
           stolen_keys_distinct (stolen_projects ls') \<and>
           objects_get (\<lambda>v. item_u_id v = uid) (items_us (ls_db ls')) =
             Inr (u\<lparr>stage := ''c'', iu_project_id := Some p\<rparr>)"
proof -
  let ?d = "ls_db ls" and ?i = "item_id it"
  from steal_steps [OF assms(1,6), of ?i] obtain d1 d2 where
    d1: "place_in_unassigned p ?i ?d = Inr d1" and d2: "sync_item_project ?i p d1 = Inr d2"
    and k3: "distinct (map (\<lambda>ip. (ip_item_id ip, ip_project_id ip))
              (item_projects (delete_empty_item_rooms d2)))"
    and p3: "projects (delete_empty_item_rooms d2) = projects ?d"
    and u3: "items_us (delete_empty_item_rooms d2) = items_us ?d"
    and rp3: "reserved_quantity_of (delete_empty_item_rooms d2) ?i p = room_total ?d ?i p + 1"
    and ir3: "item_rooms_of (rooms (delete_empty_item_rooms d2))
                (item_rooms (delete_empty_item_rooms d2)) ?i q =
              filter (\<lambda>ir. \<not> item_quantity ir < 1) (item_rooms_of (rooms ?d) (item_rooms ?d) ?i q)"
    by blast
  let ?d3 = "delete_empty_item_rooms d2"
  from assms(8) obtain ir where
    "ir \<in> set (item_rooms_of (rooms ?d) (item_rooms ?d) ?i q)" and "1 \<le> item_quantity ir"
    by blast
  then have "ir \<in> set (item_rooms_of (rooms ?d3) (item_rooms ?d3) ?i q)"
    unfolding ir3 by simp
  then have ne3: "item_rooms_of (rooms ?d3) (item_rooms ?d3) ?i q \<noteq> []"
    by auto
  have pos3: "\<forall>ir \<in> set (item_rooms_of (rooms ?d3) (item_rooms ?d3) ?i q). 1 \<le> item_quantity ir"
    unfolding ir3 by auto
  have prq3: "objects_get (\<lambda>pr. project_id pr = q) (projects ?d3) = Inr prq"
    using assms(7) by (simp add: p3)
  from back_out_previous_result [OF k3 ne3 pos3 prq3] obtain d4 where
    d4: "back_out_previous ?i q ?d3 = Inr d4"
    and t4: "room_total d4 ?i q = room_total ?d3 ?i q - 1"
    and r4: "reserved_quantity_of d4 ?i q = room_total ?d3 ?i q - 1"
    and o4: "\<forall>i' q'. (i', q') \<noteq> (?i, q) \<longrightarrow>
              filter (\<lambda>ip. ip_item_id ip = i' \<and> ip_project_id ip = q') (item_projects d4) =
              filter (\<lambda>ip. ip_item_id ip = i' \<and> ip_project_id ip = q') (item_projects ?d3)"
    by blast
  have tq: "room_total ?d3 ?i q = room_total ?d ?i q"
    unfolding room_total_def ir3 using assms(9) by (rule sum_list_drop_empty)
  have rp4: "reserved_quantity_of d4 ?i p = room_total ?d ?i p + 1"
    using o4 assms(6) rp3 by (simp add: reserved_quantity_of_def)
  have u4: "items_us d4 = items_us ?d"
    using back_out_previous_frame(6) [OF d4] by (simp add: u3)
  let ?ls' = "\<lparr>ls_db = mark_checked_out p u d4,
               item_id_list = item_id_list ls @ [iu_item_id u],
               stolen_projects = stolen_add q (sku_num it) (stolen_projects ls)\<rparr>"
  have run: "checkout_item_u p uid ls = Inr (Continue ?ls')"
    using assms(2-6) d1 d2 d4 by (rule checkout_item_u_steal)
  have unit: "objects_get (\<lambda>v. item_u_id v = uid) (items_us (mark_checked_out p u d4)) =
             Inr (u\<lparr>stage := ''c'', iu_project_id := Some p\<rparr>)"
    using assms(2) by (intro mark_checked_out_get) (simp add: u4)
  have tq': "room_total (mark_checked_out p u d4) ?i q = room_total ?d ?i q - 1"
    using t4 tq by (simp add: room_total_def mark_checked_out_frame)
  have rq': "reserved_quantity_of (mark_checked_out p u d4) ?i q = room_total ?d ?i q - 1"
    using r4 tq by (simp add: reserved_quantity_of_def mark_checked_out_frame)
  have rp': "reserved_quantity_of (mark_checked_out p u d4) ?i p = room_total ?d ?i p + 1"
    using rp4 by (simp add: reserved_quantity_of_def mark_checked_out_frame)
  have "\<exists>ls'. checkout_item_u p uid ls = Inr (Continue ls') \<and>
           room_total (ls_db ls') ?i q = room_total ?d ?i q - 1 \<and>
           reserved_quantity_of (ls_db ls') ?i q = room_total ?d ?i q - 1 \<and>
           reserved_quantity_of (ls_db ls') ?i p = room_total ?d ?i p + 1 \<and>
           stolen_quantities (stolen_projects ls') q (sku_num it) =
             [sum_list (stolen_quantities (stolen_projects ls) q (sku_num it)) + 1] \<and>
           stolen_keys_distinct (stolen_projects ls') \<and>
           objects_get (\<lambda>v. item_u_id v = uid) (items_us (ls_db ls')) =
             Inr (u\<lparr>stage := ''c'', iu_project_id := Some p\<rparr>)"
    using run unit tq' rq' rp'
      stolen_quantities_add [OF assms(10)] stolen_keys_distinct_add [OF assms(10)]
    by simp
  then obtain ls' where
    "checkout_item_u p uid ls = Inr (Continue ls')"
    "room_total (ls_db ls') ?i q = room_total ?d ?i q - 1"
    "reserved_quantity_of (ls_db ls') ?i q = room_total ?d ?i q - 1"
    "reserved_quantity_of (ls_db ls') ?i p = room_total ?d ?i p + 1"
    "stolen_quantities (stolen_projects ls') q (sku_num it) =
       [sum_list (stolen_quantities (stolen_projects ls) q (sku_num it)) + 1]"
    "stolen_keys_distinct (stolen_projects ls')"
    "objects_get (\<lambda>v. item_u_id v = uid) (items_us (ls_db ls')) =
       Inr (u\<lparr>stage := ''c'', iu_project_id := Some p\<rparr>)"
    by blast
  then show ?thesis
    by (intro exI [of _ ls'] conjI) (simp_all, linarith+)
qed

theorem cross_project_steal_witness:
  "\<exists>ls'. checkout_item_u 1 1
            \<lparr>ls_db = steal_db, item_id_list = [],
             stolen_projects = [(2, [(''SKU10'', 1)])]\<rparr> = Inr (Continue ls') \<and>
         room_total (ls_db ls') 10 2 = 0 \<and>
         reserved_quantity_of (ls_db ls') 10 2 = 0 \<and>
         reserved_quantity_of (ls_db ls') 10 1 = 1 \<and>
         stolen_quantities (stolen_projects ls') 2 ''SKU10'' = [2] \<and>
         stolen_keys_distinct (stolen_projects ls') \<and>
         objects_get (\<lambda>v. item_u_id v = 1) (items_us (ls_db ls')) =
           Inr \<lparr>item_u_id = 1, iu_item_id = 10, stage = ''c'', iu_project_id = Some 1\<rparr>"
proof -
  let ?ls = "\<lparr>ls_db = steal_db, item_id_list = [], stolen_projects = [(2, [(''SKU10'', 1)])]\<rparr>"
  let ?u = "\<lparr>item_u_id = 1, iu_item_id = 10, stage = ''r'', iu_project_id = Some 2\<rparr>"
  let ?it = "mk_item 10 ''SKU10'' ''ST10'' (Some 0) (Some 1) (Some 1)"
  have schema: "schema_ok (ls_db ?ls)"
    by (simp add: schema_ok_def steal_db_def example_defs)
  have u: "objects_get (\<lambda>u. item_u_id u = 1) (items_us (ls_db ?ls)) = Inr ?u"
    by (simp add: objects_get_def steal_db_def example_defs)
  have it: "objects_get (\<lambda>it. item_id it = iu_item_id ?u) (items_tbl (ls_db ?ls)) = Inr ?it"
    by (simp add: objects_get_def steal_db_def example_defs)
  have prq: "objects_get (\<lambda>pr. project_id pr = 2) (projects (ls_db ?ls)) =
             Inr \<lparr>project_id = 2, project_name = ''Beta'', completed_date = None\<rparr>"
    by (simp add: objects_get_def steal_db_def example_defs)
  have rows: "item_rooms_of (rooms (ls_db ?ls)) (item_rooms (ls_db ?ls)) (item_id ?it) 2 =
              [\<lparr>ir_item_id = 10, ir_room_id = 5, item_quantity = 1,
                item_quantity_holder = 1, all_reserved = 1\<rparr>]"
    by (simp add: item_rooms_of_def room_in_project_def steal_db_def example_defs)
  have keys: "stolen_keys_distinct (stolen_projects ?ls)"
    by (simp add: stolen_keys_distinct_def)
  have sq: "stolen_quantities (stolen_projects ?ls) 2 (sku_num ?it) = [1]"
    by (simp add: stolen_quantities_def stolen_pairs_def mk_item_def)
  have before: "room_total (ls_db ?ls) (item_id ?it) 2 = 1"
    unfolding room_total_def rows by simp
  have before_p: "room_total (ls_db ?ls) (item_id ?it) 1 = 0"
    by (simp add: room_total_def item_rooms_of_def room_in_project_def steal_db_def example_defs)
  have held: "reserved_quantity_of (ls_db ?ls) (item_id ?it) 2 = 1"
    by (simp add: reserved_quantity_of_def steal_db_def example_defs)
  have held_p: "reserved_quantity_of (ls_db ?ls) (item_id ?it) 1 = 0"
    by (simp add: reserved_quantity_of_def steal_db_def example_defs)
  from cross_project_steal [OF schema u it _ _ _ prq _ _ keys, of 1]
  show ?thesis
    unfolding rows sq before before_p held held_p
    by (auto simp: mk_item_def)
qed

text \<open>The claim C2 as stated fails: in the batch of units 1 and 2 of item 10 into
  project 1, starting from tables whose \<^verbatim>\<open>ItemProject\<close> quantities agree with the
  \<^verbatim>\<open>ItemRoom\<close> sums, unit 1 (move stage) lands in the Unassigned room of project 1 without
  an \<^verbatim>\<open>ItemProject\<close> row; the steal of unit 2 from project 2 then recomputes the reserved
  quantity of project 1 from 0 to 2, not to 1.\<close>

theorem cross_project_steal_counterexample:
  "reserved_quantity_of mixed_db 10 1 = room_total mixed_db 10 1 \<and>
   reserved_quantity_of mixed_db 10 2 = room_total mixed_db 10 2 \<and>
   checkout_item_u 1 1 \<lparr>ls_db = mixed_db, item_id_list = [], stolen_projects = []\<rparr> =
     Inr (Continue \<lparr>ls_db = mixed_db_mid, item_id_list = [10], stolen_projects = []\<rparr>) \<and>
   reserved_quantity_of mixed_db_mid 10 1 = 0 \<and>
   checkout_item_u 1 2 \<lparr>ls_db = mixed_db_mid, item_id_list = [10], stolen_projects = []\<rparr> =
     Inr (Continue \<lparr>ls_db = mixed_db_after, item_id_list = [10, 10],
                     stolen_projects = [(2, [(''SKU10'', 1)])]\<rparr>) \<and>
   reserved_quantity_of mixed_db_after 10 1 = 2 \<and>
   confirm_checkout update_item_quantities req1 (ex_world mixed_db [1, 2]) =
     Inr (Success_True,
          \<lparr>db = mixed_db_after, session = empty_session,
           outbox = [\<lparr>subject = ''Alert: Item Reservation Adjusted'',
                      recipients = {''bea@beta.example'', ''root@studio.example''},
                      new_project_name = ''Alpha'', e_project_name = ''Beta'',
                      e_item_name = ''ST10'', e_sku = ''SKU10'', adjusted_by = ''Ann Lee'',
                      adjusted_quantity = 1\<rparr>],
           qr_stickers = None\<rparr>)"
  by (simp add: checkout_defs example_defs reserved_quantity_of_def room_total_def
      mixed_db_def mixed_db_mid_def mixed_db_after_def insert_commute)

subsection \<open>The key constraints are kept\<close>

lemma set_delete_first: "set (delete_first P xs) \<subseteq> set xs"
  by (induction xs) auto

lemma distinct_map_delete_first:
  "distinct (map f xs) \<Longrightarrow> distinct (map f (delete_first P xs))"
proof (induction xs)
  case Nil
  then show ?case by simp
next
  case (Cons x xs)
  then show ?case using set_delete_first [of P xs] by (auto simp: image_iff)
qed

lemma map_save_first: "(\<And>x. f (g x) = f x) \<Longrightarrow> map f (save_first P g xs) = map f xs"
  by (induction xs) auto

lemma schema_ok_item_rooms:
  assumes "schema_ok d"
    and "distinct (map (\<lambda>ir. (ir_item_id ir, ir_room_id ir)) irs)"
    and "ir_room_id ` set irs \<subseteq> ir_room_id ` set (item_rooms d)"
  shows "schema_ok (d\<lparr>item_rooms := irs\<rparr>)"
  using assms by (auto simp: schema_ok_def list_all_iff)

lemma schema_ok_delete_empty: "schema_ok d \<Longrightarrow> schema_ok (delete_empty_item_rooms d)"
  unfolding delete_empty_item_rooms_def
  by (rule schema_ok_item_rooms) (auto simp: schema_ok_def distinct_map_filter)

lemma schema_ok_sync:
  assumes "schema_ok d" and "sync_item_project i p d = Inr d'"
  shows "schema_ok d'"
proof -
  from assms(1) have k: "distinct (map (\<lambda>ip. (ip_item_id ip, ip_project_id ip)) (item_projects d))"
    by (simp add: schema_ok_def)
  from sync_item_project_result [OF k, of i p] assms(2)
  have "distinct (map (\<lambda>ip. (ip_item_id ip, ip_project_id ip)) (item_projects d'))"
    by auto
  then show ?thesis
    using assms(1) sync_item_project_frame [OF assms(2)] by (simp add: schema_ok_def)
qed

lemma schema_ok_back_out:
  assumes "schema_ok d" and "back_out_previous i q d = Inr d'"
  shows "schema_ok d'"
proof (cases "find (\<lambda>ir. ir_item_id ir = i \<and> room_in_project (rooms d) q (ir_room_id ir))
                (item_rooms d)")
  case None
  then show ?thesis using assms by (simp add: back_out_previous_def)
next
  case (Some y)
  let ?B = "\<lambda>ir. ir_item_id ir = i \<and> room_in_project (rooms d) q (ir_room_id ir)"
  let ?g = "\<lambda>ir. ir\<lparr>item_quantity := item_quantity ir - 1,
                      item_quantity_holder := item_quantity_holder ir - 1,
                      all_reserved := all_reserved ir - 1\<rparr>"
  from assms(2) Some have "\<exists>p' irs. sync_item_project i p' (d\<lparr>item_rooms := irs\<rparr>) = Inr d' \<and>
          (irs = delete_first ?B (item_rooms d) \<or> irs = save_first ?B ?g (item_rooms d))"
    unfolding back_out_previous_def Let_def
    by (simp split: sum.splits if_splits) blast+
  then obtain p' irs where
    sync: "sync_item_project i p' (d\<lparr>item_rooms := irs\<rparr>) = Inr d'"
    and irs: "irs = delete_first ?B (item_rooms d) \<or> irs = save_first ?B ?g (item_rooms d)"
    by blast
  from assms(1) have k: "distinct (map (\<lambda>ir. (ir_item_id ir, ir_room_id ir)) (item_rooms d))"
    by (simp add: schema_ok_def)
  have keys: "distinct (map (\<lambda>ir. (ir_item_id ir, ir_room_id ir)) irs)"
    using k irs by (auto simp: distinct_map_delete_first map_save_first)
  have "map ir_room_id (save_first ?B ?g (item_rooms d)) = map ir_room_id (item_rooms d)"
    by (rule map_save_first) simp
  then have "set (map ir_room_id (save_first ?B ?g (item_rooms d))) =
             set (map ir_room_id (item_rooms d))"
    by simp
  then have fk: "ir_room_id ` set irs \<subseteq> ir_room_id ` set (item_rooms d)"
    using set_delete_first [of ?B "item_rooms d"] irs by auto
  have "schema_ok (d\<lparr>item_rooms := irs\<rparr>)"
    using assms(1) keys fk by (rule schema_ok_item_rooms)
  then show ?thesis using sync by (rule schema_ok_sync)
qed

lemma schema_ok_mark_checked_out: "schema_ok d \<Longrightarrow> schema_ok (mark_checked_out p u d)"
  by (simp add: schema_ok_def mark_checked_out_frame)

lemma schema_ok_items_us: "schema_ok (d\<lparr>items_us := us\<rparr>) = schema_ok d"
  by (simp add: schema_ok_def)

lemma schema_ok_place:
  assumes "schema_ok d" and "place_in_unassigned p i d = Inr d1"
  shows "schema_ok d1"
  using place_in_unassigned_result [OF assms(1), of p i] assms(2) by auto

lemma schema_ok_checkout_item_u:
  assumes "schema_ok (ls_db ls)" and "checkout_item_u p uid ls = Inr (Continue ls')"
  shows "schema_ok (ls_db ls')"
proof -
  from assms(2) obtain u it where
    u: "objects_get (\<lambda>u. item_u_id u = uid) (items_us (ls_db ls)) = Inr u"
    and it: "objects_get (\<lambda>it. item_id it = iu_item_id u) (items_tbl (ls_db ls)) = Inr it"
    by (auto simp: checkout_item_u_def Let_def split: sum.splits)
  let ?ls = "ls\<lparr>item_id_list := item_id_list ls @ [iu_item_id u]\<rparr>"
  from assms(2) u it obtain ls1 where
    ls': "ls' = ls1\<lparr>ls_db := mark_checked_out p u (ls_db ls1)\<rparr>"
    and ls1: "checkout_available_or_stolen p u it
                (stage u = ''r'' \<and> the (iu_project_id u) \<noteq> p) ?ls = Inr ls1 \<or>
              checkout_moving p u it ?ls = Inr ls1 \<or> ls1 = ?ls"
    by (auto simp: checkout_item_u_def Let_def split: sum.splits if_splits step.splits)
  from ls1 have "schema_ok (ls_db ls1)"
  proof (elim disjE)
    assume "checkout_available_or_stolen p u it
              (stage u = ''r'' \<and> the (iu_project_id u) \<noteq> p) ?ls = Inr ls1"
    then obtain d1 d2 where
      d1: "place_in_unassigned p (item_id it) (ls_db ?ls) = Inr d1"
      and d2: "sync_item_project (item_id it) p d1 = Inr d2"
      and fin0: "(\<not> (stage u = ''r'' \<and> the (iu_project_id u) \<noteq> p) \<and>
                  ls1 = ?ls\<lparr>ls_db := delete_empty_item_rooms d2\<rparr>) \<or>
         ((stage u = ''r'' \<and> the (iu_project_id u) \<noteq> p) \<and>
          (\<exists>d4. back_out_previous (iu_item_id u) (the (iu_project_id u))
                             (delete_empty_item_rooms d2) = Inr d4 \<and>
                           ls1 = ?ls\<lparr>ls_db := d4,
                                     stolen_projects :=
                                       stolen_add (the (iu_project_id u)) (sku_num it)
                                         (stolen_projects ?ls)\<rparr>))"
      by (rule checkout_available_or_stolen_cases)
    from fin0 have fin: "ls_db ls1 = delete_empty_item_rooms d2 \<or>
                (\<exists>q. back_out_previous (iu_item_id u) q (delete_empty_item_rooms d2) =
                       Inr (ls_db ls1))"
      by auto
    have "schema_ok (ls_db ?ls)" using assms(1) by simp
    then have "schema_ok d1" using d1 by (rule schema_ok_place)
    then have "schema_ok d2" using d2 by (rule schema_ok_sync)
    then have s3: "schema_ok (delete_empty_item_rooms d2)" by (rule schema_ok_delete_empty)
    from fin show ?thesis
    proof
      assume "ls_db ls1 = delete_empty_item_rooms d2"
      then show ?thesis using s3 by simp
    next
      assume "\<exists>q. back_out_previous (iu_item_id u) q (delete_empty_item_rooms d2) =
                   Inr (ls_db ls1)"
      then obtain q where
        "back_out_previous (iu_item_id u) q (delete_empty_item_rooms d2) = Inr (ls_db ls1)"
        by blast
      with s3 show ?thesis by (rule schema_ok_back_out)
    qed
  next
    assume "checkout_moving p u it ?ls = Inr ls1"
    then obtain d2 where
      pl: "place_in_unassigned p (item_id it)
         ((ls_db ls)\<lparr>items_us :=
            save_first (\<lambda>v. iu_item_id v = iu_item_id u \<and> stage v = ''a'')
              (\<lambda>v. v\<lparr>stage := ''m'', iu_project_id := None\<rparr>) (items_us (ls_db ls))\<rparr>) = Inr d2"
      and eq: "ls_db ls1 = d2"
      by (auto simp: checkout_moving_def Let_def split: sum.splits)
    moreover have "schema_ok ((ls_db ls)\<lparr>items_us :=
            save_first (\<lambda>v. iu_item_id v = iu_item_id u \<and> stage v = ''a'')
              (\<lambda>v. v\<lparr>stage := ''m'', iu_project_id := None\<rparr>) (items_us (ls_db ls))\<rparr>)"
      using assms(1) by (simp only: schema_ok_items_us)
    ultimately have "schema_ok d2" using schema_ok_place by blast
    then show ?thesis by (simp add: eq)
  next
    assume "ls1 = ?ls"
    then show ?thesis using assms(1) by simp
  qed
  then show ?thesis by (simp add: ls' schema_ok_mark_checked_out)
qed

lemma schema_ok_checkout_loop:
  "checkout_loop p uids ls = Inr (Continue ls') \<Longrightarrow> schema_ok (ls_db ls) \<Longrightarrow>
   schema_ok (ls_db ls')"
proof (induction uids arbitrary: ls)
  case Nil
  then show ?case by simp
next
  case (Cons uid uids)
  from Cons.prems obtain ls1 where
    step: "checkout_item_u p uid ls = Inr (Continue ls1)"
    and rest: "checkout_loop p uids ls1 = Inr (Continue ls')"
    by (auto split: sum.splits step.splits)
  have "schema_ok (ls_db ls1)"
    using Cons.prems(2) step by (rule schema_ok_checkout_item_u)
  then show ?case by (rule Cons.IH [OF rest])
qed

subsection \<open>A steal from a project that holds no row of the item\<close>

lemma item_pairs_keys:
  "(\<lambda>(q, s, n). (q, s)) ` set (map (\<lambda>(s, n). (q, s, n)) its) = (\<lambda>s. (q, s)) ` fst ` set its"
  by (induction its) auto

lemma stolen_pairs_keys_Cons:
  "(\<lambda>(q, s, n). (q, s)) ` set (stolen_pairs ((q, its) # sps)) =
   (\<lambda>s. (q, s)) ` fst ` set its \<union> (\<lambda>(q, s, n). (q, s)) ` set (stolen_pairs sps)"
  by (simp only: stolen_pairs_Cons set_append image_Un item_pairs_keys)

lemma set_stolen_item_add_keys: "fst ` set (stolen_item_add s its) = insert s (fst ` set its)"
proof -
  have "set (map fst (stolen_item_add s its)) = insert s (set (map fst its))"
    by (simp only: map_fst_stolen_item_add) auto
  then show ?thesis by simp
qed

lemma stolen_add_keys:
  "(\<lambda>(q, s, n). (q, s)) ` set (stolen_pairs (stolen_add q s sps)) =
   insert (q, s) ((\<lambda>(q, s, n). (q, s)) ` set (stolen_pairs sps))"
proof (induction sps)
  case Nil
  then show ?case by (simp add: stolen_pairs_def)
next
  case (Cons sp sps)
  obtain q' its where sp: "sp = (q', its)" by (cases sp)
  show ?case
  proof (cases "q' = q")
    case True
    have "stolen_add q s (sp # sps) = (q, stolen_item_add s its) # sps"
      using True by (simp add: sp)
    then show ?thesis
      using True
      by (simp only: sp stolen_pairs_keys_Cons set_stolen_item_add_keys) auto
  next
    case False
    have "stolen_add q s (sp # sps) = (q', its) # stolen_add q s sps"
      using False by (simp add: sp)
    then show ?thesis
      using Cons.IH by (simp only: sp stolen_pairs_keys_Cons) auto
  qed
qed

lemma checkout_loop_keeps_events:
  "checkout_loop p uids ls = Inr (Continue ls') \<Longrightarrow>
   (q, s) \<in> (\<lambda>(q, s, n). (q, s)) ` set (stolen_pairs (stolen_projects ls)) \<Longrightarrow>
   (q, s) \<in> (\<lambda>(q, s, n). (q, s)) ` set (stolen_pairs (stolen_projects ls'))"
proof (induction uids arbitrary: ls)
  case Nil
  then show ?case by simp
next
  case (Cons uid uids)
  from Cons.prems obtain ls1 where
    step: "checkout_item_u p uid ls = Inr (Continue ls1)"
    and rest: "checkout_loop p uids ls1 = Inr (Continue ls')"
    by (auto split: sum.splits step.splits)
  have "(q, s) \<in> (\<lambda>(q, s, n). (q, s)) ` set (stolen_pairs (stolen_projects ls1))"
  proof -
    from checkout_item_u_stolen [OF step] consider
      "stolen_projects ls1 = stolen_projects ls" |
      q' s' where "stolen_projects ls1 = stolen_add q' s' (stolen_projects ls)"
      by blast
    then show ?thesis
    proof cases
      case 1
      then show ?thesis using Cons.prems(2) by simp
    next
      case 2
      then show ?thesis using Cons.prems(2) by (simp only: stolen_add_keys insert_iff) simp
    qed
  qed
  then show ?case by (rule Cons.IH [OF rest])
qed

lemma list_all2_member:
  "list_all2 P xs ys \<Longrightarrow> y \<in> set ys \<Longrightarrow> \<exists>x \<in> set xs. P x y"
  by (metis in_set_conv_nth list_all2_conv_all_nth)

text \<open>Claim C9. In a batch that completes and starts from tables that meet the key
  constraints, let the loop reach the unit \<open>uid\<close> in the state \<open>ls\<close>, and let the unit be
  reserved on a project q other than the target, where q has no \<^verbatim>\<open>ItemRoom\<close> row of the
  item. Then the loop body completes for the unit: q still has no row of the item, the
  \<^verbatim>\<open>ItemProject\<close> rows of the item and q are what they were (none is created or
  recomputed), the event of q and the sku is recorded with one more unit, and a mail for
  q and the sku is among those sent at the end of the batch.\<close>

theorem steal_without_previous_row:
  assumes "checkout_session_item_us (session w) = Some (before @ uid # after)"
    and "checkout_loop (body_project_id req) before
           \<lparr>ls_db = db w, item_id_list = [], stolen_projects = []\<rparr> = Inr (Continue ls)"
    and "schema_ok (db w)"
    and "objects_get (\<lambda>u. item_u_id u = uid) (items_us (ls_db ls)) = Inr u"
    and "objects_get (\<lambda>it. item_id it = iu_item_id u) (items_tbl (ls_db ls)) = Inr it"
    and "stage u = ''r''" and "iu_project_id u = Some q" and "q \<noteq> body_project_id req"
    and "item_rooms_of (rooms (ls_db ls)) (item_rooms (ls_db ls)) (item_id it) q = []"
    and "confirm_checkout uiq req w = Inr (Success_True, w')"
  shows "\<exists>ls' np es.
           checkout_item_u (body_project_id req) uid ls = Inr (Continue ls') \<and>
           item_rooms_of (rooms (ls_db ls')) (item_rooms (ls_db ls')) (item_id it) q = [] \<and>
           filter (\<lambda>ip. ip_item_id ip = item_id it \<and> ip_project_id ip = q)
             (item_projects (ls_db ls')) =
           filter (\<lambda>ip. ip_item_id ip = item_id it \<and> ip_project_id ip = q)
             (item_projects (ls_db ls)) \<and>
           stolen_projects ls' = stolen_add q (sku_num it) (stolen_projects ls) \<and>
           stolen_quantities (stolen_projects ls') q (sku_num it) =
             [sum_list (stolen_quantities (stolen_projects ls) q (sku_num it)) + 1] \<and>
           objects_get (\<lambda>pr. project_id pr = body_project_id req) (projects (db w)) = Inr np \<and>
           outbox w' = outbox w @ es \<and>
           (\<exists>e \<in> set es. \<exists>n. notifies (db w) (project_name np) e (q, sku_num it, n))"
proof -
  let ?p = "body_project_id req" and ?d = "ls_db ls" and ?i = "item_id it"
  have schema: "schema_ok (ls_db ls)"
    using schema_ok_checkout_loop [OF assms(2)] assms(3) by simp
  from steal_steps [OF schema assms(8), of ?i] obtain d1 d2 where
    d1: "place_in_unassigned ?p ?i ?d = Inr d1" and d2: "sync_item_project ?i ?p d1 = Inr d2"
    and ip3: "filter (\<lambda>ip. ip_item_id ip = ?i \<and> ip_project_id ip = q)
                (item_projects (delete_empty_item_rooms d2)) =
              filter (\<lambda>ip. ip_item_id ip = ?i \<and> ip_project_id ip = q) (item_projects ?d)"
    and ir3: "item_rooms_of (rooms (delete_empty_item_rooms d2))
                (item_rooms (delete_empty_item_rooms d2)) ?i q =
              filter (\<lambda>ir. \<not> item_quantity ir < 1) (item_rooms_of (rooms ?d) (item_rooms ?d) ?i q)"
    by blast
  let ?d3 = "delete_empty_item_rooms d2"
  have rows3: "item_rooms_of (rooms ?d3) (item_rooms ?d3) ?i q = []"
    using ir3 assms(9) by simp
  have d4: "back_out_previous ?i q ?d3 = Inr ?d3"
    using rows3 by (rule back_out_previous_none)
  let ?ls' = "\<lparr>ls_db = mark_checked_out ?p u ?d3,
               item_id_list = item_id_list ls @ [iu_item_id u],
               stolen_projects = stolen_add q (sku_num it) (stolen_projects ls)\<rparr>"
  have step: "checkout_item_u ?p uid ls = Inr (Continue ?ls')"
    using assms(4-8) d1 d2 d4 by (rule checkout_item_u_steal)
  have keys: "stolen_keys_distinct (stolen_projects ls)"
    using checkout_loop_stolen_keys_distinct [OF assms(2)]
    by (simp add: stolen_keys_distinct_def)
  from confirm_checkout_outbox [OF assms(10,1)] obtain lsf np es where
    np: "objects_get (\<lambda>pr. project_id pr = ?p) (projects (db w)) = Inr np"
    and full: "checkout_loop ?p (before @ uid # after)
                 \<lparr>ls_db = db w, item_id_list = [], stolen_projects = []\<rparr> = Inr (Continue lsf)"
    and es: "outbox w' = outbox w @ es"
    and all: "list_all2 (notifies (db w) (project_name np)) es (stolen_pairs (stolen_projects lsf))"
    by blast
  have rest: "checkout_loop ?p after ?ls' = Inr (Continue lsf)"
    using full assms(2) step by (simp add: checkout_loop_append)
  have "(q, sku_num it) \<in> (\<lambda>(q, s, n). (q, s)) ` set (stolen_pairs (stolen_projects ?ls'))"
    by (simp add: stolen_add_keys)
  then have "(q, sku_num it) \<in> (\<lambda>(q, s, n). (q, s)) ` set (stolen_pairs (stolen_projects lsf))"
    by (rule checkout_loop_keeps_events [OF rest])
  then obtain n where "(q, sku_num it, n) \<in> set (stolen_pairs (stolen_projects lsf))"
    by auto
  from list_all2_member [OF all this]
  have mail: "\<exists>e \<in> set es. \<exists>n. notifies (db w) (project_name np) e (q, sku_num it, n)"
    by blast
  show ?thesis
    using step np es mail rows3 ip3 stolen_quantities_add [OF keys, of q "sku_num it"]
    by (simp add: mark_checked_out_frame)
qed

lemma norow_example_run:
  "confirm_checkout update_item_quantities req1 (ex_world norow_db [1]) =
     Inr (Success_True,
          \<lparr>db = norow_db_after, session = empty_session, outbox = norow_outbox,
           qr_stickers = None\<rparr>)"
  by (simp add: checkout_defs example_defs norow_db_def norow_db_after_def norow_outbox_def
      insert_commute)

theorem steal_without_previous_row_witness:
  "\<exists>ls' np es.
     checkout_item_u 1 1 \<lparr>ls_db = norow_db, item_id_list = [], stolen_projects = []\<rparr> =
       Inr (Continue ls') \<and>
     item_rooms_of (rooms (ls_db ls')) (item_rooms (ls_db ls')) 10 2 = [] \<and>
     filter (\<lambda>ip. ip_item_id ip = 10 \<and> ip_project_id ip = 2) (item_projects (ls_db ls')) =
       [\<lparr>ip_item_id = 10, ip_project_id = 2, ip_reserved_quantity = 5,
         checked_out_quantity = 0, checked_out_quantity_holder = 0\<rparr>] \<and>
     stolen_projects ls' = [(2, [(''SKU10'', 1)])] \<and>
     stolen_quantities (stolen_projects ls') 2 ''SKU10'' = [1] \<and>
     objects_get (\<lambda>pr. project_id pr = 1) (projects norow_db) = Inr np \<and>
     norow_outbox = es \<and>
     (\<exists>e \<in> set es. \<exists>n. notifies norow_db (project_name np) e (2, ''SKU10'', n))"
proof -
  let ?ls = "\<lparr>ls_db = norow_db, item_id_list = [], stolen_projects = []\<rparr>"
  let ?u = "\<lparr>item_u_id = 1, iu_item_id = 10, stage = ''r'', iu_project_id = Some 2\<rparr>"
  let ?it = "mk_item 10 ''SKU10'' ''ST10'' (Some 0) (Some 1) (Some 1)"
  have sess: "checkout_session_item_us (session (ex_world norow_db [1])) = Some ([] @ 1 # [])"
    by (simp add: ex_world_def empty_session_def)
  have loop: "checkout_loop (body_project_id req1) []
                \<lparr>ls_db = db (ex_world norow_db [1]), item_id_list = [], stolen_projects = []\<rparr> =
              Inr (Continue ?ls)"
    by (simp add: ex_world_def)
  have schema: "schema_ok (db (ex_world norow_db [1]))"
    by (simp add: schema_ok_def norow_db_def example_defs)
  have u: "objects_get (\<lambda>u. item_u_id u = 1) (items_us (ls_db ?ls)) = Inr ?u"
    by (simp add: objects_get_def norow_db_def example_defs)
  have it: "objects_get (\<lambda>it. item_id it = iu_item_id ?u) (items_tbl (ls_db ?ls)) = Inr ?it"
    by (simp add: objects_get_def norow_db_def example_defs)
  have norow: "item_rooms_of (rooms (ls_db ?ls)) (item_rooms (ls_db ?ls)) (item_id ?it) 2 = []"
    by (simp add: item_rooms_of_def norow_db_def example_defs)
  have ips: "filter (\<lambda>ip. ip_item_id ip = item_id ?it \<and> ip_project_id ip = 2)
               (item_projects (ls_db ?ls)) =
             [\<lparr>ip_item_id = 10, ip_project_id = 2, ip_reserved_quantity = 5,
               checked_out_quantity = 0, checked_out_quantity_holder = 0\<rparr>]"
    by (simp add: norow_db_def example_defs)
  from steal_without_previous_row [OF sess loop schema u it _ _ _ norow norow_example_run]
  show ?thesis
    unfolding ips
    by (simp add: mk_item_def req1_def ex_world_def stolen_quantities_def stolen_pairs_def)
qed

section \<open>Properties of the inventory upload\<close>

lemmas upload_defs = add_inventory_def diff_report_def rollup_items_def rollup_total_def
  raise_previous_total_def blocking_projects_def dupes_def normalized_def id_text_def
  duplicate_message_def unique_def strip_def lower_def lower_char_def is_space_def
  irreconcilable_message_def second_pass_row_def new_item_row_def existing_item_row_def
  fix_quantities_def compare_fields_def register_change_def norm_def unquote_def
  qr_code_generator_def str_int_def Let_def

lemmas upload_example_defs = mk_item_def mk_row_def upload_def upload_world_def
  empty_session_def ex_db_def ex_projects_def ex_users_def ex_user_projects_def

subsection \<open>The duplicate check\<close>

lemma count_list_two:
  assumes "i < j" and "j < length xs" and "xs ! i = xs ! j"
  shows "1 < count_list xs (xs ! i)"
proof -
  have split: "xs = take j xs @ xs ! j # drop (Suc j) xs"
    using assms(2) by (simp add: id_take_nth_drop)
  have "xs ! i \<in> set (take j xs)"
    using assms(1,2) by (auto simp: in_set_conv_nth intro!: exI [of _ i])
  then have "0 < count_list (take j xs) (xs ! i)"
    using count_list_0_iff [of "take j xs" "xs ! i"] by auto
  moreover have "count_list xs (xs ! i) =
      count_list (take j xs) (xs ! i) + count_list (xs ! j # drop (Suc j) xs) (xs ! i)"
    by (subst split) (simp only: count_list_append)
  ultimately show ?thesis using assms(3) by simp
qed

lemma count_list_twice:
  assumes "i < length xs" and "j < length xs" and "i \<noteq> j" and "xs ! i = xs ! j"
  shows "1 < count_list xs (xs ! i)"
proof (cases "i < j")
  case True
  then show ?thesis using assms by (intro count_list_two) auto
next
  case False
  then have "j < i" using assms(3) by simp
  then have "1 < count_list xs (xs ! j)"
    using count_list_two [of j i xs] assms(1,4) by simp
  then show ?thesis using assms(4) by simp
qed

lemma in_dupes:
  assumes "i < length rs" and "j < length rs" and "i \<noteq> j"
    and "normalized (rs ! i) = normalized (rs ! j)"
  shows "rs ! i \<in> set (dupes rs)"
proof -
  have "1 < count_list (map normalized rs) (map normalized rs ! i)"
    using assms by (intro count_list_twice [where j = j]) simp_all
  then show ?thesis using assms(1) by (simp add: dupes_def)
qed

lemma blocking_projects_rollup [simp]:
  "blocking_projects (rollup_items d) = blocking_projects d"
  by (simp add: blocking_projects_def rollup_items_def)

lemma set_unique [simp]: "set (unique xs) = set xs"
  by (simp add: unique_def)

text \<open>Claim C7, as amended. Let the request pass the gates before the duplicate check, let
  two different rows of the report have the same normalised identifier (as two rows with
  the same identifier have), and let no duplicated row have a blank identifier cell. Then
  the view answers with the duplicate message, which lists the identifiers of both rows;
  the session is as it was (nothing is staged), and of the tables only \<^verbatim>\<open>Items\<close> is
  written: by the rollup of the totals that the view runs before every check.\<close>

theorem duplicate_identifiers_rejected:
  assumes "http_method req = ''POST''" and "has_inventory_file req"
    and "blocking_projects (db w) = []" and "\<not> manual_changes_pending req"
    and "i < length (report_rows req)" and "j < length (report_rows req)" and "i \<noteq> j"
    and "normalized (report_rows req ! i) = normalized (report_rows req ! j)"
    and "\<not> list_ex (\<lambda>r. inventory_id r = None) (dupes (report_rows req))"
  shows "add_inventory req w =
           Inr (Success_False
                  (''Duplicate Inventory Ids found: '' @
                   join '', '' (unique (map id_text (dupes (report_rows req)))) @ ''. '' @
                   ''Please review Studio report and resolve duplicates before proceeding.''),
                w\<lparr>db := rollup_items (db w)\<rparr>) \<and>
         id_text (report_rows req ! i) \<in> set (unique (map id_text (dupes (report_rows req)))) \<and>
         id_text (report_rows req ! j) \<in> set (unique (map id_text (dupes (report_rows req))))"
proof -
  have i: "report_rows req ! i \<in> set (dupes (report_rows req))"
    using assms(5-8) by (rule in_dupes)
  have j: "report_rows req ! j \<in> set (dupes (report_rows req))"
    using assms(5-8) by (intro in_dupes [where j = i]) simp_all
  from i have "dupes (report_rows req) \<noteq> []" by auto
  then have "add_inventory req w =
           Inr (Success_False (duplicate_message (dupes (report_rows req))),
                w\<lparr>db := rollup_items (db w)\<rparr>)"
    using assms(1-4,9) by (simp add: add_inventory_def Let_def)
  then show ?thesis using i j by (simp add: duplicate_message_def)
qed

text \<open>The claim C7 as stated fails: on a report with the identifier A1 in two rows the view
  answers with the duplicate message and stages nothing, but it has written the stored
  item 10, whose total and previous total went from 0 to 3.\<close>

theorem duplicate_identifiers_counterexample:
  "add_inventory
     (upload [mk_row (Some ''A1'') (Some 1) (Some 1), mk_row (Some ''A1'') (Some 1) (Some 1)])
     (upload_world stale_db) =
   Inr (Success_False
          (''Duplicate Inventory Ids found: A1. '' @
           ''Please review Studio report and resolve duplicates before proceeding.''),
        upload_world
          (stale_db\<lparr>items_tbl := [mk_item 10 ''SKU10'' ''ST10'' (Some 2) (Some 1) (Some 3)]\<rparr>)) \<and>
   items_tbl stale_db = [mk_item 10 ''SKU10'' ''ST10'' (Some 2) (Some 1) (Some 0)] \<and>
   mk_item 10 ''SKU10'' ''ST10'' (Some 2) (Some 1) (Some 3) \<noteq>
     mk_item 10 ''SKU10'' ''ST10'' (Some 2) (Some 1) (Some 0)"
  by (simp add: upload_defs upload_example_defs stale_db_def)

theorem duplicate_identifiers_rejected_witness:
  "add_inventory
     (upload [mk_row (Some ''A1'') (Some 1) (Some 1), mk_row (Some ''a1 '') (Some 0) (Some 1)])
     (upload_world stale_db) =
   Inr (Success_False
          (''Duplicate Inventory Ids found: A1, a1 . '' @
           ''Please review Studio report and resolve duplicates before proceeding.''),
        upload_world
          (stale_db\<lparr>items_tbl := [mk_item 10 ''SKU10'' ''ST10'' (Some 2) (Some 1) (Some 3)]\<rparr>))"
  using duplicate_identifiers_rejected [of
      "upload [mk_row (Some ''A1'') (Some 1) (Some 1), mk_row (Some ''a1 '') (Some 0) (Some 1)]"
      "upload_world stale_db" 0 1]
  by (simp add: upload_defs upload_example_defs stale_db_def)

subsection \<open>The first pass\<close>

lemma find_None_list_ex: "find P xs = None \<longleftrightarrow> \<not> list_ex P xs"
  by (auto simp: find_None_iff list_ex_iff)

lemma first_pass_items_result:
  assumes "\<forall>it \<in> set its. available_quantity it \<noteq> None \<and> reserved_quantity it \<noteq> None"
  shows "first_pass_items us sid its dels =
           (if \<exists>it \<in> set its. strands_reservation us it
            then Inr (Return (Success_False (irreconcilable_message sid))
                   (dels @ map sku_num (filter positive_total
                      (takeWhile (\<lambda>it. \<not> strands_reservation us it) its))))
            else Inr (Continue (dels @ map sku_num (filter positive_total its))))"
  using assms
proof (induction its arbitrary: dels)
  case Nil
  then show ?case by simp
next
  case (Cons it its)
  from Cons.prems obtain a r where
    ar: "available_quantity it = Some a" "reserved_quantity it = Some r"
    by auto
  have IH: "\<And>dels. first_pass_items us sid its dels =
           (if \<exists>it \<in> set its. strands_reservation us it
            then Inr (Return (Success_False (irreconcilable_message sid))
                   (dels @ map sku_num (filter positive_total
                      (takeWhile (\<lambda>it. \<not> strands_reservation us it) its))))
            else Inr (Continue (dels @ map sku_num (filter positive_total its))))"
    using Cons.IH Cons.prems by simp
  show ?case
  proof (cases "0 < a + r")
    case False
    then have "\<not> positive_total it" "\<not> strands_reservation us it"
      by (simp_all add: positive_total_def strands_reservation_def ar)
    then show ?thesis using False by (simp add: ar IH)
  next
    case True
    then have pos: "positive_total it" by (simp add: positive_total_def ar)
    show ?thesis
    proof (cases "find (\<lambda>u. iu_item_id u = item_id it \<and> stage u = ''r'') us")
      case None
      then have "\<not> strands_reservation us it"
        by (simp add: strands_reservation_def find_None_list_ex)
      then show ?thesis using True None pos by (simp add: ar IH)
    next
      case (Some u)
      then have "strands_reservation us it"
        using pos find_None_list_ex [of "\<lambda>u. iu_item_id u = item_id it \<and> stage u = ''r''" us]
        by (simp add: strands_reservation_def)
      then show ?thesis using True Some by (simp add: ar)
    qed
  qed
qed

lemma first_pass_conflict:
  assumes "\<forall>it \<in> set (items_tbl d). studio_id it \<notin> set ext \<longrightarrow>
             available_quantity it \<noteq> None \<and> reserved_quantity it \<noteq> None"
    and "\<exists>it \<in> set (items_tbl d). studio_id it \<in> set sids \<and> studio_id it \<notin> set ext \<and>
           strands_reservation (items_us d) it"
  shows "\<exists>it dels'. it \<in> set (items_tbl d) \<and> studio_id it \<notin> set ext \<and>
           strands_reservation (items_us d) it \<and>
           first_pass d ext sids dels =
             Inr (Return (Success_False (irreconcilable_message (studio_id it))) dels')"
  using assms(2)
proof (induction sids arbitrary: dels)
  case Nil
  then show ?case by simp
next
  case (Cons sid sids)
  let ?its = "filter (\<lambda>it. studio_id it = sid) (items_tbl d)"
  show ?case
  proof (cases "sid \<notin> set ext \<and> (\<exists>it \<in> set ?its. strands_reservation (items_us d) it)")
    case True
    then obtain it where it: "it \<in> set (items_tbl d)" "studio_id it = sid"
      "strands_reservation (items_us d) it"
      by auto
    have nn: "\<forall>it \<in> set ?its. available_quantity it \<noteq> None \<and> reserved_quantity it \<noteq> None"
      using assms(1) True by auto
    show ?thesis
      using True it first_pass_items_result [OF nn, of "items_us d" sid dels]
      by (intro exI [of _ it]) auto
  next
    case False
    then have rest: "\<exists>it \<in> set (items_tbl d). studio_id it \<in> set sids \<and>
        studio_id it \<notin> set ext \<and> strands_reservation (items_us d) it"
      using Cons.prems by auto
    show ?thesis
    proof (cases "sid \<in> set ext")
      case True
      then show ?thesis using Cons.IH [OF rest] by simp
    next
      case notin: False
      have nn: "\<forall>it \<in> set ?its. available_quantity it \<noteq> None \<and> reserved_quantity it \<noteq> None"
        using assms(1) notin by auto
      have "first_pass d ext (sid # sids) dels =
            first_pass d ext sids (dels @ map sku_num (filter positive_total ?its))"
        using notin False first_pass_items_result [OF nn, of "items_us d" sid dels]
        by simp
      then show ?thesis using Cons.IH [OF rest] by simp
    qed
  qed
qed

lemma first_pass_no_conflict:
  assumes "\<forall>it \<in> set (items_tbl d). studio_id it \<notin> set ext \<longrightarrow>
             available_quantity it \<noteq> None \<and> reserved_quantity it \<noteq> None"
    and "\<not> (\<exists>it \<in> set (items_tbl d). studio_id it \<in> set sids \<and> studio_id it \<notin> set ext \<and>
              strands_reservation (items_us d) it)"
  shows "first_pass d ext sids dels =
           Inr (Continue (dels @ concat (map
             (\<lambda>sid. if sid \<notin> set ext
                    then map sku_num (filter positive_total
                           (filter (\<lambda>it. studio_id it = sid) (items_tbl d)))
                    else []) sids)))"
  using assms(2)
proof (induction sids arbitrary: dels)
  case Nil
  then show ?case by simp
next
  case (Cons sid sids)
  let ?its = "filter (\<lambda>it. studio_id it = sid) (items_tbl d)"
  have rest: "\<not> (\<exists>it \<in> set (items_tbl d). studio_id it \<in> set sids \<and>
      studio_id it \<notin> set ext \<and> strands_reservation (items_us d) it)"
    using Cons.prems by auto
  show ?case
  proof (cases "sid \<in> set ext")
    case True
    then show ?thesis using Cons.IH [OF rest] by simp
  next
    case False
    have nn: "\<forall>it \<in> set ?its. available_quantity it \<noteq> None \<and> reserved_quantity it \<noteq> None"
      using assms(1) False by auto
    have none: "\<not> (\<exists>it \<in> set ?its. strands_reservation (items_us d) it)"
      using Cons.prems False by auto
    have "first_pass d ext (sid # sids) dels =
          first_pass d ext sids (dels @ map sku_num (filter positive_total ?its))"
      using False none first_pass_items_result [OF nn, of "items_us d" sid dels]
      by simp
    then show ?thesis using Cons.IH [OF rest] False by simp
  qed
qed

lemma set_staged_deletions:
  "set (concat (map
     (\<lambda>sid. if sid \<notin> set ext
            then map sku_num (filter positive_total (filter (\<lambda>it. studio_id it = sid) its))
            else []) (unique (map studio_id its)))) =
   sku_num ` {it \<in> set its. studio_id it \<notin> set ext \<and> positive_total it}"
  by (auto simp: image_iff)

text \<open>The rollup writes the stored totals only: the first pass reads the same.\<close>

lemma rollup_fields [simp]:
  "studio_id (raise_previous_total (rollup_total it)) = studio_id it"
  "item_id (raise_previous_total (rollup_total it)) = item_id it"
  "sku_num (raise_previous_total (rollup_total it)) = sku_num it"
  "available_quantity (raise_previous_total (rollup_total it)) = available_quantity it"
  "reserved_quantity (raise_previous_total (rollup_total it)) = reserved_quantity it"
  by (simp_all add: raise_previous_total_def rollup_total_def split: option.splits)

lemma rollup_predicates [simp]:
  "positive_total (raise_previous_total (rollup_total it)) = positive_total it"
  "strands_reservation us (raise_previous_total (rollup_total it)) = strands_reservation us it"
  by (simp_all add: positive_total_def strands_reservation_def)

lemma rollup_items_tables [simp]:
  "items_us (rollup_items d) = items_us d"
  "items_tbl (rollup_items d) = map (\<lambda>it. raise_previous_total (rollup_total it)) (items_tbl d)"
  by (simp_all add: rollup_items_def)

lemma add_inventory_diff:
  assumes "http_method req = ''POST''" and "has_inventory_file req"
    and "blocking_projects (db w) = []" and "\<not> manual_changes_pending req"
    and "dupes (report_rows req) = []"
  shows "add_inventory req w = diff_report req (w\<lparr>db := rollup_items (db w)\<rparr>)"
  using assms by (simp add: add_inventory_def Let_def)

lemma unmatched_ext:
  "unmatched rs it \<longleftrightarrow>
   studio_id it \<notin> set (unique (map (\<lambda>r. strip (id_text r))
                                 (filter (\<lambda>r. 0 < the (quantity_ordered r)) rs)))"
  by (simp add: unmatched_def kept_rows_def)

text \<open>Claim C5, as amended. Let the request pass the gates and the duplicate check, with
  no blank \<^verbatim>\<open>Quantity Ordered\<close> cell, and let every unmatched item have its available and
  reserved quantities set. If some unmatched item has a positive total and a reserved unit,
  the view answers with the irreconcilable message naming the studio id of such an item,
  and the session is as it was. Otherwise the first pass raises no error and stages the
  sku of exactly the unmatched items of positive total (an unmatched item whose total is
  not positive is not staged), and every answer of the view is a processed-file response
  whose session holds that deletion list.\<close>

theorem unmatched_items_conflict_or_deletion:
  assumes "http_method req = ''POST''" and "has_inventory_file req"
    and "blocking_projects (db w) = []" and "\<not> manual_changes_pending req"
    and "dupes (report_rows req) = []"
    and "\<not> list_ex (\<lambda>r. quantity_ordered r = None) (report_rows req)"
    and "\<forall>it \<in> set (items_tbl (db w)). unmatched (report_rows req) it \<longrightarrow>
           available_quantity it \<noteq> None \<and> reserved_quantity it \<noteq> None"
  shows "((\<exists>it \<in> set (items_tbl (db w)). unmatched (report_rows req) it \<and>
             strands_reservation (items_us (db w)) it) \<longrightarrow>
          (\<exists>it \<in> set (items_tbl (db w)). unmatched (report_rows req) it \<and>
             strands_reservation (items_us (db w)) it \<and>
             add_inventory req w =
               Inr (Success_False (irreconcilable_message (studio_id it)),
                    w\<lparr>db := rollup_items (db w)\<rparr>))) \<and>
         (\<not> (\<exists>it \<in> set (items_tbl (db w)). unmatched (report_rows req) it \<and>
               strands_reservation (items_us (db w)) it) \<longrightarrow>
          (\<exists>dels.
             first_pass (rollup_items (db w))
               (unique (map (\<lambda>r. strip (id_text r)) (kept_rows (report_rows req))))
               (unique (map studio_id (items_tbl (rollup_items (db w))))) [] =
               Inr (Continue dels) \<and>
             set dels = sku_num ` {it \<in> set (items_tbl (db w)).
                                    unmatched (report_rows req) it \<and> positive_total it} \<and>
             (\<forall>resp w'. add_inventory req w = Inr (resp, w') \<longrightarrow>
                (\<exists>c p. resp = File_Processed c p) \<and>
                s_items_to_delete (session w') = Some dels)))"
proof -
  let ?d = "rollup_items (db w)"
  let ?f = "\<lambda>it. raise_previous_total (rollup_total it)"
  let ?ext = "unique (map (\<lambda>r. strip (id_text r)) (kept_rows (report_rows req)))"
  let ?sids = "unique (map studio_id (items_tbl ?d))"
  have ext: "\<And>it. studio_id it \<notin> set ?ext \<longleftrightarrow> unmatched (report_rows req) it"
    by (simp add: unmatched_def)
  have run: "add_inventory req w = diff_report req (w\<lparr>db := ?d\<rparr>)"
    using assms(1-5) by (rule add_inventory_diff)
  have nn: "\<forall>it \<in> set (items_tbl ?d). studio_id it \<notin> set ?ext \<longrightarrow>
              available_quantity it \<noteq> None \<and> reserved_quantity it \<noteq> None"
    using assms(7) by (auto simp: unmatched_def)
  have conflict_iff:
    "(\<exists>it \<in> set (items_tbl ?d). studio_id it \<in> set ?sids \<and> studio_id it \<notin> set ?ext \<and>
        strands_reservation (items_us ?d) it) \<longleftrightarrow>
     (\<exists>it \<in> set (items_tbl (db w)). unmatched (report_rows req) it \<and>
        strands_reservation (items_us (db w)) it)"
    by (auto simp: unmatched_def)
  show ?thesis
  proof (intro conjI impI)
    assume "\<exists>it \<in> set (items_tbl (db w)). unmatched (report_rows req) it \<and>
              strands_reservation (items_us (db w)) it"
    then have "\<exists>it \<in> set (items_tbl ?d). studio_id it \<in> set ?sids \<and>
        studio_id it \<notin> set ?ext \<and> strands_reservation (items_us ?d) it"
      using conflict_iff by blast
    from first_pass_conflict [OF nn this, of "[]"] obtain it' dels' where
      it': "it' \<in> set (items_tbl ?d)" "studio_id it' \<notin> set ?ext"
        "strands_reservation (items_us ?d) it'"
      and fp: "first_pass ?d ?ext ?sids [] =
                 Inr (Return (Success_False (irreconcilable_message (studio_id it'))) dels')"
      by blast
    from it'(1) obtain it where it: "it \<in> set (items_tbl (db w))" "it' = ?f it"
      by auto
    have "add_inventory req w =
            Inr (Success_False (irreconcilable_message (studio_id it)), w\<lparr>db := ?d\<rparr>)"
      using fp assms(6) by (simp add: run diff_report_def Let_def kept_rows_def it(2))
    moreover have "unmatched (report_rows req) it" "strands_reservation (items_us (db w)) it"
      using it' by (simp_all add: it(2) unmatched_def)
    ultimately show "\<exists>it \<in> set (items_tbl (db w)). unmatched (report_rows req) it \<and>
             strands_reservation (items_us (db w)) it \<and>
             add_inventory req w =
               Inr (Success_False (irreconcilable_message (studio_id it)),
                    w\<lparr>db := rollup_items (db w)\<rparr>)"
      using it(1) by blast
  next
    assume "\<not> (\<exists>it \<in> set (items_tbl (db w)). unmatched (report_rows req) it \<and>
               strands_reservation (items_us (db w)) it)"
    then have none: "\<not> (\<exists>it \<in> set (items_tbl ?d). studio_id it \<in> set ?sids \<and>
        studio_id it \<notin> set ?ext \<and> strands_reservation (items_us ?d) it)"
      using conflict_iff by blast
    let ?dels = "concat (map
             (\<lambda>sid. if sid \<notin> set ?ext
                    then map sku_num (filter positive_total
                           (filter (\<lambda>it. studio_id it = sid) (items_tbl ?d)))
                    else []) ?sids)"
    have fp: "first_pass ?d ?ext ?sids [] = Inr (Continue ?dels)"
      using first_pass_no_conflict [OF nn none, of "[]"] by simp
    have "set ?dels = sku_num ` {it \<in> set (items_tbl ?d). studio_id it \<notin> set ?ext \<and>
                                   positive_total it}"
      by (rule set_staged_deletions)
    also have "\<dots> = sku_num ` {it \<in> set (items_tbl (db w)).
                                    unmatched (report_rows req) it \<and> positive_total it}"
      by (auto simp: unmatched_def image_iff) force
    finally have set_dels: "set ?dels = sku_num ` {it \<in> set (items_tbl (db w)).
                                    unmatched (report_rows req) it \<and> positive_total it}" .
    have answers: "\<forall>resp w'. add_inventory req w = Inr (resp, w') \<longrightarrow>
                (\<exists>c p. resp = File_Processed c p) \<and>
                s_items_to_delete (session w') = Some ?dels"
      using fp assms(6)
      by (auto simp: run diff_report_def Let_def kept_rows_def split: sum.splits)
    show "\<exists>dels.
             first_pass (rollup_items (db w))
               (unique (map (\<lambda>r. strip (id_text r)) (kept_rows (report_rows req))))
               (unique (map studio_id (items_tbl (rollup_items (db w))))) [] =
               Inr (Continue dels) \<and>
             set dels = sku_num ` {it \<in> set (items_tbl (db w)).
                                    unmatched (report_rows req) it \<and> positive_total it} \<and>
             (\<forall>resp w'. add_inventory req w = Inr (resp, w') \<longrightarrow>
                (\<exists>c p. resp = File_Processed c p) \<and>
                s_items_to_delete (session w') = Some dels)"
      using fp set_dels answers by blast
  qed
qed

text \<open>The claim C5 as stated fails: items 10 and 12 are absent from the report and no unit
  is reserved; item 12 has a total of zero and its sku is not staged for deletion (only
  the sku of item 10 is).\<close>

theorem zero_total_not_staged_counterexample:
  "add_inventory (upload report_11) (upload_world (absent_db ''a'')) =
     Inr (File_Processed True None,
          \<lparr>db = (absent_db ''a'')\<lparr>action_logs := [''NI'']\<rparr>,
           session = empty_session\<lparr>s_new_items := Some [], s_items_to_change := Some [],
                                   s_items_to_delete := Some [''SKU10''],
                                   s_items_to_subtract := Some []\<rparr>,
           outbox = [], qr_stickers = None\<rparr>)"
  by (simp add: upload_defs upload_example_defs absent_db_def report_11_def)

theorem unmatched_items_conflict_or_deletion_witness:
  "add_inventory (upload report_11) (upload_world (absent_db ''r'')) =
     Inr (Success_False
            (''ST10 is not found in Studio upload, and at least one '' @
             ''of this item is currently reserved to a project. '' @
             ''This issue is irreconcilable.''),
          upload_world (absent_db ''r'')) \<and>
   s_items_to_delete (session (snd (projr
     (add_inventory (upload report_11) (upload_world (absent_db ''a'')))))) = Some [''SKU10'']"
  using unmatched_items_conflict_or_deletion [of "upload report_11" "upload_world (absent_db ''r'')"]
    unmatched_items_conflict_or_deletion [of "upload report_11" "upload_world (absent_db ''a'')"]
  by (simp add: upload_defs upload_example_defs absent_db_def report_11_def)

subsection \<open>Rows without an ordered quantity\<close>

lemma count_list_map_remove:
  "count_list (map f (xs @ ys)) v \<le> count_list (map f (xs @ r # ys)) v"
  by simp

lemma dupes_empty_iff:
  "dupes rs = [] \<longleftrightarrow> (\<forall>r \<in> set rs. count_list (map normalized rs) (normalized r) \<le> 1)"
  by (auto simp: dupes_def filter_empty_conv not_less)

lemma dupes_remove:
  assumes "dupes (xs @ r # ys) = []"
  shows "dupes (xs @ ys) = []"
proof -
  have "\<forall>x \<in> set (xs @ ys). count_list (map normalized (xs @ ys)) (normalized x) \<le> 1"
  proof
    fix x assume "x \<in> set (xs @ ys)"
    then have "x \<in> set (xs @ r # ys)" by auto
    then have "count_list (map normalized (xs @ r # ys)) (normalized x) \<le> 1"
      using assms by (simp only: dupes_empty_iff)
    then show "count_list (map normalized (xs @ ys)) (normalized x) \<le> 1"
      using count_list_map_remove [of normalized xs ys "normalized x" r] by linarith
  qed
  then show ?thesis by (simp only: dupes_empty_iff)
qed

text \<open>Claim C10, as amended. A row whose \<^verbatim>\<open>Quantity Ordered\<close> is not greater than 0 is as
  good as absent for the diff: the diff proper (all that follows the duplicate check)
  gives the same answer and leaves the same tables, session and label sheet as on the
  report without the row, and so does the whole view when the report has no duplicated
  identifier. So the row is never staged as a new item or compared for field changes, and
  an item whose only row it is, is handled by the first pass as an unmatched item.\<close>

theorem unordered_row_is_as_absent:
  assumes "quantity_ordered r = Some q" and "q \<le> 0"
  shows "diff_report (req\<lparr>report_rows := xs @ r # ys\<rparr>) w =
         diff_report (req\<lparr>report_rows := xs @ ys\<rparr>) w \<and>
         (dupes (xs @ r # ys) = [] \<longrightarrow>
          add_inventory (req\<lparr>report_rows := xs @ r # ys\<rparr>) w =
          add_inventory (req\<lparr>report_rows := xs @ ys\<rparr>) w)"
proof -
  have diff: "diff_report (req\<lparr>report_rows := xs @ r # ys\<rparr>) w' =
        diff_report (req\<lparr>report_rows := xs @ ys\<rparr>) w'" for w'
    using assms
    by (simp add: diff_report_def Let_def split: sum.splits step.splits)
  have "add_inventory (req\<lparr>report_rows := xs @ r # ys\<rparr>) w =
        add_inventory (req\<lparr>report_rows := xs @ ys\<rparr>) w"
    if d: "dupes (xs @ r # ys) = []"
  proof -
    have "dupes (xs @ ys) = []" using d by (rule dupes_remove)
    then show ?thesis using d diff by (simp add: add_inventory_def Let_def)
  qed
  then show ?thesis using diff by blast
qed

text \<open>The claim C10 as stated fails in its last part: the only rows of items 10 and 12 have
  a \<^verbatim>\<open>Quantity Ordered\<close> of 0 and no unit is reserved; item 10 is staged for deletion, but
  item 12, whose total is zero, is neither staged for deletion nor reported.\<close>

theorem unordered_row_zero_total_counterexample:
  "add_inventory
     (upload [mk_row (Some ''ST11'') (Some 1) (Some 1), mk_row (Some ''ST10'') (Some 0) (Some 4),
              mk_row (Some ''ST12'') (Some 0) (Some 4)])
     (upload_world (absent_db ''a'')) =
   Inr (File_Processed True None,
        \<lparr>db = (absent_db ''a'')\<lparr>action_logs := [''NI'']\<rparr>,
         session = empty_session\<lparr>s_new_items := Some [], s_items_to_change := Some [],
                                 s_items_to_delete := Some [''SKU10''],
                                 s_items_to_subtract := Some []\<rparr>,
         outbox = [], qr_stickers = None\<rparr>)"
  by (simp add: upload_defs upload_example_defs absent_db_def)

theorem unordered_row_is_as_absent_witness:
  "diff_report (upload (report_11 @ [mk_row (Some ''ST10'') (Some 0) (Some 4)]))
     (upload_world (absent_db ''a'')) =
   diff_report (upload report_11) (upload_world (absent_db ''a'')) \<and>
   add_inventory (upload (report_11 @ [mk_row (Some ''ST10'') (Some 0) (Some 4)]))
     (upload_world (absent_db ''a'')) =
   add_inventory (upload report_11) (upload_world (absent_db ''a''))"
proof -
  have q: "quantity_ordered (mk_row (Some ''ST10'') (Some 0) (Some 4)) = Some 0"
    by (simp add: mk_row_def)
  have d: "dupes (report_11 @ mk_row (Some ''ST10'') (Some 0) (Some 4) # []) = []"
    by (simp add: dupes_def normalized_def strip_def lower_def lower_char_def is_space_def
        report_11_def mk_row_def)
  show ?thesis
    using unordered_row_is_as_absent [OF q, of report_11 "[]" "upload []"
        "upload_world (absent_db ''a'')"] d
    by (simp add: upload_def)
qed

end
